(* ===== verification/Prelude.thy ===== *)
theory Prelude
  imports Main "HOL-Library.Word" "HOL-Library.Sublist" "HOL-Library.Char_ord"
    "HOL-Library.List_Lexorder"
begin

text \<open>
  What every component of the development shares: the names of the model's
  types, the functions of Go's \<open>strings\<close> package that the sources call, and
  two interfaces (a keyed store and a run of steps that keep an invariant) with
  the lemmas their clients use.

  A Go \<open>string\<close> is a sequence of bytes, and so is HOL's \<open>string\<close>.  A UUID is
  128 bits; \<open>uuid.Nil\<close> is the zero word.  Instants and durations are
  nanoseconds: \<open>int\<close> where the code only compares them, 64-bit words where
  overflow matters.
\<close>

section \<open>Types and fact collections\<close>

type_synonym go_string = string
type_synonym uuid = "128 word"
type_synonym instant = int

definition uuid_nil :: uuid where
  "uuid_nil = 0"

text \<open>Facts about Go's string functions, and facts that compute a guard.\<close>

named_theorems str_simps
named_theorems guard_simps

section \<open>Go's string functions\<close>

definition has_prefix :: "go_string \<Rightarrow> go_string \<Rightarrow> bool" where
  "has_prefix s p \<longleftrightarrow> take (length p) s = p"

definition has_suffix :: "go_string \<Rightarrow> go_string \<Rightarrow> bool" where
  "has_suffix s p \<longleftrightarrow> has_prefix (rev s) (rev p)"

definition trim_prefix :: "go_string \<Rightarrow> go_string \<Rightarrow> go_string" where
  "trim_prefix s p = (if has_prefix s p then drop (length p) s else s)"

definition cut_prefix :: "go_string \<Rightarrow> go_string \<Rightarrow> go_string option" where
  "cut_prefix s p = (if has_prefix s p then Some (drop (length p) s) else None)"

definition trim_left :: "char \<Rightarrow> go_string \<Rightarrow> go_string" where
  "trim_left c = dropWhile (\<lambda>x. x = c)"

definition trim_right :: "char \<Rightarrow> go_string \<Rightarrow> go_string" where
  "trim_right c s = rev (trim_left c (rev s))"

definition trim :: "char \<Rightarrow> go_string \<Rightarrow> go_string" where
  "trim c s = trim_right c (trim_left c s)"

fun split_on :: "char \<Rightarrow> go_string \<Rightarrow> go_string list" where
  "split_on c [] = [[]]"
| "split_on c (x # xs) =
     (if x = c then [] # split_on c xs
      else case split_on c xs of
             [] \<Rightarrow> [[x]]
           | p # ps \<Rightarrow> (x # p) # ps)"

text \<open>\<open>strings.SplitN(s, sep, 2)\<close> for a one-byte separator.\<close>

definition split2 :: "char \<Rightarrow> go_string \<Rightarrow> go_string list" where
  "split2 c s =
     (case dropWhile (\<lambda>x. x \<noteq> c) s of
        [] \<Rightarrow> [s]
      | _ # r \<Rightarrow> [takeWhile (\<lambda>x. x \<noteq> c) s, r])"

fun contains_str :: "go_string \<Rightarrow> go_string \<Rightarrow> bool" where
  "contains_str [] p \<longleftrightarrow> p = []"
| "contains_str (x # xs) p \<longleftrightarrow> has_prefix (x # xs) p \<or> contains_str xs p"

text \<open>\<open>strings.Index\<close>: \<open>None\<close> is its -1.\<close>

fun index_str :: "go_string \<Rightarrow> go_string \<Rightarrow> nat option" where
  "index_str s p =
     (if has_prefix s p then Some 0
      else case s of [] \<Rightarrow> None | x # xs \<Rightarrow> map_option Suc (index_str xs p))"

fun join_str :: "go_string \<Rightarrow> go_string list \<Rightarrow> go_string" where
  "join_str sep [] = []"
| "join_str sep [s] = s"
| "join_str sep (s # t # ss) = s @ sep @ join_str sep (t # ss)"

lemma has_prefix_append [str_simps, simp]: "has_prefix (p @ s) p"
  by (simp add: has_prefix_def)

lemma has_prefix_Nil [str_simps, simp]: "has_prefix s []"
  by (simp add: has_prefix_def)

lemma has_prefix_Cons [str_simps, simp]:
  "has_prefix s (a # p) \<longleftrightarrow> (case s of [] \<Rightarrow> False | b # t \<Rightarrow> b = a \<and> has_prefix t p)"
  by (cases s) (auto simp: has_prefix_def)

lemma has_prefix_iff: "has_prefix s p \<longleftrightarrow> (\<exists>r. s = p @ r)"
  by (metis append_take_drop_id has_prefix_append has_prefix_def)

lemma trim_prefix_append [str_simps, simp]: "trim_prefix (p @ s) p = s"
  by (simp add: trim_prefix_def)

lemma cut_prefix_append [str_simps, simp]: "cut_prefix (p @ s) p = Some s"
  by (simp add: cut_prefix_def)

lemma cut_prefix_Some_iff: "cut_prefix s p = Some r \<longleftrightarrow> s = p @ r"
  by (auto simp: cut_prefix_def has_prefix_iff)

declare index_str.simps [simp del]

lemma index_str_append:
  assumes "\<And>i. i < length a \<Longrightarrow> \<not> has_prefix (drop i a @ p @ b) p"
  shows "index_str (a @ p @ b) p = Some (length a)"
  using assms
proof (induction a)
  case (Cons x a)
  have "index_str (a @ p @ b) p = Some (length a)"
    using Cons.prems [of "Suc _"] by (intro Cons.IH) auto
  with Cons.prems [of 0] show ?case
    by (subst index_str.simps) simp
qed (simp add: index_str.simps)

lemma index_str_one:
  "c \<notin> set a \<Longrightarrow> index_str (a @ c # b) [c] = Some (length a)"
proof (induction a)
  case (Cons x a)
  then show ?case
    by (subst index_str.simps) auto
qed (simp add: index_str.simps)

lemma index_str_one_None: "c \<notin> set s \<Longrightarrow> index_str s [c] = None"
  by (induction s) (subst index_str.simps; auto)+

lemma contains_str_iff: "contains_str s p \<longleftrightarrow> (\<exists>a b. s = a @ p @ b)"
proof (induction s)
  case (Cons x s)
  show ?case
  proof
    assume "contains_str (x # s) p"
    then consider "has_prefix (x # s) p" | "contains_str s p"
      by (auto simp del: has_prefix_Cons)
    then show "\<exists>a b. x # s = a @ p @ b"
    proof cases
      case 1
      then obtain b where "x # s = [] @ p @ b"
        by (auto simp only: has_prefix_iff append_Nil)
      then show ?thesis
        by blast
    next
      case 2
      then obtain a b where "s = a @ p @ b"
        using Cons.IH by blast
      then have "x # s = (x # a) @ p @ b"
        by simp
      then show ?thesis
        by blast
    qed
  next
    assume "\<exists>a b. x # s = a @ p @ b"
    then obtain a b where ab: "x # s = a @ p @ b"
      by blast
    then show "contains_str (x # s) p"
    proof (cases a)
      case Nil
      with ab have "has_prefix (x # s) p"
        by (simp only: append_Nil has_prefix_append)
      then show ?thesis
        by (simp del: has_prefix_Cons)
    next
      case (Cons y a')
      with ab Cons.IH show ?thesis
        by auto
    qed
  qed
qed auto

lemma split_on_not_Nil [simp]: "split_on c s \<noteq> []"
  by (induction s) (auto split: list.splits)

lemma split_on_no_sep [str_simps]: "c \<notin> set s \<Longrightarrow> split_on c s = [s]"
  by (induction s) auto

lemma split_on_append [str_simps]:
  "c \<notin> set a \<Longrightarrow> split_on c (a @ c # b) = a # split_on c b"
  by (induction a) auto

lemma split_on_parts_no_sep: "p \<in> set (split_on c s) \<Longrightarrow> c \<notin> set p"
  by (induction s arbitrary: p) (auto split: list.splits if_splits)

lemma join_split_on [str_simps]: "join_str [c] (split_on c s) = s"
proof (induction s)
  case (Cons x xs)
  obtain p ps where sp: "split_on c xs = p # ps"
    by (meson neq_Nil_conv split_on_not_Nil)
  with Cons show ?case
    by (cases ps) auto
qed simp

lemma split2_no_sep [str_simps]: "c \<notin> set s \<Longrightarrow> split2 c s = [s]"
proof -
  assume "c \<notin> set s"
  then have "dropWhile (\<lambda>x. x \<noteq> c) s = []"
    by (induction s) auto
  then show ?thesis
    by (simp only: split2_def list.case)
qed

lemma split2_append [str_simps]: "c \<notin> set a \<Longrightarrow> split2 c (a @ c # b) = [a, b]"
proof -
  assume "c \<notin> set a"
  then have "dropWhile (\<lambda>x. x \<noteq> c) (a @ c # b) = c # b"
    and "takeWhile (\<lambda>x. x \<noteq> c) (a @ c # b) = a"
    by (induction a) auto
  then show ?thesis
    by (simp add: split2_def)
qed

lemma trim_left_id [str_simps]: "s = [] \<or> hd s \<noteq> c \<Longrightarrow> trim_left c s = s"
  by (cases s) (auto simp: trim_left_def)

lemma trim_right_id [str_simps]: "s = [] \<or> last s \<noteq> c \<Longrightarrow> trim_right c s = s"
  by (cases s rule: rev_cases) (auto simp: trim_right_def trim_left_def)

lemma trim_id [str_simps]:
  "s = [] \<or> hd s \<noteq> c \<and> last s \<noteq> c \<Longrightarrow> trim c s = s"
  by (auto simp: trim_def trim_left_id trim_right_id)

lemma trim_left_Cons [str_simps, simp]: "trim_left c (c # s) = trim_left c s"
  by (simp add: trim_left_def)

section \<open>Searching lists\<close>

lemma find_in_set: "find P xs = Some x \<Longrightarrow> x \<in> set xs \<and> P x"
  by (auto simp: find_Some_iff)

lemma find_unique:
  assumes "x \<in> set xs" "P x" "\<And>y. y \<in> set xs \<Longrightarrow> P y \<Longrightarrow> y = x"
  shows "find P xs = Some x"
proof (cases "find P xs")
  case None
  with assms(1,2) show ?thesis
    by (auto simp: find_None_iff)
next
  case (Some y)
  with assms(3) find_in_set [OF Some] show ?thesis
    by blast
qed

section \<open>A keyed store\<close>

text \<open>
  The contract of a table keyed by its primary key: what a lookup returns after
  an upsert and after a deletion.  Repositories that keep one row per key are
  interpretations, and their clients use only these laws.
\<close>

locale keyed_store =
  fixes lookup :: "'s \<Rightarrow> 'k \<Rightarrow> 'v option"
    and upsert :: "'k \<Rightarrow> 'v \<Rightarrow> 's \<Rightarrow> 's"
    and remove :: "'k \<Rightarrow> 's \<Rightarrow> 's"
    and well_formed :: "'s \<Rightarrow> bool"
  assumes lookup_upsert:
      "well_formed s \<Longrightarrow> lookup (upsert k v s) k' = (if k' = k then Some v else lookup s k')"
    and lookup_remove:
      "well_formed s \<Longrightarrow> lookup (remove k s) k' = (if k' = k then None else lookup s k')"
    and upsert_wf: "well_formed s \<Longrightarrow> well_formed (upsert k v s)"
    and remove_wf: "well_formed s \<Longrightarrow> well_formed (remove k s)"
begin

lemma upsert_same: "well_formed s \<Longrightarrow> lookup (upsert k v s) k = Some v"
  by (simp add: lookup_upsert)

lemma remove_same: "well_formed s \<Longrightarrow> lookup (remove k s) k = None"
  by (simp add: lookup_remove)

lemma upsert_frame: "well_formed s \<Longrightarrow> k' \<noteq> k \<Longrightarrow> lookup (upsert k v s) k' = lookup s k'"
  by (simp add: lookup_upsert)

lemma remove_frame: "well_formed s \<Longrightarrow> k' \<noteq> k \<Longrightarrow> lookup (remove k s) k' = lookup s k'"
  by (simp add: lookup_remove)

lemma last_upsert_wins:
  "well_formed s \<Longrightarrow> lookup (upsert k v (upsert k w s)) k = Some v"
  by (simp add: upsert_same upsert_wf)

lemma upsert_remove: "well_formed s \<Longrightarrow> lookup (remove k (upsert k v s)) k' = lookup (remove k s) k'"
  by (simp add: lookup_remove lookup_upsert upsert_wf)

end

section \<open>Runs of steps that keep an invariant\<close>

text \<open>
  A component whose operations are steps over its state: every operation keeps
  the invariant, so every sequence of operations does.
\<close>

locale step_system =
  fixes step :: "'e \<Rightarrow> 's \<Rightarrow> 's"
    and inv :: "'s \<Rightarrow> bool"
  assumes step_inv: "inv s \<Longrightarrow> inv (step e s)"
begin

lemma run_inv: "inv s \<Longrightarrow> inv (fold step es s)"
  by (induction es arbitrary: s) (auto intro: step_inv)

lemma run_prefix_inv: "inv s \<Longrightarrow> inv (fold step (take n es) s)"
  by (rule run_inv)

end

end
