(* ===== verification/AzureRoles.thy ===== *)
theory AzureRoles
  imports Prelude
begin

text \<open>
  The catalogue of data actions and built-in roles (\<open>src/model/azure_roles.go\<close>).
  A data action is a constructor of \<open>data_action\<close>, \<open>action_str\<close> is the string
  the code stores; Go's empty action is \<open>None\<close>.  Role names stay strings, as
  they are stored verbatim in the database and compared exactly.
\<close>

section \<open>Data actions\<close>

datatype data_action =
    ActionSecretsReadMetadata | ActionSecretsGet | ActionSecretsSet
  | ActionSecretsDelete | ActionSecretsBackup | ActionSecretsRestore
  | ActionSecretsRecover | ActionSecretsPurge
  | ActionKeysRead | ActionKeysCreate | ActionKeysUpdate | ActionKeysDelete
  | ActionKeysBackup | ActionKeysRestore | ActionKeysRecover | ActionKeysPurge
  | ActionKeysImport | ActionKeysRotate | ActionKeysEncrypt | ActionKeysDecrypt
  | ActionKeysWrap | ActionKeysUnwrap | ActionKeysSign | ActionKeysVerify
  | ActionKeysRotationPolicyRead | ActionKeysRotationPolicyWrite | ActionKeysExport
  | ActionCertificatesRead | ActionCertificatesCreate | ActionCertificatesUpdate
  | ActionCertificatesDelete | ActionCertificatesBackup | ActionCertificatesRestore
  | ActionCertificatesRecover | ActionCertificatesPurge | ActionCertificatesExportItem
  | ActionVaultPurge | ActionRoleAssignmentsWrite | ActionRoleAssignmentsDelete

fun action_str :: "data_action \<Rightarrow> go_string" where
  "action_str ActionSecretsReadMetadata = ''Microsoft.KeyVault/vaults/secrets/readMetadata/action''"
| "action_str ActionSecretsGet = ''Microsoft.KeyVault/vaults/secrets/getSecret/action''"
| "action_str ActionSecretsSet = ''Microsoft.KeyVault/vaults/secrets/setSecret/action''"
| "action_str ActionSecretsDelete = ''Microsoft.KeyVault/vaults/secrets/delete''"
| "action_str ActionSecretsBackup = ''Microsoft.KeyVault/vaults/secrets/backup/action''"
| "action_str ActionSecretsRestore = ''Microsoft.KeyVault/vaults/secrets/restore/action''"
| "action_str ActionSecretsRecover = ''Microsoft.KeyVault/vaults/secrets/recover/action''"
| "action_str ActionSecretsPurge = ''Microsoft.KeyVault/vaults/secrets/purge''"
| "action_str ActionKeysRead = ''Microsoft.KeyVault/vaults/keys/read''"
| "action_str ActionKeysCreate = ''Microsoft.KeyVault/vaults/keys/create''"
| "action_str ActionKeysUpdate = ''Microsoft.KeyVault/vaults/keys/update''"
| "action_str ActionKeysDelete = ''Microsoft.KeyVault/vaults/keys/delete''"
| "action_str ActionKeysBackup = ''Microsoft.KeyVault/vaults/keys/backup/action''"
| "action_str ActionKeysRestore = ''Microsoft.KeyVault/vaults/keys/restore/action''"
| "action_str ActionKeysRecover = ''Microsoft.KeyVault/vaults/keys/recover/action''"
| "action_str ActionKeysPurge = ''Microsoft.KeyVault/vaults/keys/purge''"
| "action_str ActionKeysImport = ''Microsoft.KeyVault/vaults/keys/import/action''"
| "action_str ActionKeysRotate = ''Microsoft.KeyVault/vaults/keys/rotate/action''"
| "action_str ActionKeysEncrypt = ''Microsoft.KeyVault/vaults/keys/encrypt/action''"
| "action_str ActionKeysDecrypt = ''Microsoft.KeyVault/vaults/keys/decrypt/action''"
| "action_str ActionKeysWrap = ''Microsoft.KeyVault/vaults/keys/wrap/action''"
| "action_str ActionKeysUnwrap = ''Microsoft.KeyVault/vaults/keys/unwrap/action''"
| "action_str ActionKeysSign = ''Microsoft.KeyVault/vaults/keys/sign/action''"
| "action_str ActionKeysVerify = ''Microsoft.KeyVault/vaults/keys/verify/action''"
| "action_str ActionKeysRotationPolicyRead = ''Microsoft.KeyVault/vaults/keys/rotationpolicy/read''"
| "action_str ActionKeysRotationPolicyWrite = ''Microsoft.KeyVault/vaults/keys/rotationpolicy/write''"
| "action_str ActionKeysExport = ''Microsoft.KeyVault/vaults/keys/export/action''"
| "action_str ActionCertificatesRead = ''Microsoft.KeyVault/vaults/certificates/read''"
| "action_str ActionCertificatesCreate = ''Microsoft.KeyVault/vaults/certificates/create''"
| "action_str ActionCertificatesUpdate = ''Microsoft.KeyVault/vaults/certificates/update''"
| "action_str ActionCertificatesDelete = ''Microsoft.KeyVault/vaults/certificates/delete''"
| "action_str ActionCertificatesBackup = ''Microsoft.KeyVault/vaults/certificates/backup/action''"
| "action_str ActionCertificatesRestore = ''Microsoft.KeyVault/vaults/certificates/restore/action''"
| "action_str ActionCertificatesRecover = ''Microsoft.KeyVault/vaults/certificates/recover/action''"
| "action_str ActionCertificatesPurge = ''Microsoft.KeyVault/vaults/certificates/purge''"
| "action_str ActionCertificatesExportItem = ''Microsoft.KeyVault/vaults/certificates/export/action''"
| "action_str ActionVaultPurge = ''Microsoft.KeyVault/vaults/purge/action''"
| "action_str ActionRoleAssignmentsWrite = ''Microsoft.Authorization/roleAssignments/write''"
| "action_str ActionRoleAssignmentsDelete = ''Microsoft.Authorization/roleAssignments/delete''"

section \<open>Roles\<close>

definition RoleKeyVaultAdministrator :: go_string where
  "RoleKeyVaultAdministrator = ''Key Vault Administrator''"
definition RoleKeyVaultReader :: go_string where
  "RoleKeyVaultReader = ''Key Vault Reader''"
definition RoleKeyVaultSecretsUser :: go_string where
  "RoleKeyVaultSecretsUser = ''Key Vault Secrets User''"
definition RoleKeyVaultSecretsOfficer :: go_string where
  "RoleKeyVaultSecretsOfficer = ''Key Vault Secrets Officer''"
definition RoleKeyVaultCryptoUser :: go_string where
  "RoleKeyVaultCryptoUser = ''Key Vault Crypto User''"
definition RoleKeyVaultCryptoOfficer :: go_string where
  "RoleKeyVaultCryptoOfficer = ''Key Vault Crypto Officer''"
definition RoleKeyVaultCertificatesOfficer :: go_string where
  "RoleKeyVaultCertificatesOfficer = ''Key Vault Certificates Officer''"
definition RoleKeyVaultPurgeOperator :: go_string where
  "RoleKeyVaultPurgeOperator = ''Key Vault Purge Operator''"
definition RoleKeyVaultCertificateUser :: go_string where
  "RoleKeyVaultCertificateUser = ''Key Vault Certificate User''"
definition RoleKeyVaultCryptoServiceEncryptionUser :: go_string where
  "RoleKeyVaultCryptoServiceEncryptionUser = ''Key Vault Crypto Service Encryption User''"
definition RoleKeyVaultDataAccessAdministrator :: go_string where
  "RoleKeyVaultDataAccessAdministrator = ''Key Vault Data Access Administrator''"
definition RoleKeyVaultCertificateExporter :: go_string where
  "RoleKeyVaultCertificateExporter = ''Key Vault Certificate Exporter''"
definition RoleKeyVaultKeyExporter :: go_string where
  "RoleKeyVaultKeyExporter = ''Key Vault Key Exporter''"

lemmas azure_role_names = RoleKeyVaultAdministrator_def RoleKeyVaultReader_def
  RoleKeyVaultSecretsUser_def RoleKeyVaultSecretsOfficer_def RoleKeyVaultCryptoUser_def
  RoleKeyVaultCryptoOfficer_def RoleKeyVaultCertificatesOfficer_def
  RoleKeyVaultPurgeOperator_def RoleKeyVaultCertificateUser_def
  RoleKeyVaultCryptoServiceEncryptionUser_def RoleKeyVaultDataAccessAdministrator_def
  RoleKeyVaultCertificateExporter_def RoleKeyVaultKeyExporter_def

definition azureRoleDataActions :: "(go_string \<times> data_action list) list" where
  "azureRoleDataActions =
   [(RoleKeyVaultAdministrator,
      [ActionSecretsReadMetadata, ActionSecretsGet, ActionSecretsSet,
       ActionSecretsDelete, ActionSecretsBackup, ActionSecretsRestore,
       ActionSecretsRecover, ActionSecretsPurge,
       ActionKeysRead, ActionKeysCreate, ActionKeysUpdate, ActionKeysDelete,
       ActionKeysBackup, ActionKeysRestore, ActionKeysRecover, ActionKeysPurge,
       ActionKeysImport, ActionKeysRotate, ActionKeysEncrypt, ActionKeysDecrypt,
       ActionKeysWrap, ActionKeysUnwrap, ActionKeysSign, ActionKeysVerify,
       ActionKeysRotationPolicyRead, ActionKeysRotationPolicyWrite,
       ActionCertificatesRead, ActionCertificatesCreate, ActionCertificatesUpdate,
       ActionCertificatesDelete, ActionCertificatesBackup, ActionCertificatesRestore,
       ActionCertificatesRecover, ActionCertificatesPurge,
       ActionCertificatesExportItem, ActionKeysExport]),
    (RoleKeyVaultReader,
      [ActionSecretsReadMetadata, ActionKeysRead, ActionCertificatesRead]),
    (RoleKeyVaultSecretsUser,
      [ActionSecretsReadMetadata, ActionSecretsGet]),
    (RoleKeyVaultSecretsOfficer,
      [ActionSecretsReadMetadata, ActionSecretsGet, ActionSecretsSet,
       ActionSecretsDelete, ActionSecretsBackup, ActionSecretsRestore,
       ActionSecretsRecover, ActionSecretsPurge]),
    (RoleKeyVaultCryptoUser,
      [ActionKeysRead, ActionKeysUpdate, ActionKeysEncrypt, ActionKeysDecrypt,
       ActionKeysWrap, ActionKeysUnwrap, ActionKeysSign, ActionKeysVerify,
       ActionKeysBackup]),
    (RoleKeyVaultCryptoOfficer,
      [ActionKeysRead, ActionKeysCreate, ActionKeysUpdate, ActionKeysDelete,
       ActionKeysBackup, ActionKeysRestore, ActionKeysRecover, ActionKeysPurge,
       ActionKeysImport, ActionKeysRotate, ActionKeysEncrypt, ActionKeysDecrypt,
       ActionKeysWrap, ActionKeysUnwrap, ActionKeysSign, ActionKeysVerify,
       ActionKeysRotationPolicyRead, ActionKeysRotationPolicyWrite]),
    (RoleKeyVaultCertificatesOfficer,
      [ActionCertificatesRead, ActionCertificatesCreate, ActionCertificatesUpdate,
       ActionCertificatesDelete, ActionCertificatesBackup, ActionCertificatesRestore,
       ActionCertificatesRecover, ActionCertificatesPurge]),
    (RoleKeyVaultPurgeOperator, [ActionVaultPurge]),
    (RoleKeyVaultCertificateUser, [ActionCertificatesRead]),
    (RoleKeyVaultCryptoServiceEncryptionUser,
      [ActionKeysRead, ActionKeysWrap, ActionKeysUnwrap]),
    (RoleKeyVaultDataAccessAdministrator,
      [ActionRoleAssignmentsWrite, ActionRoleAssignmentsDelete]),
    (RoleKeyVaultCertificateExporter, [ActionCertificatesExportItem]),
    (RoleKeyVaultKeyExporter, [ActionKeysExport])]"

definition AzureRoleNames :: "go_string list" where
  "AzureRoleNames = sort (map fst azureRoleDataActions)"

definition IsAzureRole :: "go_string \<Rightarrow> bool" where
  "IsAzureRole name \<longleftrightarrow> map_of azureRoleDataActions name \<noteq> None"

definition AzureRoleDataActions :: "go_string \<Rightarrow> data_action list" where
  "AzureRoleDataActions role =
     (case map_of azureRoleDataActions role of None \<Rightarrow> [] | Some acts \<Rightarrow> acts)"

fun grants_loop :: "data_action list \<Rightarrow> data_action \<Rightarrow> bool" where
  "grants_loop [] action = False"
| "grants_loop (a # as) action = (if a = action then True else grants_loop as action)"

definition RoleGrantsDataAction :: "go_string \<Rightarrow> data_action option \<Rightarrow> bool" where
  "RoleGrantsDataAction role action =
     (case action of
        None \<Rightarrow> False
      | Some act \<Rightarrow>
          if role = [] then False
          else (case map_of azureRoleDataActions role of
                  None \<Rightarrow> False
                | Some acts \<Rightarrow> grants_loop acts act))"

section \<open>Facts about the catalogue\<close>

lemma grants_loop_iff: "grants_loop as a \<longleftrightarrow> a \<in> set as"
  by (induction as) auto

lemma action_str_inj [simp]: "action_str a = action_str b \<longleftrightarrow> a = b"
proof -
  define acts where "acts = concat (map snd azureRoleDataActions)"
  have "distinct (map action_str (remdups acts))"
    unfolding acts_def by code_simp
  moreover have "c \<in> set (remdups acts)" for c
    unfolding acts_def azureRoleDataActions_def by (cases c) simp_all
  ultimately show ?thesis
    by (metis (no_types) distinct_map inj_on_def)
qed

lemma action_str_not_Nil [simp]: "action_str a \<noteq> []"
  by (cases a) simp_all

lemma azure_role_names_distinct: "distinct (map fst azureRoleDataActions)"
  by code_simp

lemma azure_role_name_not_Nil: "[] \<notin> fst ` set azureRoleDataActions"
  by (simp add: azureRoleDataActions_def azure_role_names)

lemma IsAzureRole_iff: "IsAzureRole r \<longleftrightarrow> r \<in> fst ` set azureRoleDataActions"
  by (simp add: IsAzureRole_def map_of_eq_None_iff)

lemma RoleGrants_iff:
  "RoleGrantsDataAction r (Some a) \<longleftrightarrow> a \<in> set (AzureRoleDataActions r)"
proof (cases "r = []")
  case True
  have "map_of azureRoleDataActions [] = None"
    using azure_role_name_not_Nil by (simp add: map_of_eq_None_iff)
  with True show ?thesis
    by (simp add: RoleGrantsDataAction_def AzureRoleDataActions_def)
next
  case False
  then show ?thesis
    by (simp add: RoleGrantsDataAction_def AzureRoleDataActions_def grants_loop_iff
        split: option.split)
qed

lemma RoleGrants_None [simp]: "\<not> RoleGrantsDataAction r None"
  by (simp add: RoleGrantsDataAction_def)

lemma RoleGrants_IsAzureRole: "RoleGrantsDataAction r a \<Longrightarrow> IsAzureRole r"
  by (cases a) (auto simp: RoleGrantsDataAction_def IsAzureRole_def split: option.splits if_splits)

lemma AzureRoleNames_set: "set AzureRoleNames = {r. IsAzureRole r}"
  by (auto simp: AzureRoleNames_def IsAzureRole_iff)

end
