(* ===== verification/RouteMap.thy ===== *)
theory RouteMap
  imports AzureRoles
begin

text \<open>
  The map from an HTTP method and path to the one data action that a request
  needs (\<open>src/internal/services/authorization/data_actions.go\<close>).  The pair of
  the Go functions is kept: the action (\<open>None\<close> for the empty string) and the
  kind of the route; an unmapped data-plane route is \<open>(None, RouteVaultData)\<close>,
  which every caller refuses.
\<close>

datatype route_kind = RouteUnmanaged | RouteVaultData

type_synonym route = "data_action option \<times> route_kind"

abbreviation "MethodGet \<equiv> ''GET''"
abbreviation "MethodPost \<equiv> ''POST''"
abbreviation "MethodPut \<equiv> ''PUT''"
abbreviation "MethodDelete \<equiv> ''DELETE''"
abbreviation "slash \<equiv> CHR ''/''"

abbreviation data_route :: "data_action \<Rightarrow> route" where
  "data_route a \<equiv> (Some a, RouteVaultData)"
abbreviation unmapped :: route where
  "unmapped \<equiv> (None, RouteVaultData)"

definition DataPlaneBasePath :: go_string where
  "DataPlaneBasePath = ''/api/v1''"

definition normalizeAuthPath :: "go_string \<Rightarrow> go_string" where
  "normalizeAuthPath path = trim slash (trim_prefix path DataPlaneBasePath)"

definition mapSecretAction :: "go_string \<Rightarrow> go_string \<Rightarrow> route" where
  "mapSecretAction method rest =
     (if rest = '''' then
        (if method = MethodGet then data_route ActionSecretsReadMetadata
         else if method = MethodPost then data_route ActionSecretsSet
         else unmapped)
      else if rest = ''generate'' \<or> rest = ''import'' then
        (if method = MethodPost then data_route ActionSecretsSet else unmapped)
      else if rest = ''export'' then
        (if method = MethodPost then data_route ActionSecretsGet else unmapped)
      else if rest = ''restore'' then
        (if method = MethodPost then data_route ActionSecretsRestore else unmapped)
      else
        let seg = split_on slash rest in
        if length seg = 1 then
          (if method = MethodGet then data_route ActionSecretsGet
           else if method = MethodPut then data_route ActionSecretsSet
           else if method = MethodDelete then data_route ActionSecretsDelete
           else unmapped)
        else if length seg = 2 \<and> seg ! 1 = ''backup'' \<and> method = MethodPost then
          data_route ActionSecretsBackup
        else if length seg = 2 \<and> seg ! 1 = ''versions'' \<and> method = MethodGet then
          data_route ActionSecretsReadMetadata
        else if length seg = 3 \<and> seg ! 1 = ''versions'' \<and> method = MethodGet then
          data_route ActionSecretsGet
        else unmapped)"

definition mapKeyPostOp :: "go_string \<Rightarrow> route" where
  "mapKeyPostOp op =
     (if op = ''rotate'' then data_route ActionKeysRotate
      else if op = ''backup'' then data_route ActionKeysBackup
      else if op = ''wrap'' then data_route ActionKeysWrap
      else if op = ''unwrap'' then data_route ActionKeysUnwrap
      else if op = ''sign'' then data_route ActionKeysSign
      else if op = ''verify'' then data_route ActionKeysVerify
      else if op = ''encrypt'' then data_route ActionKeysEncrypt
      else if op = ''decrypt'' then data_route ActionKeysDecrypt
      else if op = ''export'' then data_route ActionKeysExport
      else unmapped)"

definition mapKeyAction :: "go_string \<Rightarrow> go_string \<Rightarrow> route" where
  "mapKeyAction method rest =
     (if rest = '''' then
        (if method = MethodGet then data_route ActionKeysRead
         else if method = MethodPost then data_route ActionKeysCreate
         else unmapped)
      else if rest = ''restore'' then
        (if method = MethodPost then data_route ActionKeysRestore else unmapped)
      else if rest = ''import'' then
        (if method = MethodPost then data_route ActionKeysImport else unmapped)
      else
        let seg = split_on slash rest in
        if length seg = 1 then
          (if method = MethodGet then data_route ActionKeysRead
           else if method = MethodPut then data_route ActionKeysUpdate
           else if method = MethodDelete then data_route ActionKeysDelete
           else unmapped)
        else if length seg = 2 \<and> seg ! 1 = ''versions'' \<and> method = MethodGet then
          data_route ActionKeysRead
        else if length seg = 2 \<and> seg ! 1 = ''rotationpolicy'' then
          (if method = MethodGet then data_route ActionKeysRotationPolicyRead
           else if method = MethodPut \<or> method = MethodDelete then
             data_route ActionKeysRotationPolicyWrite
           else unmapped)
        else if length seg = 2 \<and> method = MethodPost then mapKeyPostOp (seg ! 1)
        else if length seg = 3 \<and> seg ! 1 = ''versions'' \<and> method = MethodGet then
          data_route ActionKeysRead
        else unmapped)"

definition mapCertificateOp :: "go_string \<Rightarrow> go_string \<Rightarrow> route" where
  "mapCertificateOp method op =
     (if op = ''policy'' then
        (if method = MethodGet then data_route ActionCertificatesRead
         else if method = MethodPut \<or> method = MethodDelete then
           data_route ActionCertificatesUpdate
         else unmapped)
      else if op = ''backup'' then
        (if method = MethodPost then data_route ActionCertificatesBackup else unmapped)
      else if op = ''versions'' then
        (if method = MethodGet then data_route ActionCertificatesRead else unmapped)
      else if op = ''renew'' then
        (if method = MethodPost then data_route ActionCertificatesCreate else unmapped)
      else if op = ''export'' then
        (if method = MethodPost then data_route ActionCertificatesExportItem else unmapped)
      else unmapped)"

definition mapCertificateAction :: "go_string \<Rightarrow> go_string \<Rightarrow> route" where
  "mapCertificateAction method rest =
     (if rest = '''' then
        (if method = MethodGet then data_route ActionCertificatesRead
         else if method = MethodPost then data_route ActionCertificatesCreate
         else unmapped)
      else if rest = ''restore'' then
        (if method = MethodPost then data_route ActionCertificatesRestore else unmapped)
      else
        let seg = split_on slash rest in
        if length seg = 1 then
          (if method = MethodGet then data_route ActionCertificatesRead
           else if method = MethodPut then data_route ActionCertificatesUpdate
           else if method = MethodDelete then data_route ActionCertificatesDelete
           else unmapped)
        else if length seg = 2 then mapCertificateOp method (seg ! 1)
        else if length seg = 3 \<and> seg ! 1 = ''versions'' then
          (if method = MethodGet then data_route ActionCertificatesRead
           else if method = MethodPut then data_route ActionCertificatesUpdate
           else unmapped)
        else unmapped)"

text \<open>The four \<open>switch seg[0]\<close> blocks of \<open>mapDeletedAction\<close> have this shape.\<close>

definition by_resource :: "go_string \<Rightarrow> data_action \<Rightarrow> data_action \<Rightarrow> data_action \<Rightarrow> route" where
  "by_resource r s k c =
     (if r = ''secrets'' then data_route s
      else if r = ''keys'' then data_route k
      else if r = ''certificates'' then data_route c
      else unmapped)"

definition mapDeletedAction :: "go_string \<Rightarrow> go_string \<Rightarrow> route" where
  "mapDeletedAction method rest =
     (let seg = split_on slash rest in
      if seg ! 0 \<noteq> ''secrets'' \<and> seg ! 0 \<noteq> ''keys'' \<and> seg ! 0 \<noteq> ''certificates'' then unmapped
      else if length seg = 1 then
        (if method = MethodGet then
           by_resource (seg ! 0) ActionSecretsReadMetadata ActionKeysRead ActionCertificatesRead
         else unmapped)
      else if length seg = 2 then
        (if method = MethodGet then
           by_resource (seg ! 0) ActionSecretsGet ActionKeysRead ActionCertificatesRead
         else unmapped)
      else if length seg = 3 then
        (if seg ! 2 = ''restore'' \<and> method = MethodPost then
           by_resource (seg ! 0) ActionSecretsRecover ActionKeysRecover ActionCertificatesRecover
         else if seg ! 2 = ''purge'' \<and> method = MethodDelete then
           by_resource (seg ! 0) ActionSecretsPurge ActionKeysPurge ActionCertificatesPurge
         else unmapped)
      else unmapped)"

text \<open>The \<open>switch\<close> at the end of \<open>MapRouteToDataAction\<close>, on the path without its vault segment.\<close>

definition mapResourcePath :: "go_string \<Rightarrow> go_string \<Rightarrow> route" where
  "mapResourcePath method p =
     (if p = ''deleted'' then (None, RouteUnmanaged)
      else if has_prefix p ''deleted/'' then mapDeletedAction method (trim_prefix p ''deleted/'')
      else if p = ''secrets'' \<or> has_prefix p ''secrets/'' then
        mapSecretAction method (trim_prefix (trim_prefix p ''secrets'') ''/'')
      else if p = ''keys'' \<or> has_prefix p ''keys/'' then
        mapKeyAction method (trim_prefix (trim_prefix p ''keys'') ''/'')
      else if p = ''certificates'' \<or> has_prefix p ''certificates/'' then
        mapCertificateAction method (trim_prefix (trim_prefix p ''certificates'') ''/'')
      else if p = ''purge'' then
        (if method = MethodDelete then data_route ActionVaultPurge else unmapped)
      else (None, RouteUnmanaged))"

definition MapRouteToDataAction :: "go_string \<Rightarrow> go_string \<Rightarrow> route" where
  "MapRouteToDataAction method path =
     (let p = normalizeAuthPath path in
      case cut_prefix p ''vaults/'' of
        Some rest \<Rightarrow>
          (let parts = split2 slash rest in
           if length parts < 2 \<or> parts ! 1 = '''' then (None, RouteUnmanaged)
           else mapResourcePath method (parts ! 1))
      | None \<Rightarrow>
          if p = ''vaults'' then (None, RouteUnmanaged)
          else mapResourcePath method p)"

section \<open>Facts about the route map\<close>

lemmas route_defs = mapSecretAction_def mapKeyAction_def mapKeyPostOp_def mapCertificateAction_def
  mapCertificateOp_def mapDeletedAction_def by_resource_def

lemma mapped_kind [simp]:
  "snd (mapSecretAction m r) = RouteVaultData"
  "snd (mapKeyAction m r) = RouteVaultData"
  "snd (mapCertificateAction m r) = RouteVaultData"
  "snd (mapDeletedAction m r) = RouteVaultData"
  by (simp_all add: route_defs Let_def)

lemma normalize_plain [str_simps]:
  assumes "p = [] \<or> hd p \<noteq> slash \<and> last p \<noteq> slash"
  shows "normalizeAuthPath (''/api/v1/'' @ p) = p"
proof -
  have "trim_prefix (''/api/v1/'' @ p) ''/api/v1'' = slash # p"
    by (simp add: trim_prefix_def)
  moreover have "trim slash (slash # p) = p"
    using trim_id [OF assms] by (simp add: trim_def)
  ultimately show ?thesis
    by (simp only: normalizeAuthPath_def DataPlaneBasePath_def)
qed

lemma route_of_vault_path:
  assumes "n \<noteq> []" "slash \<notin> set n" "p \<noteq> []" "last p \<noteq> slash"
  shows "MapRouteToDataAction m (''/api/v1/vaults/'' @ n @ slash # p) = mapResourcePath m p"
proof -
  have "normalizeAuthPath (''/api/v1/'' @ (''vaults/'' @ n @ slash # p)) = ''vaults/'' @ n @ slash # p"
    using assms by (intro normalize_plain) simp
  then have norm: "normalizeAuthPath (''/api/v1/vaults/'' @ n @ slash # p) = ''vaults/'' @ n @ slash # p"
    by simp
  show ?thesis
    unfolding MapRouteToDataAction_def Let_def norm cut_prefix_append option.case
      split2_append [OF assms(2)]
    using assms by simp
qed

lemma route_of_flat_path:
  assumes "p \<noteq> []" "hd p \<noteq> slash" "last p \<noteq> slash" "p \<noteq> ''vaults''" "\<not> has_prefix p ''vaults/''"
  shows "MapRouteToDataAction m (''/api/v1/'' @ p) = mapResourcePath m p"
  using assms normalize_plain [of p]
  by (simp only: MapRouteToDataAction_def Let_def cut_prefix_def if_False option.case) simp

lemma get_maps_read:
  "fst (mapSecretAction MethodGet r) \<in> {None, Some ActionSecretsReadMetadata, Some ActionSecretsGet}"
  "fst (mapKeyAction MethodGet r) \<in> {None, Some ActionKeysRead, Some ActionKeysRotationPolicyRead}"
  "fst (mapCertificateAction MethodGet r) \<in> {None, Some ActionCertificatesRead}"
  "fst (mapDeletedAction MethodGet r) \<in> {None, Some ActionSecretsReadMetadata, Some ActionSecretsGet,
     Some ActionKeysRead, Some ActionCertificatesRead}"
  by (simp_all add: route_defs Let_def)

lemma metadata_needs_get:
  "fst (mapSecretAction m r) = Some ActionSecretsReadMetadata \<Longrightarrow> m = MethodGet"
  "fst (mapKeyAction m r) = Some ActionKeysRead \<Longrightarrow> m = MethodGet"
  "fst (mapCertificateAction m r) = Some ActionCertificatesRead \<Longrightarrow> m = MethodGet"
  "fst (mapDeletedAction m r)
     \<in> {Some ActionSecretsReadMetadata, Some ActionKeysRead, Some ActionCertificatesRead} \<Longrightarrow> m = MethodGet"
  by (auto simp: route_defs Let_def split: if_splits)

lemma family_disjoint:
  "fst (mapSecretAction m r) \<notin> {Some ActionKeysRead, Some ActionCertificatesRead}"
  "fst (mapKeyAction m r) \<notin> {Some ActionSecretsReadMetadata, Some ActionCertificatesRead}"
  "fst (mapCertificateAction m r) \<notin> {Some ActionSecretsReadMetadata, Some ActionKeysRead}"
  by (simp_all add: route_defs Let_def)

text \<open>Every route is unmanaged or the result of one of the mappers.\<close>

lemma mapResourcePath_induct:
  assumes "P (None, RouteUnmanaged)" "\<And>r. P (mapDeletedAction m r)" "\<And>r. P (mapSecretAction m r)"
    "\<And>r. P (mapKeyAction m r)" "\<And>r. P (mapCertificateAction m r)"
    "P (if m = MethodDelete then data_route ActionVaultPurge else unmapped)"
  shows "P (mapResourcePath m p)"
  unfolding mapResourcePath_def using assms by (simp only: simp_thms if_split_asm split: if_split)

lemma MapRoute_induct:
  assumes "P (None, RouteUnmanaged)" "\<And>r. P (mapDeletedAction m r)" "\<And>r. P (mapSecretAction m r)"
    "\<And>r. P (mapKeyAction m r)" "\<And>r. P (mapCertificateAction m r)"
    "P (if m = MethodDelete then data_route ActionVaultPurge else unmapped)"
  shows "P (MapRouteToDataAction m path)"
proof -
  have "P (mapResourcePath m p)" for p
    by (rule mapResourcePath_induct [of P, OF assms])
  with assms(1) show ?thesis
    unfolding MapRouteToDataAction_def Let_def by (simp only: split: option.split if_split) simp
qed

section \<open>Properties\<close>

text \<open>Naming the vault never changes what a request needs.  For every method, every vault name and
  every resource path, the vault-scoped route maps to the same data action and kind as the flat
  route; the vault the action is checked in is the only thing the name selects.\<close>

theorem vault_name_irrelevant:
  assumes "n \<noteq> []" "slash \<notin> set n"
    and "p \<noteq> []" "hd p \<noteq> slash" "last p \<noteq> slash" "p \<noteq> ''vaults''" "\<not> has_prefix p ''vaults/''"
  shows "MapRouteToDataAction m (''/api/v1/vaults/'' @ n @ slash # p) = MapRouteToDataAction m (''/api/v1/'' @ p)"
  unfolding route_of_vault_path [OF assms(1,2,3,5)] route_of_flat_path [OF assms(3-7)] ..

lemma vault_name_irrelevant_witness:
  "MapRouteToDataAction MethodPost (''/api/v1/vaults/'' @ ''secrets'' @ slash # ''keys/4f/sign'')
     = MapRouteToDataAction MethodPost (''/api/v1/'' @ ''keys/4f/sign'')"
  by (rule vault_name_irrelevant) simp_all

text \<open>a principal whose only role is Key Vault Reader can only read metadata.  Whatever the path,
  the one action the request maps to is granted by Reader only for a GET, and it is never the
  action that reads a secret's value.\<close>

theorem reader_only_reads:
  assumes "RoleGrantsDataAction RoleKeyVaultReader (fst (MapRouteToDataAction m path))"
  shows "m = MethodGet \<and> fst (MapRouteToDataAction m path)
    \<in> {Some ActionSecretsReadMetadata, Some ActionKeysRead, Some ActionCertificatesRead}"
proof -
  have "AzureRoleDataActions RoleKeyVaultReader
      = [ActionSecretsReadMetadata, ActionKeysRead, ActionCertificatesRead]"
    by code_simp
  then have granted: "fst (MapRouteToDataAction m path)
      \<in> {Some ActionSecretsReadMetadata, Some ActionKeysRead, Some ActionCertificatesRead}"
    using assms RoleGrants_iff [of RoleKeyVaultReader]
    by (cases "fst (MapRouteToDataAction m path)") auto
  have "fst (MapRouteToDataAction m path)
      \<in> {Some ActionSecretsReadMetadata, Some ActionKeysRead, Some ActionCertificatesRead}
    \<longrightarrow> m = MethodGet"
    using metadata_needs_get [of m] family_disjoint [of m]
    by (induct rule: MapRoute_induct) auto
  with granted show ?thesis
    by blast
qed

lemma reader_only_reads_witness:
  "MethodGet = MethodGet \<and> fst (MapRouteToDataAction MethodGet ''/api/v1/secrets'')
     \<in> {Some ActionSecretsReadMetadata, Some ActionKeysRead, Some ActionCertificatesRead}"
proof (rule reader_only_reads)
  show "RoleGrantsDataAction RoleKeyVaultReader (fst (MapRouteToDataAction MethodGet ''/api/v1/secrets''))"
    by code_simp
qed

end
