(* ===== verification/Scope.thy ===== *)
theory Scope
  imports Prelude
begin

text \<open>
  The authorization scope of one resource operation (\<open>src/model/scope.go\<close>) and
  the repository helpers that turn it into a row predicate
  (\<open>src/internal/repositories/scope_predicate.go\<close>, \<open>scoped_crud.go\<close>).

  A table is the list of its rows; every scoped table has the two columns the
  predicate reads, \<open>vault_id\<close> and \<open>user_id\<close>.  A query is the part of its
  \<open>WHERE\<close> clause before the scope predicate, as a boolean function of a row;
  \<open>scan\<close> is the caller's row reader.  \<open>query_fails\<close> is the database refusing the
  statement.
\<close>

datatype scope_kind = ScopeInvalid | ScopeVault | ScopeOwner | ScopeAdmin

record scope =
  sc_kind :: scope_kind
  sc_vault :: uuid
  sc_owner :: uuid
  sc_actor :: uuid

definition zero_scope :: scope where
  "zero_scope = \<lparr>sc_kind = ScopeInvalid, sc_vault = uuid_nil, sc_owner = uuid_nil, sc_actor = uuid_nil\<rparr>"

definition NewVaultScope :: "uuid \<Rightarrow> uuid \<Rightarrow> scope" where
  "NewVaultScope vault actor = zero_scope\<lparr>sc_kind := ScopeVault, sc_vault := vault, sc_actor := actor\<rparr>"

definition NewOwnerScope :: "uuid \<Rightarrow> uuid \<Rightarrow> scope" where
  "NewOwnerScope vault owner =
     zero_scope\<lparr>sc_kind := ScopeOwner, sc_vault := vault, sc_owner := owner, sc_actor := owner\<rparr>"

definition NewAdminScope :: "uuid \<Rightarrow> scope" where
  "NewAdminScope actor = zero_scope\<lparr>sc_kind := ScopeAdmin, sc_actor := actor\<rparr>"

text \<open>The accessor \<open>OwnerID\<close>: \<open>None\<close> is its \<open>(uuid.Nil, false)\<close>.\<close>

definition OwnerID :: "scope \<Rightarrow> uuid option" where
  "OwnerID s = (if sc_kind s \<noteq> ScopeOwner then None else Some (sc_owner s))"

definition DefaultVaultID :: uuid where
  "DefaultVaultID = 0xefa1"

definition ResolvedVaultID :: "scope \<Rightarrow> uuid" where
  "ResolvedVaultID s = (if sc_vault s = uuid_nil then DefaultVaultID else sc_vault s)"

datatype scope_error = VaultScopeNeedsVault | OwnerScopeNeedsOwner | UninitialisedScope

definition Validate :: "scope \<Rightarrow> scope_error option" where
  "Validate s =
     (case sc_kind s of
        ScopeVault \<Rightarrow> if sc_vault s = uuid_nil then Some VaultScopeNeedsVault else None
      | ScopeOwner \<Rightarrow> if sc_owner s = uuid_nil then Some OwnerScopeNeedsOwner else None
      | ScopeAdmin \<Rightarrow> None
      | ScopeInvalid \<Rightarrow> Some UninitialisedScope)"

section \<open>The predicate\<close>

datatype predicate = VaultIs uuid | OwnerIs uuid | AnyRow

datatype invalid_scope = ScopeRejected scope_error | OwnerMissing | UnknownKind

definition scopePredicate :: "scope \<Rightarrow> invalid_scope + predicate" where
  "scopePredicate s =
     (case Validate s of
        Some e \<Rightarrow> Inl (ScopeRejected e)
      | None \<Rightarrow>
          (case sc_kind s of
             ScopeVault \<Rightarrow> Inr (VaultIs (sc_vault s))
           | ScopeOwner \<Rightarrow>
               (case OwnerID s of
                  None \<Rightarrow> Inl OwnerMissing
                | Some owner \<Rightarrow> Inr (OwnerIs owner))
           | ScopeAdmin \<Rightarrow> Inr AnyRow
           | ScopeInvalid \<Rightarrow> Inl UnknownKind))"

record 'a scoped_row =
  row_vault :: uuid
  row_user :: uuid
  row_data :: 'a

fun holds :: "predicate \<Rightarrow> 'a scoped_row \<Rightarrow> bool" where
  "holds (VaultIs v) r \<longleftrightarrow> row_vault r = v"
| "holds (OwnerIs u) r \<longleftrightarrow> row_user r = u"
| "holds AnyRow r \<longleftrightarrow> True"

section \<open>Scoped reads and writes\<close>

datatype 'e scoped_error = ErrInvalidScope invalid_scope | ErrNoRows | ErrQuery | ErrScan 'e

definition ScopedGet ::
  "bool \<Rightarrow> ('a scoped_row \<Rightarrow> bool) \<Rightarrow> scope \<Rightarrow> ('a scoped_row \<Rightarrow> 'e + 't)
     \<Rightarrow> 'a scoped_row list \<Rightarrow> 'e scoped_error + 't" where
  "ScopedGet query_fails query s scan rows =
     (case scopePredicate s of
        Inl e \<Rightarrow> Inl (ErrInvalidScope e)
      | Inr pred \<Rightarrow>
          if query_fails then Inl ErrQuery
          else (case filter (\<lambda>r. query r \<and> holds pred r) rows of
                  [] \<Rightarrow> Inl ErrNoRows
                | r # _ \<Rightarrow> (case scan r of Inl e \<Rightarrow> Inl (ErrScan e) | Inr v \<Rightarrow> Inr v)))"

text \<open>
  An \<open>UPDATE\<close> or a \<open>DELETE\<close> is what it makes of a row (\<open>None\<close> deletes it); the
  result is the number of affected rows, with the table it leaves.
\<close>

definition ScopedExec ::
  "bool \<Rightarrow> ('a scoped_row \<Rightarrow> bool) \<Rightarrow> ('a scoped_row \<Rightarrow> 'a scoped_row option) \<Rightarrow> scope
     \<Rightarrow> 'a scoped_row list \<Rightarrow> ('e scoped_error + nat) \<times> 'a scoped_row list" where
  "ScopedExec query_fails query effect s rows =
     (case scopePredicate s of
        Inl e \<Rightarrow> (Inl (ErrInvalidScope e), rows)
      | Inr pred \<Rightarrow>
          if query_fails then (Inl ErrQuery, rows)
          else (let hit = (\<lambda>r. query r \<and> holds pred r) in
                (Inr (length (filter hit rows)),
                 List.map_filter (\<lambda>r. if hit r then effect r else Some r) rows)))"

fun scan_rows :: "('r \<Rightarrow> 'e + 't) \<Rightarrow> 'r list \<Rightarrow> 'e + 't list" where
  "scan_rows scan [] = Inr []"
| "scan_rows scan (r # rs) =
     (case scan r of
        Inl e \<Rightarrow> Inl e
      | Inr v \<Rightarrow> (case scan_rows scan rs of Inl e \<Rightarrow> Inl e | Inr vs \<Rightarrow> Inr (v # vs)))"

text \<open>\<open>tail\<close> is the \<open>ORDER BY\<close>, \<open>LIMIT\<close> and \<open>OFFSET\<close> clause, a function of the matching rows.\<close>

definition ScopedList ::
  "bool \<Rightarrow> ('a scoped_row \<Rightarrow> bool) \<Rightarrow> scope \<Rightarrow> ('a scoped_row list \<Rightarrow> 'a scoped_row list)
     \<Rightarrow> ('a scoped_row \<Rightarrow> 'e + 't) \<Rightarrow> 'a scoped_row list \<Rightarrow> 'e scoped_error + 't list" where
  "ScopedList query_fails query s tail scan rows =
     (case scopePredicate s of
        Inl e \<Rightarrow> Inl (ErrInvalidScope e)
      | Inr pred \<Rightarrow>
          if query_fails then Inl ErrQuery
          else (case scan_rows scan (tail (filter (\<lambda>r. query r \<and> holds pred r) rows)) of
                  Inl e \<Rightarrow> Inl (ErrScan e)
                | Inr vs \<Rightarrow> Inr vs))"

section \<open>Lemmas\<close>

lemma zero_scope_rejected [guard_simps]: "scopePredicate zero_scope = Inl (ScopeRejected UninitialisedScope)"
  by (simp add: scopePredicate_def zero_scope_def Validate_def)

lemma scopePredicate_Validate: "(\<exists>p. scopePredicate s = Inr p) \<longleftrightarrow> Validate s = None"
  by (auto simp: scopePredicate_def Validate_def OwnerID_def split: scope_kind.splits)

lemma vault_scope_predicate [guard_simps]:
  "scopePredicate (NewVaultScope v a) =
     (if v = uuid_nil then Inl (ScopeRejected VaultScopeNeedsVault) else Inr (VaultIs v))"
  by (simp add: scopePredicate_def NewVaultScope_def Validate_def zero_scope_def)

lemma filter_restrict:
  assumes "filter (holds p) rows1 = filter (holds p) rows2"
  shows "filter (\<lambda>r. q r \<and> holds p r) rows1 = filter (\<lambda>r. q r \<and> holds p r) rows2"
proof -
  have "filter (\<lambda>r. q r \<and> holds p r) rows = filter q (filter (holds p) rows)" for rows
    by (induction rows) auto
  with assms show ?thesis
    by metis
qed

lemma holds_vault: "holds (VaultIs v) = (\<lambda>r. row_vault r = v)"
  by auto

lemma exec_frame:
  assumes "\<And>r r'. holds p r \<Longrightarrow> effect r = Some r' \<Longrightarrow> holds p r'"
  shows "filter (\<lambda>r. \<not> holds p r)
           (List.map_filter (\<lambda>r. if query r \<and> holds p r then effect r else Some r) rows)
         = filter (\<lambda>r. \<not> holds p r) rows"
proof (induction rows)
  case (Cons r rs)
  show ?case
  proof (cases "query r \<and> holds p r")
    case True
    then have "\<not> holds p r \<or> (\<forall>r'. effect r = Some r' \<longrightarrow> holds p r')"
      using assms by blast
    with True Cons.IH show ?thesis
      by (cases "effect r") (simp_all add: map_filter_simps)
  qed (use Cons.IH in \<open>simp add: map_filter_simps\<close>)
qed (simp add: map_filter_simps)

text \<open>C7: a query with a vault scope sees nothing outside the vault.  Two databases that agree on
  the rows of vault \<open>v\<close> give the same answer to every scoped read and list and the same
  affected-row count to every scoped write, so a row of another vault cannot be told from a
  missing one.\<close>

theorem vault_scope_noninterference:
  assumes "filter (\<lambda>r. row_vault r = v) rows1 = filter (\<lambda>r. row_vault r = v) rows2"
  shows "ScopedGet f query (NewVaultScope v a) scan rows1 = ScopedGet f query (NewVaultScope v a) scan rows2
    \<and> ScopedList f query (NewVaultScope v a) tail scan rows1
        = ScopedList f query (NewVaultScope v a) tail scan rows2
    \<and> fst (ScopedExec f query effect (NewVaultScope v a) rows1 :: (unit scoped_error + nat) \<times> _)
        = fst (ScopedExec f query effect (NewVaultScope v a) rows2)"
proof -
  have "filter (holds (VaultIs v)) rows1 = filter (holds (VaultIs v)) rows2"
    unfolding holds_vault by (rule assms)
  note same = filter_restrict [OF this, of query]
  then show ?thesis
    by (simp add: ScopedGet_def ScopedList_def ScopedExec_def guard_simps Let_def)
qed

text \<open>Applied to two tables that differ only in the rows of vault 9.\<close>

lemma vault_scope_noninterference_witness:
  "ScopedGet False (\<lambda>_. True) (NewVaultScope 7 1) (\<lambda>r. Inr (row_data r) :: nat + nat)
      [\<lparr>row_vault = 9, row_user = 1, row_data = 3\<rparr>, \<lparr>row_vault = 7, row_user = 2, row_data = 5\<rparr>]
    = ScopedGet False (\<lambda>_. True) (NewVaultScope 7 1) (\<lambda>r. Inr (row_data r))
      [\<lparr>row_vault = 7, row_user = 2, row_data = 5\<rparr>]"
  by (rule vault_scope_noninterference [where effect = Some and tail = id, THEN conjunct1]) simp

text \<open>a scoped write with a vault scope leaves every row of every other vault as it was, in
  order, when the statement does not move a row to another vault (no statement of the
  repositories sets \<open>vault_id\<close>).\<close>

theorem vault_scope_exec_frame:
  assumes "\<And>r r'. effect r = Some r' \<Longrightarrow> row_vault r' = row_vault r"
  shows "filter (\<lambda>r. row_vault r \<noteq> v) (snd (ScopedExec f query effect (NewVaultScope v a) rows :: (unit scoped_error + nat) \<times> _))
         = filter (\<lambda>r. row_vault r \<noteq> v) rows"
proof -
  have "filter (\<lambda>r. \<not> holds (VaultIs v) r)
           (List.map_filter (\<lambda>r. if query r \<and> holds (VaultIs v) r then effect r else Some r) rows)
         = filter (\<lambda>r. \<not> holds (VaultIs v) r) rows"
    by (rule exec_frame) (use assms in auto)
  then show ?thesis
    by (simp add: ScopedExec_def guard_simps Let_def)
qed

lemma vault_scope_exec_frame_witness:
  "filter (\<lambda>r. row_vault r \<noteq> 7)
     (snd (ScopedExec False (\<lambda>_. True) (\<lambda>r. Some (r\<lparr>row_data := (0::nat)\<rparr>)) (NewVaultScope 7 1)
        [\<lparr>row_vault = 9, row_user = 1, row_data = 3\<rparr>, \<lparr>row_vault = 7, row_user = 2, row_data = 5\<rparr>]
        :: (unit scoped_error + nat) \<times> nat scoped_row list))
   = filter (\<lambda>r. row_vault r \<noteq> 7)
        [\<lparr>row_vault = 9, row_user = 1, row_data = 3\<rparr>, \<lparr>row_vault = 7, row_user = 2, row_data = 5\<rparr>]"
  by (rule vault_scope_exec_frame) auto

end
