(* ===== verification/AccessPolicies.thy ===== *)
theory AccessPolicies
  imports Prelude "HOL-Library.Option_ord"
begin

text \<open>
  Access policies: the rows, their validators (\<open>src/model/access_policy.go\<close>),
  the table (\<open>src/internal/repositories/access_policy_repository.go\<close>) and the
  service that decides from them
  (\<open>src/internal/services/authorization/access_policy_service.go\<close>).

  The enumerations are Go strings, so a stored value outside the enumeration is
  a value of the model too.  A table is the list of its rows in insertion order;
  the database may refuse any statement (\<open>fails\<close> of the statement).
\<close>

section \<open>Rows and validators\<close>

type_synonym principal_type = go_string
type_synonym policy_effect = go_string
type_synonym policy_resource = go_string
type_synonym policy_operation = go_string

definition PrincipalTypeUser :: principal_type where "PrincipalTypeUser = ''user''"
definition PrincipalTypeServiceAccount :: principal_type where
  "PrincipalTypeServiceAccount = ''service_account''"

definition PolicyEffectAllow :: policy_effect where "PolicyEffectAllow = ''allow''"
definition PolicyEffectDeny :: policy_effect where "PolicyEffectDeny = ''deny''"

definition PolicyResourceSecrets :: policy_resource where "PolicyResourceSecrets = ''secrets''"
definition PolicyResourceKeys :: policy_resource where "PolicyResourceKeys = ''keys''"
definition PolicyResourceCertificates :: policy_resource where
  "PolicyResourceCertificates = ''certificates''"
definition PolicyResourceVaults :: policy_resource where "PolicyResourceVaults = ''vaults''"

definition OpGet :: policy_operation where "OpGet = ''get''"
definition OpList :: policy_operation where "OpList = ''list''"
definition OpSet :: policy_operation where "OpSet = ''set''"
definition OpCreate :: policy_operation where "OpCreate = ''create''"
definition OpDelete :: policy_operation where "OpDelete = ''delete''"
definition OpBackup :: policy_operation where "OpBackup = ''backup''"
definition OpRestore :: policy_operation where "OpRestore = ''restore''"
definition OpPurge :: policy_operation where "OpPurge = ''purge''"
definition OpRecover :: policy_operation where "OpRecover = ''recover''"
definition OpRotate :: policy_operation where "OpRotate = ''rotate''"
definition OpSign :: policy_operation where "OpSign = ''sign''"
definition OpVerify :: policy_operation where "OpVerify = ''verify''"
definition OpEncrypt :: policy_operation where "OpEncrypt = ''encrypt''"
definition OpDecrypt :: policy_operation where "OpDecrypt = ''decrypt''"
definition OpWrap :: policy_operation where "OpWrap = ''wrap''"
definition OpUnwrap :: policy_operation where "OpUnwrap = ''unwrap''"
definition OpImport :: policy_operation where "OpImport = ''import''"
definition OpRenew :: policy_operation where "OpRenew = ''renew''"
definition OpManage :: policy_operation where "OpManage = ''manage''"

lemmas policy_names = PrincipalTypeUser_def PrincipalTypeServiceAccount_def
  PolicyEffectAllow_def PolicyEffectDeny_def PolicyResourceSecrets_def PolicyResourceKeys_def
  PolicyResourceCertificates_def PolicyResourceVaults_def

lemmas operation_names = OpGet_def OpList_def OpSet_def OpCreate_def OpDelete_def OpBackup_def
  OpRestore_def OpPurge_def OpRecover_def OpRotate_def OpSign_def OpVerify_def OpEncrypt_def
  OpDecrypt_def OpWrap_def OpUnwrap_def OpImport_def OpRenew_def OpManage_def

record access_policy =
  pol_id :: uuid
  pol_principal :: uuid
  pol_principal_type :: principal_type
  pol_resource :: policy_resource
  pol_operation :: policy_operation
  pol_effect :: policy_effect
  pol_vault :: "uuid option"
  pol_assignment :: "uuid option"
  pol_created :: instant

text \<open>The validators return \<open>True\<close> for Go's nil error.\<close>

definition ValidatePrincipalType :: "go_string \<Rightarrow> bool" where
  "ValidatePrincipalType s \<longleftrightarrow> s \<in> set [PrincipalTypeUser, PrincipalTypeServiceAccount]"

definition ValidatePolicyResourceType :: "go_string \<Rightarrow> bool" where
  "ValidatePolicyResourceType s \<longleftrightarrow>
     s \<in> set [PolicyResourceSecrets, PolicyResourceKeys, PolicyResourceCertificates,
       PolicyResourceVaults]"

definition ValidatePolicyOperation :: "go_string \<Rightarrow> bool" where
  "ValidatePolicyOperation s \<longleftrightarrow>
     s \<in> set [OpGet, OpList, OpSet, OpCreate, OpDelete, OpBackup, OpRestore, OpPurge,
       OpRecover, OpRotate, OpSign, OpVerify, OpEncrypt, OpDecrypt, OpWrap, OpUnwrap,
       OpImport, OpRenew, OpManage]"

definition ValidatePolicyEffect :: "go_string \<Rightarrow> bool" where
  "ValidatePolicyEffect s \<longleftrightarrow> s \<in> set [PolicyEffectAllow, PolicyEffectDeny]"

section \<open>The table\<close>

type_synonym policy_table = "access_policy list"

datatype policy_stmt =
    PolInsert uuid | PolGet uuid | PolFind | PolList
  | PolUpdate uuid | PolDelete uuid | PolDeleteAssignment uuid

datatype policy_error = PolDbError | PolNotFound | PolDuplicateId

text \<open>\<open>ORDER BY created_at DESC\<close>.\<close>

definition newest_first :: "('a \<Rightarrow> instant) \<Rightarrow> 'a list \<Rightarrow> 'a list" where
  "newest_first created rows = sort_key (\<lambda>r. - created r) rows"

definition pol_create ::
  "(policy_stmt \<Rightarrow> bool) \<Rightarrow> instant \<Rightarrow> access_policy \<Rightarrow> policy_table
     \<Rightarrow> policy_error option \<times> policy_table" where
  "pol_create fails now p tbl =
     (let p = (if pol_created p = 0 then p\<lparr>pol_created := now\<rparr> else p) in
      if fails (PolInsert (pol_id p)) then (Some PolDbError, tbl)
      else if pol_id p \<in> pol_id ` set tbl then (Some PolDuplicateId, tbl)
      else (None, tbl @ [p]))"

definition pol_get :: "(policy_stmt \<Rightarrow> bool) \<Rightarrow> uuid \<Rightarrow> policy_table \<Rightarrow> policy_error + access_policy" where
  "pol_get fails i tbl =
     (if fails (PolGet i) then Inl PolDbError
      else case filter (\<lambda>p. pol_id p = i) tbl of
             [] \<Rightarrow> Inl PolNotFound
           | p # _ \<Rightarrow> Inr p)"

definition pol_list :: "(policy_stmt \<Rightarrow> bool) \<Rightarrow> policy_table \<Rightarrow> policy_error + access_policy list" where
  "pol_list fails tbl = (if fails PolList then Inl PolDbError else Inr (newest_first pol_created tbl))"

definition pol_list_by_principal ::
  "(policy_stmt \<Rightarrow> bool) \<Rightarrow> uuid \<Rightarrow> policy_table \<Rightarrow> policy_error + access_policy list" where
  "pol_list_by_principal fails prin tbl =
     (if fails PolList then Inl PolDbError
      else Inr (newest_first pol_created (filter (\<lambda>p. pol_principal p = prin) tbl)))"

definition pol_list_by_vault ::
  "(policy_stmt \<Rightarrow> bool) \<Rightarrow> uuid \<Rightarrow> policy_table \<Rightarrow> policy_error + access_policy list" where
  "pol_list_by_vault fails v tbl =
     (if fails PolList then Inl PolDbError
      else Inr (newest_first pol_created (filter (\<lambda>p. pol_vault p = Some v) tbl)))"

definition applies :: "uuid \<Rightarrow> policy_resource \<Rightarrow> policy_operation \<Rightarrow> uuid \<Rightarrow> access_policy \<Rightarrow> bool" where
  "applies prin res op v p \<longleftrightarrow>
     pol_principal p = prin \<and> pol_resource p = res \<and> pol_operation p = op
     \<and> (pol_vault p = Some v \<or> pol_vault p = None)"

definition FindEffects ::
  "(policy_stmt \<Rightarrow> bool) \<Rightarrow> uuid \<Rightarrow> policy_resource \<Rightarrow> policy_operation \<Rightarrow> uuid \<Rightarrow> policy_table
     \<Rightarrow> policy_error + access_policy list" where
  "FindEffects fails prin res op v tbl =
     (if fails PolFind then Inl PolDbError else Inr (filter (applies prin res op v) tbl))"

definition pol_update ::
  "(policy_stmt \<Rightarrow> bool) \<Rightarrow> access_policy \<Rightarrow> policy_table \<Rightarrow> policy_error option \<times> policy_table" where
  "pol_update fails p tbl =
     (if fails (PolUpdate (pol_id p)) then (Some PolDbError, tbl)
      else (None, map (\<lambda>r. if pol_id r = pol_id p
             then r\<lparr>pol_principal_type := pol_principal_type p, pol_resource := pol_resource p,
                    pol_operation := pol_operation p, pol_effect := pol_effect p,
                    pol_vault := pol_vault p\<rparr>
             else r) tbl))"

definition pol_delete ::
  "(policy_stmt \<Rightarrow> bool) \<Rightarrow> uuid \<Rightarrow> policy_table \<Rightarrow> policy_error option \<times> policy_table" where
  "pol_delete fails i tbl =
     (if fails (PolDelete i) then (Some PolDbError, tbl)
      else (None, filter (\<lambda>p. pol_id p \<noteq> i) tbl))"

definition DeleteByAssignmentID ::
  "(policy_stmt \<Rightarrow> bool) \<Rightarrow> uuid \<Rightarrow> policy_table \<Rightarrow> policy_error option \<times> policy_table" where
  "DeleteByAssignmentID fails a tbl =
     (if fails (PolDeleteAssignment a) then (Some PolDbError, tbl)
      else (None, filter (\<lambda>p. pol_assignment p \<noteq> Some a) tbl))"

definition pol_delete_by_vault :: "bool \<Rightarrow> uuid \<Rightarrow> policy_table \<Rightarrow> policy_error option \<times> policy_table" where
  "pol_delete_by_vault failed v tbl =
     (if failed then (Some PolDbError, tbl)
      else (None, filter (\<lambda>p. pol_vault p \<noteq> Some v) tbl))"

definition ListVaultIDsForPrincipal ::
  "(policy_stmt \<Rightarrow> bool) \<Rightarrow> uuid \<Rightarrow> policy_table \<Rightarrow> policy_error + uuid list" where
  "ListVaultIDsForPrincipal fails prin tbl =
     (if fails PolList then Inl PolDbError
      else Inr (remdups (List.map_filter pol_vault
             (filter (\<lambda>p. pol_principal p = prin \<and> pol_resource p = PolicyResourceVaults
                \<and> pol_operation p = OpManage \<and> pol_effect p = PolicyEffectAllow) tbl))))"

section \<open>Decisions\<close>

datatype access_decision = AccessAllowed | AccessDenied | AccessFallback

definition CheckAccess ::
  "(policy_stmt \<Rightarrow> bool) \<Rightarrow> uuid \<Rightarrow> policy_resource \<Rightarrow> policy_operation \<Rightarrow> uuid \<Rightarrow> policy_table
     \<Rightarrow> policy_error + access_decision" where
  "CheckAccess fails prin res op v tbl =
     (case FindEffects fails prin res op v tbl of
        Inl e \<Rightarrow> Inl e
      | Inr ps \<Rightarrow>
          if ps = [] then Inr AccessFallback
          else if list_ex (\<lambda>p. pol_effect p = PolicyEffectDeny) ps then Inr AccessDenied
          else Inr AccessAllowed)"

text \<open>The loop of \<open>CheckVaultScopedAccess\<close>, with its flag \<open>scopedAllow\<close>.\<close>

fun scoped_loop :: "uuid \<Rightarrow> bool \<Rightarrow> access_policy list \<Rightarrow> access_decision" where
  "scoped_loop v allow [] = (if allow then AccessAllowed else AccessFallback)"
| "scoped_loop v allow (p # ps) =
     (if pol_effect p = PolicyEffectDeny then AccessDenied
      else scoped_loop v (if pol_vault p \<noteq> None \<and> pol_vault p = Some v then True else allow) ps)"

definition CheckVaultScopedAccess ::
  "(policy_stmt \<Rightarrow> bool) \<Rightarrow> uuid \<Rightarrow> policy_resource \<Rightarrow> policy_operation \<Rightarrow> uuid \<Rightarrow> policy_table
     \<Rightarrow> policy_error + access_decision" where
  "CheckVaultScopedAccess fails prin res op v tbl =
     (case FindEffects fails prin res op v tbl of
        Inl e \<Rightarrow> Inl e
      | Inr ps \<Rightarrow> Inr (scoped_loop v False ps))"

section \<open>Changing policies\<close>

text \<open>One audit row per change, with what it names; the service may have no logger.\<close>

datatype policy_audit =
    AuditPolicyCreated uuid access_policy
  | AuditPolicyUpdated uuid "policy_effect option" access_policy
  | AuditPolicyDeleted uuid uuid "access_policy option"

record policy_state =
  ps_table :: policy_table
  ps_audit :: "policy_audit list"

definition audit_policy :: "bool \<Rightarrow> policy_audit \<Rightarrow> policy_state \<Rightarrow> policy_state" where
  "audit_policy has_log a st = (if has_log then st\<lparr>ps_audit := ps_audit st @ [a]\<rparr> else st)"

definition CreatePolicy ::
  "bool \<Rightarrow> (policy_stmt \<Rightarrow> bool) \<Rightarrow> uuid \<Rightarrow> instant \<Rightarrow> access_policy \<Rightarrow> uuid \<Rightarrow> policy_state
     \<Rightarrow> policy_error option \<times> policy_state" where
  "CreatePolicy has_log fails fresh now p actor st =
     (let p = (if pol_id p = uuid_nil then p\<lparr>pol_id := fresh\<rparr> else p);
          p = (if pol_created p = 0 then p\<lparr>pol_created := now\<rparr> else p) in
      case pol_create fails now p (ps_table st) of
        (Some e, _) \<Rightarrow> (Some e, st)
      | (None, tbl) \<Rightarrow>
          (None, audit_policy has_log (AuditPolicyCreated actor p) (st\<lparr>ps_table := tbl\<rparr>)))"

definition UpdatePolicy ::
  "bool \<Rightarrow> (policy_stmt \<Rightarrow> bool) \<Rightarrow> access_policy \<Rightarrow> uuid \<Rightarrow> policy_state
     \<Rightarrow> policy_error option \<times> policy_state" where
  "UpdatePolicy has_log fails p actor st =
     (let previous = (case pol_get fails (pol_id p) (ps_table st) of
                        Inr old \<Rightarrow> Some (pol_effect old) | Inl _ \<Rightarrow> None) in
      case pol_update fails p (ps_table st) of
        (Some e, _) \<Rightarrow> (Some e, st)
      | (None, tbl) \<Rightarrow>
          (None, audit_policy has_log (AuditPolicyUpdated actor previous p) (st\<lparr>ps_table := tbl\<rparr>)))"

definition DeletePolicy ::
  "bool \<Rightarrow> (policy_stmt \<Rightarrow> bool) \<Rightarrow> uuid \<Rightarrow> uuid \<Rightarrow> policy_state
     \<Rightarrow> policy_error option \<times> policy_state" where
  "DeletePolicy has_log fails i actor st =
     (let detail = (case pol_get fails i (ps_table st) of Inr old \<Rightarrow> Some old | Inl _ \<Rightarrow> None) in
      case pol_delete fails i (ps_table st) of
        (Some e, _) \<Rightarrow> (Some e, st)
      | (None, tbl) \<Rightarrow>
          (None, audit_policy has_log (AuditPolicyDeleted actor i detail) (st\<lparr>ps_table := tbl\<rparr>)))"

section \<open>Lemmas\<close>

definition denied :: "uuid \<Rightarrow> policy_resource \<Rightarrow> policy_operation \<Rightarrow> uuid \<Rightarrow> policy_table \<Rightarrow> bool" where
  "denied prin res op v tbl \<longleftrightarrow>
     list_ex (\<lambda>p. applies prin res op v p \<and> pol_effect p = PolicyEffectDeny) tbl"

lemma list_ex_filter_conj: "list_ex P (filter Q xs) = list_ex (\<lambda>x. Q x \<and> P x) xs"
  by (induction xs) auto

lemma CheckAccess_denied_iff [guard_simps]:
  "CheckAccess fails pr res op v tbl = Inr AccessDenied
     \<longleftrightarrow> \<not> fails PolFind \<and> denied pr res op v tbl"
  by (auto simp: CheckAccess_def FindEffects_def denied_def list_ex_filter_conj [symmetric])

lemma CheckAccess_error_iff [guard_simps]:
  "CheckAccess fails pr res op v tbl = Inl e \<longleftrightarrow> fails PolFind \<and> e = PolDbError"
  by (auto simp: CheckAccess_def FindEffects_def)

lemma scoped_loop_eq:
  "scoped_loop v b ps =
     (if list_ex (\<lambda>p. pol_effect p = PolicyEffectDeny) ps then AccessDenied
      else if b \<or> list_ex (\<lambda>p. pol_vault p = Some v) ps then AccessAllowed
      else AccessFallback)"
  by (induction ps arbitrary: b) auto

lemma CheckVaultScoped_eq:
  "CheckVaultScopedAccess fails pr res op v tbl =
     (if fails PolFind then Inl PolDbError
      else if denied pr res op v tbl then Inr AccessDenied
      else if list_ex (\<lambda>p. applies pr res op v p \<and> pol_vault p = Some v) tbl then Inr AccessAllowed
      else Inr AccessFallback)"
  by (auto simp: CheckVaultScopedAccess_def FindEffects_def scoped_loop_eq denied_def
      list_ex_filter_conj)

lemma CheckAccess_eq:
  "CheckAccess fails pr res op v tbl =
     (if fails PolFind then Inl PolDbError
      else if denied pr res op v tbl then Inr AccessDenied
      else if list_ex (applies pr res op v) tbl then Inr AccessAllowed
      else Inr AccessFallback)"
  by (auto simp: CheckAccess_def FindEffects_def denied_def list_ex_filter_conj
      filter_empty_conv list_ex_iff)

end
