(* ===== verification/CriticalAudit.thy ===== *)
theory CriticalAudit
  imports Prelude
begin

text \<open>
  Critical operations (\<open>src/internal/services/audit/critical.go\<close>): an attempt row
  is written before the operation runs, and the operation is refused when that
  write fails; the result row afterwards is best effort.  The operation is a
  function of the state it changes, \<open>put\<close> appends one row with an outcome.
\<close>

datatype audit_outcome = OutcomeAttempt | OutcomeSuccess | OutcomeFailure

datatype 'e critical_error = ErrAuditUnavailable | OpError 'e

definition RecordAttempt ::
  "bool \<Rightarrow> (audit_outcome \<Rightarrow> 's \<Rightarrow> 's) \<Rightarrow> 's \<Rightarrow> 'e critical_error option \<times> 's" where
  "RecordAttempt attempt_fails put st =
     (if attempt_fails then (Some ErrAuditUnavailable, st) else (None, put OutcomeAttempt st))"

definition WithCritical ::
  "bool \<Rightarrow> bool \<Rightarrow> (audit_outcome \<Rightarrow> 's \<Rightarrow> 's) \<Rightarrow> ('s \<Rightarrow> 'e option \<times> 's) \<Rightarrow> 's
     \<Rightarrow> 'e critical_error option \<times> 's" where
  "WithCritical attempt_fails result_fails put op st =
     (case RecordAttempt attempt_fails put st of
        (Some e, st') \<Rightarrow> (Some e, st')
      | (None, st1) \<Rightarrow>
          (case op st1 of
             (r, st2) \<Rightarrow>
               (let outcome = (if r = None then OutcomeSuccess else OutcomeFailure) in
                (map_option OpError r, if result_fails then st2 else put outcome st2))))"

lemma WithCritical_refused [guard_simps]:
  "WithCritical True rf put op st = (Some ErrAuditUnavailable, st)"
  by (simp add: WithCritical_def RecordAttempt_def)

lemma WithCritical_ran:
  assumes "op (put OutcomeAttempt st) = (r, st2)"
  shows "WithCritical False rf put op st =
    (map_option OpError r,
     if rf then st2 else put (if r = None then OutcomeSuccess else OutcomeFailure) st2)"
  using assms by (simp add: WithCritical_def RecordAttempt_def Let_def)

text \<open>What an audit write does not touch (\<open>view\<close>) changes only as the operation changes it.\<close>

lemma WithCritical_view:
  assumes "\<And>out st. view (put out st) = view st"
  shows "view (snd (WithCritical af rf put op st))
    = (if af then view st else view (snd (op (put OutcomeAttempt st))))"
  using assms by (auto simp: WithCritical_def RecordAttempt_def Let_def split: prod.split)

lemma WithCritical_None_iff:
  "fst (WithCritical af rf put op st) = None
     \<longleftrightarrow> \<not> af \<and> fst (op (put OutcomeAttempt st)) = None"
  by (auto simp: WithCritical_def RecordAttempt_def Let_def split: prod.split)

text \<open>Either the attempt is refused, or the operation runs after it and at most one row follows.\<close>

lemma WithCritical_cases:
  assumes "WithCritical af rf put op st = (r, st')"
  shows "(af \<and> r = Some ErrAuditUnavailable \<and> st' = st)
    \<or> (\<not> af \<and> (\<exists>r2 s2. op (put OutcomeAttempt st) = (r2, s2) \<and> r = map_option OpError r2
        \<and> (st' = s2 \<or> (\<exists>out. st' = put out s2))))"
  using assms by (auto simp: WithCritical_def RecordAttempt_def Let_def split: prod.splits if_splits)

end
