(* ===== verification/RoleAssignments.thy ===== *)
theory RoleAssignments
  imports AzureRoles AccessPolicies CriticalAudit
begin

text \<open>
  Role assignments: the built-in role names and their legacy bundles
  (\<open>src/internal/services/authorization/roles.go\<close>), the table
  (\<open>src/internal/repositories/role_assignment_repository.go\<close>) and the service that
  grants, revokes and evaluates them
  (\<open>src/internal/services/authorization/role_assignment_service.go\<close>).

  \<open>uuid.Parse\<close> and the user table are parameters (\<open>parse\<close>, \<open>users\<close>), so are fresh
  identifiers and the clock.  \<open>fails\<close> says which statement the database refuses.
\<close>

section \<open>Roles\<close>

type_synonym permission = "policy_resource \<times> policy_operation"

definition builtInRoles :: "(go_string \<times> permission list) list" where
  "builtInRoles =
   [(''vault-reader'',
      [(PolicyResourceSecrets, OpGet), (PolicyResourceSecrets, OpList),
       (PolicyResourceKeys, OpGet), (PolicyResourceKeys, OpList),
       (PolicyResourceCertificates, OpGet), (PolicyResourceCertificates, OpList)]),
    (''secrets-user'',
      [(PolicyResourceSecrets, OpGet), (PolicyResourceSecrets, OpList)]),
    (''secrets-officer'',
      [(PolicyResourceSecrets, OpGet), (PolicyResourceSecrets, OpList),
       (PolicyResourceSecrets, OpSet), (PolicyResourceSecrets, OpDelete),
       (PolicyResourceSecrets, OpBackup), (PolicyResourceSecrets, OpRestore),
       (PolicyResourceSecrets, OpRecover), (PolicyResourceSecrets, OpPurge)]),
    (''crypto-user'',
      [(PolicyResourceKeys, OpGet), (PolicyResourceKeys, OpList),
       (PolicyResourceKeys, OpSign), (PolicyResourceKeys, OpVerify),
       (PolicyResourceKeys, OpEncrypt), (PolicyResourceKeys, OpDecrypt)]),
    (''crypto-officer'',
      [(PolicyResourceKeys, OpGet), (PolicyResourceKeys, OpList),
       (PolicyResourceKeys, OpCreate), (PolicyResourceKeys, OpDelete),
       (PolicyResourceKeys, OpRotate), (PolicyResourceKeys, OpBackup),
       (PolicyResourceKeys, OpRestore), (PolicyResourceKeys, OpRecover),
       (PolicyResourceKeys, OpPurge), (PolicyResourceKeys, OpImport)]),
    (''certificates-officer'',
      [(PolicyResourceCertificates, OpGet), (PolicyResourceCertificates, OpList),
       (PolicyResourceCertificates, OpCreate), (PolicyResourceCertificates, OpDelete),
       (PolicyResourceCertificates, OpRenew), (PolicyResourceCertificates, OpBackup),
       (PolicyResourceCertificates, OpRestore), (PolicyResourceCertificates, OpRecover),
       (PolicyResourceCertificates, OpPurge)])]"

definition vaultAdminExtra :: permission where
  "vaultAdminExtra = (PolicyResourceVaults, OpManage)"

definition legacyRoleNames :: "go_string list" where
  "legacyRoleNames = [''vault-admin'', ''vault-reader'', ''secrets-user'', ''secrets-officer'',
     ''crypto-user'', ''crypto-officer'', ''certificates-officer'']"

definition IsLegacyRole :: "go_string \<Rightarrow> bool" where
  "IsLegacyRole name \<longleftrightarrow> name \<in> set legacyRoleNames"

definition IsValidRole :: "go_string \<Rightarrow> bool" where
  "IsValidRole name \<longleftrightarrow>
     (if name = ''vault-admin'' \<or> IsAzureRole name then True
      else map_of builtInRoles name \<noteq> None)"

definition BuiltInRoleNames :: "go_string list" where
  "BuiltInRoleNames = sort (map fst builtInRoles @ [''vault-admin''] @ AzureRoleNames)"

text \<open>
  The loop with the \<open>seen\<close> set keeps the first occurrence of a permission.  Go
  visits the map in an unspecified order; the model visits it in source order.
\<close>

fun first_seen :: "permission list \<Rightarrow> permission list \<Rightarrow> permission list" where
  "first_seen seen [] = []"
| "first_seen seen (p # ps) =
     (if p \<in> set seen then first_seen seen ps else p # first_seen (p # seen) ps)"

definition role_bundle :: "go_string \<Rightarrow> permission list option" where
  "role_bundle role =
     (if role = ''vault-admin'' then
        Some (first_seen [] (concat (map snd builtInRoles)) @ [vaultAdminExtra])
      else map_of builtInRoles role)"

definition RolePermissions :: "go_string \<Rightarrow> permission list option" where
  "RolePermissions role = (if IsAzureRole role then Some [] else role_bundle role)"

definition ExpandRole ::
  "(nat \<Rightarrow> uuid) \<Rightarrow> instant \<Rightarrow> go_string \<Rightarrow> uuid \<Rightarrow> principal_type \<Rightarrow> uuid \<Rightarrow> uuid
     \<Rightarrow> access_policy list option" where
  "ExpandRole fresh now role prin ptype v assignment =
     (if IsAzureRole role then Some []
      else case role_bundle role of
        None \<Rightarrow> None
      | Some perms \<Rightarrow>
          Some (map (\<lambda>(i, (res, op)).
            \<lparr>pol_id = fresh i, pol_principal = prin, pol_principal_type = ptype,
             pol_resource = res, pol_operation = op, pol_effect = PolicyEffectAllow,
             pol_vault = Some v, pol_assignment = Some assignment, pol_created = now\<rparr>)
            (List.enumerate 0 perms)))"

section \<open>The table\<close>

record role_assignment =
  ra_id :: uuid
  ra_principal :: uuid
  ra_principal_type :: principal_type
  ra_role :: go_string
  ra_vault :: uuid
  ra_created_by :: uuid
  ra_created :: instant

type_synonym role_table = "role_assignment list"

datatype authz_stmt =
    RoleInsert | RoleGet | RoleFind | RoleList | RoleDelete uuid
  | PolStmt policy_stmt | AttemptRow | ResultRow

datatype role_error = RoleDbError | RoleNotFound | RoleDuplicate

definition ra_key :: "role_assignment \<Rightarrow> uuid \<times> go_string \<times> uuid" where
  "ra_key ra = (ra_principal ra, ra_role ra, ra_vault ra)"

definition role_create ::
  "(authz_stmt \<Rightarrow> bool) \<Rightarrow> instant \<Rightarrow> role_assignment \<Rightarrow> role_table
     \<Rightarrow> role_error option \<times> role_table" where
  "role_create fails now ra tbl =
     (let ra = (if ra_created ra = 0 then ra\<lparr>ra_created := now\<rparr> else ra) in
      if fails RoleInsert then (Some RoleDbError, tbl)
      else if ra_id ra \<in> ra_id ` set tbl \<or> ra_key ra \<in> ra_key ` set tbl
        then (Some RoleDuplicate, tbl)
      else (None, tbl @ [ra]))"

definition role_get :: "(authz_stmt \<Rightarrow> bool) \<Rightarrow> uuid \<Rightarrow> role_table \<Rightarrow> role_error + role_assignment" where
  "role_get fails i tbl =
     (if fails RoleGet then Inl RoleDbError
      else case filter (\<lambda>ra. ra_id ra = i) tbl of [] \<Rightarrow> Inl RoleNotFound | ra # _ \<Rightarrow> Inr ra)"

definition ListByVault :: "(authz_stmt \<Rightarrow> bool) \<Rightarrow> uuid \<Rightarrow> role_table \<Rightarrow> role_error + role_assignment list" where
  "ListByVault fails v tbl =
     (if fails RoleList then Inl RoleDbError
      else Inr (newest_first ra_created (filter (\<lambda>ra. ra_vault ra = v) tbl)))"

definition ListByPrincipalInVault ::
  "(authz_stmt \<Rightarrow> bool) \<Rightarrow> uuid \<Rightarrow> uuid \<Rightarrow> role_table \<Rightarrow> role_error + role_assignment list" where
  "ListByPrincipalInVault fails prin v tbl =
     (if fails RoleList then Inl RoleDbError
      else Inr (filter (\<lambda>ra. ra_principal ra = prin \<and> ra_vault ra = v) tbl))"

definition FindByTuple ::
  "(authz_stmt \<Rightarrow> bool) \<Rightarrow> uuid \<Rightarrow> go_string \<Rightarrow> uuid \<Rightarrow> role_table
     \<Rightarrow> role_error + role_assignment option" where
  "FindByTuple fails prin role v tbl =
     (if fails RoleFind then Inl RoleDbError
      else case filter (\<lambda>ra. ra_key ra = (prin, role, v)) tbl of
             [] \<Rightarrow> Inr None | ra # _ \<Rightarrow> Inr (Some ra))"

definition role_delete :: "(authz_stmt \<Rightarrow> bool) \<Rightarrow> uuid \<Rightarrow> role_table \<Rightarrow> role_error option \<times> role_table" where
  "role_delete fails i tbl =
     (if fails (RoleDelete i) then (Some RoleDbError, tbl)
      else (None, filter (\<lambda>ra. ra_id ra \<noteq> i) tbl))"

definition role_delete_by_vault :: "bool \<Rightarrow> uuid \<Rightarrow> role_table \<Rightarrow> role_error option \<times> role_table" where
  "role_delete_by_vault failed v tbl =
     (if failed then (Some RoleDbError, tbl)
      else (None, filter (\<lambda>ra. ra_vault ra \<noteq> v) tbl))"

section \<open>The service\<close>

definition nonAdminGrantableRoles :: "go_string list" where
  "nonAdminGrantableRoles =
     [RoleKeyVaultAdministrator, RoleKeyVaultReader, RoleKeyVaultSecretsUser,
      RoleKeyVaultSecretsOfficer, RoleKeyVaultCryptoUser, RoleKeyVaultCryptoOfficer,
      RoleKeyVaultCertificatesOfficer, RoleKeyVaultCryptoServiceEncryptionUser]"

record assign_role_input =
  in_principal :: go_string
  in_principal_type :: principal_type
  in_role :: go_string
  in_vault :: uuid
  in_created_by :: uuid
  in_global_admin :: bool

record role_audit_row =
  rar_outcome :: audit_outcome
  rar_actor :: "uuid option"
  rar_action :: go_string
  rar_subject :: role_assignment

record authz_state =
  az_roles :: role_table
  az_policies :: policy_table
  az_audit :: "role_audit_row list"

datatype assign_error =
    ErrInvalidRole | ErrRoleNotGrantable | ErrPrincipalNotFound | ErrAssignmentNotFound
  | ErrFind role_error | ErrCreateAssignment role_error | ErrExpandRole
  | ErrExpandPolicies policy_error | ErrDeletePolicies policy_error
  | ErrDeleteAssignment role_error

text \<open>The model's environment: the parameters of a call.\<close>

record authz_env =
  ae_parse :: "go_string \<Rightarrow> uuid option"
  ae_users :: "go_string \<Rightarrow> uuid option"
  ae_fresh :: "nat \<Rightarrow> uuid"
  ae_now :: instant
  ae_fails :: "authz_stmt \<Rightarrow> bool"

definition resolvePrincipal :: "authz_env \<Rightarrow> go_string \<Rightarrow> uuid option" where
  "resolvePrincipal env s = (case ae_parse env s of Some i \<Rightarrow> Some i | None \<Rightarrow> ae_users env s)"

definition audit_role :: "uuid \<Rightarrow> go_string \<Rightarrow> role_assignment \<Rightarrow> audit_outcome \<Rightarrow> authz_state \<Rightarrow> authz_state" where
  "audit_role actor action ra outcome st =
     st\<lparr>az_audit := az_audit st @
        [\<lparr>rar_outcome = outcome, rar_actor = (if actor = uuid_nil then None else Some actor),
          rar_action = action, rar_subject = ra\<rparr>]\<rparr>"

definition runCritical ::
  "authz_env \<Rightarrow> uuid \<Rightarrow> go_string \<Rightarrow> role_assignment
     \<Rightarrow> (authz_state \<Rightarrow> assign_error option \<times> authz_state) \<Rightarrow> authz_state
     \<Rightarrow> assign_error critical_error option \<times> authz_state" where
  "runCritical env actor action ra op st =
     WithCritical (ae_fails env AttemptRow) (ae_fails env ResultRow) (audit_role actor action ra) op st"

definition drop_assignment :: "authz_env \<Rightarrow> uuid \<Rightarrow> authz_state \<Rightarrow> authz_state" where
  "drop_assignment env i st = st\<lparr>az_roles := snd (role_delete (ae_fails env) i (az_roles st))\<rparr>"

definition drop_policies :: "authz_env \<Rightarrow> uuid \<Rightarrow> authz_state \<Rightarrow> authz_state" where
  "drop_policies env i st =
     st\<lparr>az_policies := snd (DeleteByAssignmentID (ae_fails env \<circ> PolStmt) i (az_policies st))\<rparr>"

fun create_policies ::
  "authz_env \<Rightarrow> uuid \<Rightarrow> access_policy list \<Rightarrow> authz_state \<Rightarrow> assign_error option \<times> authz_state" where
  "create_policies env i [] st = (None, st)"
| "create_policies env i (p # ps) st =
     (case pol_create (ae_fails env \<circ> PolStmt) (ae_now env) p (az_policies st) of
        (Some e, _) \<Rightarrow> (Some (ErrExpandPolicies e), drop_assignment env i (drop_policies env i st))
      | (None, tbl) \<Rightarrow> create_policies env i ps (st\<lparr>az_policies := tbl\<rparr>))"

definition createAssignment ::
  "authz_env \<Rightarrow> role_assignment \<Rightarrow> authz_state \<Rightarrow> assign_error option \<times> authz_state" where
  "createAssignment env ra st =
     (case role_create (ae_fails env) (ae_now env) ra (az_roles st) of
        (Some e, _) \<Rightarrow> (Some (ErrCreateAssignment e), st)
      | (None, tbl) \<Rightarrow>
          (let st = st\<lparr>az_roles := tbl\<rparr> in
           case ExpandRole (\<lambda>i. ae_fresh env (Suc i)) (ae_now env) (ra_role ra) (ra_principal ra)
                  (ra_principal_type ra) (ra_vault ra) (ra_id ra) of
             None \<Rightarrow> (Some ErrExpandRole, drop_assignment env (ra_id ra) st)
           | Some ps \<Rightarrow> create_policies env (ra_id ra) ps st))"

definition new_assignment :: "authz_env \<Rightarrow> assign_role_input \<Rightarrow> uuid \<Rightarrow> role_assignment" where
  "new_assignment env i prin =
     \<lparr>ra_id = ae_fresh env 0, ra_principal = prin,
      ra_principal_type =
        (if in_principal_type i = [] then PrincipalTypeUser else in_principal_type i),
      ra_role = in_role i, ra_vault = in_vault i, ra_created_by = in_created_by i,
      ra_created = 0\<rparr>"

definition AssignRole ::
  "authz_env \<Rightarrow> assign_role_input \<Rightarrow> authz_state
     \<Rightarrow> (assign_error critical_error + role_assignment) \<times> authz_state" where
  "AssignRole env i st =
     (if \<not> IsValidRole (in_role i) then (Inl (OpError ErrInvalidRole), st)
      else if IsLegacyRole (in_role i) then (Inl (OpError ErrInvalidRole), st)
      else if \<not> in_global_admin i \<and> in_role i \<notin> set nonAdminGrantableRoles
        then (Inl (OpError ErrRoleNotGrantable), st)
      else case resolvePrincipal env (in_principal i) of
        None \<Rightarrow> (Inl (OpError ErrPrincipalNotFound), st)
      | Some prin \<Rightarrow>
          (case FindByTuple (ae_fails env) prin (in_role i) (in_vault i) (az_roles st) of
             Inl e \<Rightarrow> (Inl (OpError (ErrFind e)), st)
           | Inr (Some existing) \<Rightarrow> (Inr existing, st)
           | Inr None \<Rightarrow>
               (let ra = new_assignment env i prin in
                case runCritical env (in_created_by i) ''assign_role'' ra
                       (createAssignment env ra) st of
                  (Some e, st') \<Rightarrow> (Inl e, st')
                | (None, st') \<Rightarrow> (Inr (ra\<lparr>ra_created := ae_now env\<rparr>), st'))))"

definition revoke_op :: "authz_env \<Rightarrow> uuid \<Rightarrow> authz_state \<Rightarrow> assign_error option \<times> authz_state" where
  "revoke_op env i st =
     (case DeleteByAssignmentID (ae_fails env \<circ> PolStmt) i (az_policies st) of
        (Some e, _) \<Rightarrow> (Some (ErrDeletePolicies e), st)
      | (None, ptbl) \<Rightarrow>
          (let st = st\<lparr>az_policies := ptbl\<rparr> in
           case role_delete (ae_fails env) i (az_roles st) of
             (Some e, _) \<Rightarrow> (Some (ErrDeleteAssignment e), st)
           | (None, rtbl) \<Rightarrow> (None, st\<lparr>az_roles := rtbl\<rparr>)))"

definition RevokeAssignment ::
  "authz_env \<Rightarrow> uuid \<Rightarrow> uuid \<Rightarrow> uuid \<Rightarrow> bool \<Rightarrow> authz_state
     \<Rightarrow> assign_error critical_error option \<times> authz_state" where
  "RevokeAssignment env i v actor is_admin st =
     (case role_get (ae_fails env) i (az_roles st) of
        Inl _ \<Rightarrow> (Some (OpError ErrAssignmentNotFound), st)
      | Inr ra \<Rightarrow>
          if ra_vault ra \<noteq> v then (Some (OpError ErrAssignmentNotFound), st)
          else if \<not> is_admin \<and> ra_role ra \<notin> set nonAdminGrantableRoles
            then (Some (OpError ErrRoleNotGrantable), st)
          else runCritical env actor ''revoke_role_assignment'' ra (revoke_op env i) st)"

definition ListAssignments :: "authz_env \<Rightarrow> uuid \<Rightarrow> authz_state \<Rightarrow> role_error + role_assignment list" where
  "ListAssignments env v st = ListByVault (ae_fails env) v (az_roles st)"

fun any_grants :: "role_assignment list \<Rightarrow> data_action option \<Rightarrow> bool" where
  "any_grants [] action = False"
| "any_grants (ra # ras) action =
     (if RoleGrantsDataAction (ra_role ra) action then True else any_grants ras action)"

definition HasDataAction ::
  "authz_env \<Rightarrow> uuid \<Rightarrow> uuid \<Rightarrow> data_action option \<Rightarrow> authz_state \<Rightarrow> role_error + bool" where
  "HasDataAction env prin v action st =
     (if prin = uuid_nil \<or> v = uuid_nil \<or> action = None then Inr False
      else case ListByPrincipalInVault (ae_fails env) prin v (az_roles st) of
             Inl e \<Rightarrow> Inl e
           | Inr ras \<Rightarrow> Inr (any_grants ras action))"

section \<open>Lemmas\<close>

lemma any_grants_iff: "any_grants ras a \<longleftrightarrow> (\<exists>ra\<in>set ras. RoleGrantsDataAction (ra_role ra) a)"
  by (induction ras) auto

lemma HasDataAction_iff:
  "HasDataAction env prin v a st = Inr True \<longleftrightarrow>
     prin \<noteq> uuid_nil \<and> v \<noteq> uuid_nil \<and> \<not> ae_fails env RoleList \<and>
     (\<exists>ra\<in>set (az_roles st). ra_principal ra = prin \<and> ra_vault ra = v
        \<and> RoleGrantsDataAction (ra_role ra) a)"
proof (cases a)
  case (Some act)
  then show ?thesis
    by (auto simp: HasDataAction_def ListByPrincipalInVault_def any_grants_iff)
qed (simp add: HasDataAction_def)

lemma HasDataAction_cases:
  "HasDataAction env prin v a st \<in> {Inl RoleDbError, Inr True, Inr False}"
  by (auto simp: HasDataAction_def ListByPrincipalInVault_def)

lemma legacy_covers_bundles: "fst ` set builtInRoles \<subseteq> set legacyRoleNames"
  by (simp add: builtInRoles_def legacyRoleNames_def)

lemma grantable_is_azure:
  assumes "IsValidRole r" "\<not> IsLegacyRole r"
  shows "IsAzureRole r"
proof (rule ccontr)
  assume no: "\<not> IsAzureRole r"
  have "r \<noteq> ''vault-admin''"
    using assms(2) by (auto simp: IsLegacyRole_def legacyRoleNames_def)
  with no assms(1) have "r \<in> fst ` set builtInRoles"
    by (auto simp: IsValidRole_def map_of_eq_None_iff split: if_splits)
  with legacy_covers_bundles assms(2) show False
    by (auto simp: IsLegacyRole_def)
qed

lemma ExpandRole_azure [guard_simps]: "IsAzureRole r \<Longrightarrow> ExpandRole f n r p t v a = Some []"
  by (simp add: ExpandRole_def)

lemma audit_role_view [simp]:
  "az_roles (audit_role actor act ra out st) = az_roles st"
  "az_policies (audit_role actor act ra out st) = az_policies st"
  by (simp_all add: audit_role_def)

text \<open>What the service keeps of its table: identifiers and (principal, role, vault) are unique.\<close>

definition roles_wf :: "role_table \<Rightarrow> bool" where
  "roles_wf tbl \<longleftrightarrow> distinct (map ra_id tbl) \<and> distinct (map ra_key tbl)"

lemma roles_wf_filter: "roles_wf tbl \<Longrightarrow> roles_wf (filter P tbl)"
  by (simp add: roles_wf_def distinct_map_filter)

lemma role_create_cases:
  obtains (refused) e where "role_create f now ra tbl = (Some e, tbl)"
  | (created) ra' where "role_create f now ra tbl = (None, tbl @ [ra'])"
      "ra' = (if ra_created ra = 0 then ra\<lparr>ra_created := now\<rparr> else ra)"
      "ra_id ra \<notin> ra_id ` set tbl" "ra_key ra \<notin> ra_key ` set tbl" "\<not> f RoleInsert"
proof -
  define ra' where "ra' = (if ra_created ra = 0 then ra\<lparr>ra_created := now\<rparr> else ra)"
  have "ra_id ra' = ra_id ra" "ra_key ra' = ra_key ra"
    by (simp_all add: ra'_def ra_key_def)
  then show ?thesis
    using that(1) that(2) [of ra'] unfolding role_create_def ra'_def [symmetric] Let_def
    by (auto split: if_splits) (metis ra'_def)+
qed

lemma createAssignment_azure:
  assumes "IsAzureRole (ra_role ra)"
  obtains (refused) e where "createAssignment env ra st = (Some (ErrCreateAssignment e), st)"
  | (created) ra' where
      "createAssignment env ra st = (None, st\<lparr>az_roles := az_roles st @ [ra']\<rparr>)"
      "ra' = (if ra_created ra = 0 then ra\<lparr>ra_created := ae_now env\<rparr> else ra)"
      "ra_id ra \<notin> ra_id ` set (az_roles st)" "ra_key ra \<notin> ra_key ` set (az_roles st)"
      "\<not> ae_fails env RoleInsert"
proof (cases rule: role_create_cases [of "ae_fails env" "ae_now env" ra "az_roles st"])
  case (refused e)
  then show ?thesis
    by (intro that(1)) (simp add: createAssignment_def)
next
  case (created ra')
  then show ?thesis
    using assms by (intro that(2)) (simp_all add: createAssignment_def guard_simps Let_def)
qed

lemma only_audit_differs:
  "az_roles s = rs \<Longrightarrow> az_policies s = az_policies st \<Longrightarrow> s = st\<lparr>az_roles := rs, az_audit := az_audit s\<rparr>"
  for s :: authz_state
  by simp

lemma run_createAssignment:
  assumes "IsAzureRole (ra_role ra)"
  obtains (no_audit) "runCritical env actor act ra (createAssignment env ra) st = (Some ErrAuditUnavailable, st)"
  | (refused) e log where
      "runCritical env actor act ra (createAssignment env ra) st
         = (Some (OpError (ErrCreateAssignment e)), st\<lparr>az_audit := log\<rparr>)"
  | (created) log ra' where
      "runCritical env actor act ra (createAssignment env ra) st
         = (None, st\<lparr>az_roles := az_roles st @ [ra'], az_audit := log\<rparr>)"
      "ra' = (if ra_created ra = 0 then ra\<lparr>ra_created := ae_now env\<rparr> else ra)"
      "ra_id ra \<notin> ra_id ` set (az_roles st)" "ra_key ra \<notin> ra_key ` set (az_roles st)"
proof (cases "ae_fails env AttemptRow")
  case True
  then show ?thesis
    by (intro no_audit) (simp add: runCritical_def guard_simps)
next
  case False
  define st1 where "st1 = audit_role actor act ra OutcomeAttempt st"
  note ran = WithCritical_ran [where put = "audit_role actor act ra" and st = st and op = "createAssignment env ra", folded st1_def]
  show ?thesis
  proof (cases rule: createAssignment_azure [OF assms, of env st1])
    case (1 e)
    define s where "s = (if ae_fails env ResultRow then st1
      else audit_role actor act ra OutcomeFailure st1)"
    have "s = st\<lparr>az_roles := az_roles st, az_audit := az_audit s\<rparr>"
      by (rule only_audit_differs) (simp_all add: s_def st1_def)
    moreover have "runCritical env actor act ra (createAssignment env ra) st
        = (Some (OpError (ErrCreateAssignment e)), s)"
      using False ran [OF 1] by (simp add: runCritical_def s_def)
    ultimately show ?thesis
      using refused [of e "az_audit s"] by simp
  next
    case (2 ra')
    define s where "s = (if ae_fails env ResultRow then st1\<lparr>az_roles := az_roles st1 @ [ra']\<rparr>
      else audit_role actor act ra OutcomeSuccess (st1\<lparr>az_roles := az_roles st1 @ [ra']\<rparr>))"
    have "s = st\<lparr>az_roles := az_roles st @ [ra'], az_audit := az_audit s\<rparr>"
      by (rule only_audit_differs) (simp_all add: s_def st1_def)
    moreover have "runCritical env actor act ra (createAssignment env ra) st = (None, s)"
      using False ran [OF 2(1)] by (simp add: runCritical_def s_def)
    ultimately show ?thesis
      using created [of "az_audit s" ra'] 2 by (simp add: st1_def)
  qed
qed

lemma AssignRole_guarded:
  assumes "IsValidRole (in_role i)" "\<not> IsLegacyRole (in_role i)"
    and "in_global_admin i \<or> in_role i \<in> set nonAdminGrantableRoles"
    and "resolvePrincipal env (in_principal i) = Some prin"
    and "FindByTuple (ae_fails env) prin (in_role i) (in_vault i) (az_roles st) = Inr None"
  shows "AssignRole env i st =
    (case runCritical env (in_created_by i) ''assign_role'' (new_assignment env i prin)
            (createAssignment env (new_assignment env i prin)) st of
       (Some e, st') \<Rightarrow> (Inl e, st')
     | (None, st') \<Rightarrow> (Inr ((new_assignment env i prin)\<lparr>ra_created := ae_now env\<rparr>), st'))"
  using assms by (auto simp: AssignRole_def Let_def)

lemma FindByTuple_Some:
  assumes "FindByTuple f prin role v tbl = Inr (Some ra)"
  shows "ra \<in> set tbl \<and> ra_key ra = (prin, role, v)"
proof -
  obtain ras where "filter (\<lambda>ra. ra_key ra = (prin, role, v)) tbl = ra # ras"
    using assms by (auto simp: FindByTuple_def split: if_splits list.splits)
  then have "ra \<in> set (filter (\<lambda>ra. ra_key ra = (prin, role, v)) tbl)"
    by simp
  then show ?thesis
    by simp
qed

lemma AssignRole_unguarded:
  assumes "\<not> (IsValidRole (in_role i) \<and> \<not> IsLegacyRole (in_role i)
      \<and> (in_global_admin i \<or> in_role i \<in> set nonAdminGrantableRoles)
      \<and> (\<exists>prin. resolvePrincipal env (in_principal i) = Some prin
           \<and> FindByTuple (ae_fails env) prin (in_role i) (in_vault i) (az_roles st) = Inr None))"
  shows "(\<exists>e. AssignRole env i st = (Inl e, st))
    \<or> (\<exists>prin ra. resolvePrincipal env (in_principal i) = Some prin
         \<and> ra \<in> set (az_roles st) \<and> ra_key ra = (prin, in_role i, in_vault i)
         \<and> AssignRole env i st = (Inr ra, st))"
  using assms by (auto simp: AssignRole_def Let_def split: option.split sum.split
      dest!: FindByTuple_Some)

text \<open>Every outcome of a grant: refused, already there, or exactly one new row.\<close>

lemma AssignRole_cases:
  obtains (failed) e where "AssignRole env i st = (Inl e, st)"
  | (existing) prin ra where "AssignRole env i st = (Inr ra, st)"
      "resolvePrincipal env (in_principal i) = Some prin"
      "ra \<in> set (az_roles st)" "ra_key ra = (prin, in_role i, in_vault i)"
  | (refused) e log where "AssignRole env i st = (Inl e, st\<lparr>az_audit := log\<rparr>)"
  | (granted) prin log ra where
      "AssignRole env i st = (Inr ra, st\<lparr>az_roles := az_roles st @ [ra], az_audit := log\<rparr>)"
      "resolvePrincipal env (in_principal i) = Some prin"
      "ra = (new_assignment env i prin)\<lparr>ra_created := ae_now env\<rparr>"
      "IsAzureRole (in_role i)" "in_global_admin i \<or> in_role i \<in> set nonAdminGrantableRoles"
      "ra_id ra \<notin> ra_id ` set (az_roles st)" "ra_key ra \<notin> ra_key ` set (az_roles st)"
proof (cases "IsValidRole (in_role i) \<and> \<not> IsLegacyRole (in_role i)
      \<and> (in_global_admin i \<or> in_role i \<in> set nonAdminGrantableRoles)
      \<and> (\<exists>prin. resolvePrincipal env (in_principal i) = Some prin
           \<and> FindByTuple (ae_fails env) prin (in_role i) (in_vault i) (az_roles st) = Inr None)")
  case False
  then show ?thesis
    using AssignRole_unguarded that(1,2) by blast
next
  case True
  then obtain prin where prin: "resolvePrincipal env (in_principal i) = Some prin"
      "FindByTuple (ae_fails env) prin (in_role i) (in_vault i) (az_roles st) = Inr None"
    by blast
  define ra where "ra = new_assignment env i prin"
  have az: "IsAzureRole (in_role i)"
    using True grantable_is_azure by blast
  have fields: "ra_role ra = in_role i" "ra_created ra = 0"
      "ra_id (ra\<lparr>ra_created := t\<rparr>) = ra_id ra" "ra_key (ra\<lparr>ra_created := t\<rparr>) = ra_key ra" for t
    by (simp_all add: ra_def new_assignment_def ra_key_def)
  have eq: "AssignRole env i st =
    (case runCritical env (in_created_by i) ''assign_role'' ra (createAssignment env ra) st of
       (Some e, st') \<Rightarrow> (Inl e, st') | (None, st') \<Rightarrow> (Inr (ra\<lparr>ra_created := ae_now env\<rparr>), st'))"
    unfolding ra_def using True prin by (intro AssignRole_guarded) auto
  show ?thesis
  proof (cases rule: run_createAssignment
      [of ra env "in_created_by i" "''assign_role''" st, unfolded fields(1), OF az])
    case 1
    with eq show ?thesis
      by (intro that(1)) simp
  next
    case (2 e log)
    with eq show ?thesis
      by (intro that(3)) simp
  next
    case (3 log ra')
    show ?thesis
      by (rule that(4) [of "ra\<lparr>ra_created := ae_now env\<rparr>" log prin])
         (use eq 3 fields az True prin(1) in \<open>simp_all add: ra_def\<close>)
  qed
qed

text \<open>Every outcome of a revocation.  A failed deletion of the row leaves its policies deleted.\<close>

lemma role_get_Some:
  assumes "role_get f i tbl = Inr ra"
  shows "ra \<in> set tbl" "ra_id ra = i"
  using assms Cons_eq_filterD [of ra _ "\<lambda>ra. ra_id ra = i" tbl]
  by (auto simp: role_get_def split: if_splits list.splits dest!: sym [of "filter _ _"])

definition revocable :: "authz_env \<Rightarrow> uuid \<Rightarrow> uuid \<Rightarrow> bool \<Rightarrow> authz_state \<Rightarrow> role_assignment \<Rightarrow> bool" where
  "revocable env i v is_admin st ra \<longleftrightarrow>
     role_get (ae_fails env) i (az_roles st) = Inr ra \<and> ra_vault ra = v
     \<and> (is_admin \<or> ra_role ra \<in> set nonAdminGrantableRoles)"

lemma Revoke_not_revocable:
  assumes "\<And>ra. \<not> revocable env i v is_admin st ra"
  shows "\<exists>e. RevokeAssignment env i v actor is_admin st = (Some (OpError e), st)"
proof (cases "role_get (ae_fails env) i (az_roles st)")
  case (Inr ra)
  with assms [of ra] show ?thesis
    by (auto simp: RevokeAssignment_def revocable_def)
qed (simp add: RevokeAssignment_def)

lemma Revoke_revocable:
  assumes "revocable env i v is_admin st ra"
  shows "RevokeAssignment env i v actor is_admin st
    = runCritical env actor ''revoke_role_assignment'' ra (revoke_op env i) st"
  using assms by (auto simp: RevokeAssignment_def revocable_def)

lemma revoke_op_roles:
  "az_roles (snd (revoke_op env i st)) = az_roles st
   \<or> az_roles (snd (revoke_op env i st)) = filter (\<lambda>ra. ra_id ra \<noteq> i) (az_roles st)"
  by (auto simp: revoke_op_def DeleteByAssignmentID_def role_delete_def Let_def)

lemma revoke_op_None:
  "fst (revoke_op env i st) = None \<Longrightarrow>
     az_roles (snd (revoke_op env i st)) = filter (\<lambda>ra. ra_id ra \<noteq> i) (az_roles st)
     \<and> az_policies (snd (revoke_op env i st))
         = filter (\<lambda>p. pol_assignment p \<noteq> Some i) (az_policies st)"
  by (auto simp: revoke_op_def DeleteByAssignmentID_def role_delete_def Let_def split: if_splits)

lemma Revoke_roles:
  "az_roles (snd (RevokeAssignment env i v actor is_admin st)) = az_roles st \<or>
   (\<exists>ra. revocable env i v is_admin st ra \<and>
     az_roles (snd (RevokeAssignment env i v actor is_admin st))
       = filter (\<lambda>ra. ra_id ra \<noteq> i) (az_roles st))"
proof (cases "\<exists>ra. revocable env i v is_admin st ra")
  case True
  then obtain ra where ra: "revocable env i v is_admin st ra"
    by blast
  have "az_roles (snd (runCritical env actor act ra (revoke_op env i) st))
      \<in> {az_roles st, filter (\<lambda>ra. ra_id ra \<noteq> i) (az_roles st)}" for act
    using revoke_op_roles [of env i "audit_role actor act ra OutcomeAttempt st"]
    unfolding runCritical_def by (subst WithCritical_view [where view = az_roles]) auto
  with ra Revoke_revocable [OF ra] show ?thesis
    by auto
next
  case False
  then show ?thesis
    using Revoke_not_revocable [of env i v is_admin st actor] by auto
qed

lemma Revoke_None:
  assumes "RevokeAssignment env i v actor is_admin st = (None, st')"
  obtains ra where "revocable env i v is_admin st ra"
    "az_roles st' = filter (\<lambda>ra. ra_id ra \<noteq> i) (az_roles st)"
    "az_policies st' = filter (\<lambda>p. pol_assignment p \<noteq> Some i) (az_policies st)"
proof -
  obtain ra where ra: "revocable env i v is_admin st ra"
    using Revoke_not_revocable [of env i v is_admin st actor] assms by fastforce
  define st1 where "st1 = audit_role actor ''revoke_role_assignment'' ra OutcomeAttempt st"
  have run: "WithCritical (ae_fails env AttemptRow) (ae_fails env ResultRow)
      (audit_role actor ''revoke_role_assignment'' ra) (revoke_op env i) st = (None, st')"
    using Revoke_revocable [OF ra, of actor] assms by (simp add: runCritical_def)
  then have attempt: "ae_fails env AttemptRow = False"
    by (cases "ae_fails env AttemptRow") (simp_all add: guard_simps)
  obtain r st2 where op: "revoke_op env i st1 = (r, st2)"
    by fastforce
  with run have r: "r = None" and st': "az_roles st' = az_roles st2" "az_policies st' = az_policies st2"
    unfolding attempt using WithCritical_ran [where op = "revoke_op env i" and st = st
        and put = "audit_role actor ''revoke_role_assignment'' ra", folded st1_def, OF op]
    by (auto split: if_splits)
  from op r have "fst (revoke_op env i st1) = None"
    by simp
  from revoke_op_None [OF this] op st' that [OF ra] show ?thesis
    by (simp add: st1_def)
qed

lemma create_policies_audit: "az_audit (snd (create_policies env i ps st)) = az_audit st"
  by (induction ps arbitrary: st)
     (auto simp: drop_assignment_def drop_policies_def split: prod.split option.split)

lemma createAssignment_audit: "az_audit (snd (createAssignment env ra st)) = az_audit st"
  by (auto simp: createAssignment_def drop_assignment_def create_policies_audit Let_def
      split: prod.split option.split)

lemma revoke_op_audit: "az_audit (snd (revoke_op env i st)) = az_audit st"
  by (auto simp: revoke_op_def Let_def split: prod.split option.split)

section \<open>Runs of grants and revocations\<close>

datatype authz_event =
    EvAssign authz_env assign_role_input
  | EvRevoke authz_env uuid uuid uuid bool

fun authz_step :: "authz_event \<Rightarrow> authz_state \<Rightarrow> authz_state" where
  "authz_step (EvAssign env i) st = snd (AssignRole env i st)"
| "authz_step (EvRevoke env i v actor is_admin) st = snd (RevokeAssignment env i v actor is_admin st)"

fun by_admin :: "authz_event \<Rightarrow> bool" where
  "by_admin (EvAssign env i) \<longleftrightarrow> in_global_admin i"
| "by_admin (EvRevoke env i v actor is_admin) \<longleftrightarrow> is_admin"

lemma AssignRole_wf: "roles_wf (az_roles st) \<Longrightarrow> roles_wf (az_roles (snd (AssignRole env i st)))"
  by (cases rule: AssignRole_cases [of env i st]) (simp_all add: roles_wf_def)

lemma Revoke_wf:
  "roles_wf (az_roles st) \<Longrightarrow> roles_wf (az_roles (snd (RevokeAssignment env i v actor adm st)))"
  using Revoke_roles [of env i v actor adm st] by (auto intro: roles_wf_filter)

interpretation roles_run: step_system authz_step "\<lambda>st. roles_wf (az_roles st)"
proof
  show "roles_wf (az_roles (authz_step e st))" if "roles_wf (az_roles st)" for e st
    using that AssignRole_wf Revoke_wf by (cases e) simp_all
qed

text \<open>The rows of the roles that only a global admin may grant.\<close>

definition reserved_rows :: "role_table \<Rightarrow> role_table" where
  "reserved_rows tbl = filter (\<lambda>ra. ra_role ra \<notin> set nonAdminGrantableRoles) tbl"

lemma reserved_filter_id:
  assumes "distinct (map ra_id tbl)" "ra \<in> set tbl" "ra_role ra \<in> set nonAdminGrantableRoles"
  shows "reserved_rows (filter (\<lambda>x. ra_id x \<noteq> ra_id ra) tbl) = reserved_rows tbl"
proof -
  have "ra_role x \<in> set nonAdminGrantableRoles" if "x \<in> set tbl" "ra_id x = ra_id ra" for x
    using that assms by (metis inj_on_def distinct_map)
  then show ?thesis
    unfolding reserved_rows_def filter_filter by (intro filter_cong) auto
qed

lemma non_admin_step:
  assumes "roles_wf (az_roles st)" "\<not> by_admin e"
  shows "reserved_rows (az_roles (authz_step e st)) = reserved_rows (az_roles st)"
proof (cases e)
  case (EvAssign env i)
  with assms(2) show ?thesis
    by (cases rule: AssignRole_cases [of env i st])
       (simp_all add: reserved_rows_def new_assignment_def)
next
  case (EvRevoke env i v actor adm)
  with assms(2) have "\<not> adm" by simp
  moreover have "reserved_rows (filter (\<lambda>x. ra_id x \<noteq> i) (az_roles st)) = reserved_rows (az_roles st)"
    if "revocable env i v adm st ra" for ra
    using that \<open>\<not> adm\<close> assms(1) reserved_filter_id [of "az_roles st" ra] role_get_Some
    unfolding revocable_def roles_wf_def by metis
  ultimately show ?thesis
    using EvRevoke Revoke_roles [of env i v actor adm st] by auto
qed

section \<open>Properties\<close>

text \<open>C4: a grant that succeeds adds exactly the authority of the granted role, for the resolved
  principal, in the requested vault: every other (principal, vault, action) decision is the one
  before the call.\<close>

theorem assign_role_effect:
  assumes "AssignRole env i st = (Inr ra, st')"
    and "resolvePrincipal env (in_principal i) = Some prin"
    and "\<not> ae_fails env2 RoleList"
  shows "HasDataAction env2 p v a st' = Inr True \<longleftrightarrow>
    HasDataAction env2 p v a st = Inr True
    \<or> (p = prin \<and> v = in_vault i \<and> p \<noteq> uuid_nil \<and> v \<noteq> uuid_nil
       \<and> RoleGrantsDataAction (in_role i) a)"
proof (cases rule: AssignRole_cases [of env i st])
  case (failed e)
  with assms(1) show ?thesis by simp
next
  case (existing prin' ra')
  with assms show ?thesis
    by (auto simp: HasDataAction_iff ra_key_def)
next
  case (refused e log)
  with assms(1) show ?thesis by simp
next
  case (granted prin' log ra')
  with assms show ?thesis
    by (auto simp: HasDataAction_iff new_assignment_def)
qed

definition example_env :: authz_env where
  "example_env = \<lparr>ae_parse = (\<lambda>_. None), ae_users = (\<lambda>s. if s = ''alice'' then Some 5 else None),
     ae_fresh = (\<lambda>n. 100 + of_nat n), ae_now = 1, ae_fails = (\<lambda>_. False)\<rparr>"

definition example_grant :: assign_role_input where
  "example_grant = \<lparr>in_principal = ''alice'', in_principal_type = [], in_role = RoleKeyVaultReader,
     in_vault = 7, in_created_by = 2, in_global_admin = False\<rparr>"

definition empty_authz :: authz_state where
  "empty_authz = \<lparr>az_roles = [], az_policies = [], az_audit = []\<rparr>"

definition example_assignment :: role_assignment where
  "example_assignment = \<lparr>ra_id = 100, ra_principal = 5, ra_principal_type = ''user'',
     ra_role = RoleKeyVaultReader, ra_vault = 7, ra_created_by = 2, ra_created = 1\<rparr>"

lemma example_grant_run:
  "AssignRole example_env example_grant empty_authz
     = (Inr example_assignment, snd (AssignRole example_env example_grant empty_authz))"
  "az_roles (snd (AssignRole example_env example_grant empty_authz)) = [example_assignment]"
  by code_simp+

lemma assign_role_effect_witness:
  "HasDataAction example_env 5 7 (Some ActionKeysRead)
     (snd (AssignRole example_env example_grant empty_authz)) = Inr True"
proof -
  have "resolvePrincipal example_env (in_principal example_grant) = Some 5"
    and "\<not> ae_fails example_env RoleList"
    and "RoleGrantsDataAction (in_role example_grant) (Some ActionKeysRead)"
    and "(5::uuid) \<noteq> uuid_nil" "(7::uuid) \<noteq> uuid_nil" "in_vault example_grant = 7"
    by code_simp+
  then show ?thesis
    using assign_role_effect [OF example_grant_run(1)] by simp
qed

text \<open>C5: revoking returns the decisions to what they were.  A grant that created a row, followed by
  a successful revocation of that row, leaves the assignment table as before the grant, whoever
  revokes and whatever happened to the audit rows.\<close>

theorem assign_then_revoke:
  assumes "AssignRole env i st = (Inr ra, st1)" and "az_roles st1 \<noteq> az_roles st"
    and "RevokeAssignment env2 (ra_id ra) v actor adm st1 = (None, st2)"
  shows "az_roles st2 = az_roles st \<and> v = in_vault i"
proof (cases rule: AssignRole_cases [of env i st])
  case (granted prin log ra')
  then have st1: "az_roles st1 = az_roles st @ [ra]" and fresh: "ra_id ra \<notin> ra_id ` set (az_roles st)"
    and v: "ra_vault ra = in_vault i"
    using assms(1) by (auto simp: new_assignment_def)
  from assms(3) obtain ra2 where ra2: "revocable env2 (ra_id ra) v adm st1 ra2"
    and st2: "az_roles st2 = filter (\<lambda>x. ra_id x \<noteq> ra_id ra) (az_roles st1)"
    by (rule Revoke_None)
  have "ra2 \<in> set (az_roles st1)" "ra_id ra2 = ra_id ra" "ra_vault ra2 = v"
    using ra2 role_get_Some by (auto simp: revocable_def)
  with st1 fresh have "ra2 = ra"
    by (auto simp: image_iff)
  moreover have "filter (\<lambda>x. ra_id x \<noteq> ra_id ra) (az_roles st) = az_roles st"
    using fresh by (intro filter_True) (metis imageI)
  ultimately show ?thesis
    using st1 st2 v \<open>ra_vault ra2 = v\<close> by simp
qed (use assms in simp_all)

lemma assign_then_revoke_witness:
  "az_roles (snd (RevokeAssignment example_env 100 7 9 True
     (snd (AssignRole example_env example_grant empty_authz)))) = az_roles empty_authz"
proof -
  have "az_roles (snd (AssignRole example_env example_grant empty_authz)) \<noteq> az_roles empty_authz"
    by code_simp
  moreover have "RevokeAssignment example_env (ra_id example_assignment) 7 9 True
      (snd (AssignRole example_env example_grant empty_authz))
    = (None, snd (RevokeAssignment example_env 100 7 9 True
        (snd (AssignRole example_env example_grant empty_authz))))"
    by code_simp
  ultimately show ?thesis
    using assign_then_revoke [OF example_grant_run(1)] by blast
qed

text \<open>C3: callers whose authority is only Key Vault Data Access Administrator are confined.  No
  sequence of grants and revocations by callers that are not global admins, under any database
  faults, adds or removes a row of a role outside the allow-list.\<close>

theorem non_admins_confined:
  assumes "roles_wf (az_roles st)" and "list_all (\<lambda>e. \<not> by_admin e) es"
  shows "reserved_rows (az_roles (fold authz_step es st)) = reserved_rows (az_roles st)"
  using assms
proof (induction es arbitrary: st)
  case (Cons e es)
  then have "reserved_rows (az_roles (fold authz_step es (authz_step e st)))
      = reserved_rows (az_roles (authz_step e st))"
    using roles_run.step_inv by simp
  also have "\<dots> = reserved_rows (az_roles st)"
    using Cons.prems by (intro non_admin_step) simp_all
  finally show ?case
    by simp
qed simp

lemma non_admins_confined_witness:
  "reserved_rows (az_roles (fold authz_step
     [EvAssign example_env (example_grant\<lparr>in_role := RoleKeyVaultPurgeOperator\<rparr>),
      EvAssign example_env example_grant] empty_authz)) = reserved_rows (az_roles empty_authz)"
  by (rule non_admins_confined) (simp_all add: roles_wf_def empty_authz_def example_grant_def)

text \<open>C6: every change of an assignment or of a derived policy row is preceded by its attempt row in the
  audit log; when that row cannot be written, nothing changes.\<close>

theorem authz_change_audited:
  assumes "az_roles (authz_step e st) \<noteq> az_roles st \<or> az_policies (authz_step e st) \<noteq> az_policies st"
  shows "\<exists>row rest. az_audit (authz_step e st) = az_audit st @ row # rest
    \<and> rar_outcome row = OutcomeAttempt"
proof -
  have logged: "snd (runCritical env actor act ra op st) = st
      \<or> (\<exists>row rest. az_audit (snd (runCritical env actor act ra op st)) = az_audit st @ row # rest
          \<and> rar_outcome row = OutcomeAttempt)"
    if "\<And>s. az_audit (snd (op s)) = az_audit s" for env actor act ra op
    using that [of "audit_role actor act ra OutcomeAttempt st"]
    by (auto simp: runCritical_def WithCritical_def RecordAttempt_def Let_def audit_role_def
        split: prod.splits)
  show ?thesis
  proof (cases e)
    case (EvAssign env i)
    then have "snd (AssignRole env i st) \<noteq> st"
      using assms by auto
    then obtain prin where "AssignRole env i st =
      (case runCritical env (in_created_by i) ''assign_role'' (new_assignment env i prin)
              (createAssignment env (new_assignment env i prin)) st of
         (Some e, st') \<Rightarrow> (Inl e, st')
       | (None, st') \<Rightarrow> (Inr ((new_assignment env i prin)\<lparr>ra_created := ae_now env\<rparr>), st'))"
      using AssignRole_guarded [of i env _ st] AssignRole_unguarded [of i env st] by fastforce
    then have "snd (AssignRole env i st)
        = snd (runCritical env (in_created_by i) ''assign_role'' (new_assignment env i prin)
            (createAssignment env (new_assignment env i prin)) st)"
      by (simp split: prod.split option.split)
    with \<open>snd (AssignRole env i st) \<noteq> st\<close> have "\<exists>row rest. az_audit (snd (AssignRole env i st))
        = az_audit st @ row # rest \<and> rar_outcome row = OutcomeAttempt"
      using logged [of "createAssignment env (new_assignment env i prin)"] createAssignment_audit
      by metis
    with EvAssign show ?thesis
      by simp
  next
    case (EvRevoke env i v actor adm)
    then have changed: "snd (RevokeAssignment env i v actor adm st) \<noteq> st"
      using assms by auto
    then obtain ra where "revocable env i v adm st ra"
      using Revoke_not_revocable [of env i v adm st actor] by fastforce
    from Revoke_revocable [OF this] changed EvRevoke show ?thesis
      using logged [of "revoke_op env i"] revoke_op_audit by (metis authz_step.simps(2))
  qed
qed

lemma authz_change_audited_witness:
  "\<exists>row rest. az_audit (authz_step (EvAssign example_env example_grant) empty_authz)
      = az_audit empty_authz @ row # rest \<and> rar_outcome row = OutcomeAttempt"
proof (rule authz_change_audited)
  show "az_roles (authz_step (EvAssign example_env example_grant) empty_authz) \<noteq> az_roles empty_authz
    \<or> az_policies (authz_step (EvAssign example_env example_grant) empty_authz) \<noteq> az_policies empty_authz"
    by code_simp
qed

end
