(* ===== verification/VaultAuthz.thy ===== *)
theory VaultAuthz
  imports RoleAssignments Scope
begin

text \<open>
  The vault-management decisions
  (\<open>src/internal/services/authorization/vault_authz.go\<close>), the data-plane check of
  the command line and of the renewal scheduler
  (\<open>src/internal/services/authorization/data_action_authz.go\<close>) and
  \<open>HasAnyRole\<close> (\<open>src/common/auth_helper.go\<close>).

  A nil service is \<open>None\<close>.  The policy service is its table with the statements
  its database refuses, the role service its state with its environment, a grant
  reader is a function of the principal whose left value is its error.
\<close>

definition HasAnyRole :: "go_string list \<Rightarrow> go_string list \<Rightarrow> bool" where
  "HasAnyRole userRoles requiredRoles =
     (if userRoles = [] \<or> requiredRoles = [] then False
      else list_ex (\<lambda>required. list_ex (\<lambda>role. role = required) userRoles) requiredRoles)"

definition RoleAdmin :: go_string where "RoleAdmin = ''admin''"

record policy_service =
  psv_fails :: "policy_stmt \<Rightarrow> bool"
  psv_table :: policy_table

record role_service =
  rsv_env :: authz_env
  rsv_state :: authz_state

definition svc_CheckAccess ::
  "policy_service \<Rightarrow> uuid \<Rightarrow> policy_resource \<Rightarrow> policy_operation \<Rightarrow> uuid \<Rightarrow> policy_error + access_decision" where
  "svc_CheckAccess ps prin res op v = CheckAccess (psv_fails ps) prin res op v (psv_table ps)"

definition svc_CheckVaultScoped ::
  "policy_service \<Rightarrow> uuid \<Rightarrow> policy_resource \<Rightarrow> policy_operation \<Rightarrow> uuid \<Rightarrow> policy_error + access_decision" where
  "svc_CheckVaultScoped ps prin res op v =
     CheckVaultScopedAccess (psv_fails ps) prin res op v (psv_table ps)"

definition svc_HasDataAction ::
  "role_service \<Rightarrow> uuid \<Rightarrow> uuid \<Rightarrow> data_action option \<Rightarrow> role_error + bool" where
  "svc_HasDataAction rs prin v a = HasDataAction (rsv_env rs) prin v a (rsv_state rs)"

section \<open>Vault management\<close>

definition CanManageVault ::
  "go_string list \<Rightarrow> policy_service option \<Rightarrow> uuid \<Rightarrow> uuid \<Rightarrow> bool" where
  "CanManageVault accountRoles policies prin v =
     (if HasAnyRole accountRoles [RoleAdmin] then True
      else case policies of
        None \<Rightarrow> False
      | Some ps \<Rightarrow>
          (case (if v = uuid_nil then svc_CheckAccess ps prin PolicyResourceVaults OpManage v
                 else svc_CheckVaultScoped ps prin PolicyResourceVaults OpManage v) of
             Inl _ \<Rightarrow> False
           | Inr decision \<Rightarrow> decision = AccessAllowed))"

definition CanPurgeVault ::
  "go_string list \<Rightarrow> role_service option \<Rightarrow> uuid \<Rightarrow> uuid \<Rightarrow> bool" where
  "CanPurgeVault accountRoles roles prin v =
     (if HasAnyRole accountRoles [RoleAdmin] then True
      else case roles of
        None \<Rightarrow> False
      | Some rs \<Rightarrow>
          (case svc_HasDataAction rs prin v (Some ActionVaultPurge) of
             Inl _ \<Rightarrow> False
           | Inr allowed \<Rightarrow> allowed))"

text \<open>The last part of \<open>CanManageRoleAssignments\<close>, after the policy check.\<close>

definition role_assignment_grant ::
  "role_service option \<Rightarrow> uuid \<Rightarrow> uuid \<Rightarrow> bool \<Rightarrow> bool" where
  "role_assignment_grant roles prin v wr =
     (case roles of
        None \<Rightarrow> False
      | Some rs \<Rightarrow>
          (let action = (if \<not> wr then ActionRoleAssignmentsDelete else ActionRoleAssignmentsWrite) in
           case svc_HasDataAction rs prin v (Some action) of
             Inl _ \<Rightarrow> False
           | Inr allowed \<Rightarrow> allowed))"

definition CanManageRoleAssignments ::
  "go_string list \<Rightarrow> policy_service option \<Rightarrow> role_service option \<Rightarrow> uuid \<Rightarrow> uuid \<Rightarrow> bool \<Rightarrow> bool" where
  "CanManageRoleAssignments accountRoles policies roles prin v wr =
     (if HasAnyRole accountRoles [RoleAdmin] then True
      else if v = uuid_nil then False
      else case policies of
        None \<Rightarrow> role_assignment_grant roles prin v wr
      | Some ps \<Rightarrow>
          (case svc_CheckVaultScoped ps prin PolicyResourceVaults OpManage v of
             Inr AccessAllowed \<Rightarrow> True
           | Inr AccessDenied \<Rightarrow> False
           | _ \<Rightarrow> role_assignment_grant roles prin v wr))"

datatype create_right =
  CreateRightNone | CreateRightAdmin | CreateRightGlobalPolicy | CreateRightProvisioningGrant

type_synonym 'g grant_reader = "uuid \<Rightarrow> unit + 'g option"

definition grant_right :: "'g grant_reader option \<Rightarrow> uuid \<Rightarrow> create_right" where
  "grant_right grants prin =
     (case grants of
        None \<Rightarrow> CreateRightNone
      | Some get \<Rightarrow>
          (case get prin of
             Inl _ \<Rightarrow> CreateRightNone
           | Inr None \<Rightarrow> CreateRightNone
           | Inr (Some _) \<Rightarrow> CreateRightProvisioningGrant))"

definition CanCreateVault ::
  "go_string list \<Rightarrow> policy_service option \<Rightarrow> 'g grant_reader option \<Rightarrow> uuid \<Rightarrow> create_right" where
  "CanCreateVault accountRoles policies grants prin =
     (if HasAnyRole accountRoles [RoleAdmin] then CreateRightAdmin
      else case policies of
        None \<Rightarrow> grant_right grants prin
      | Some ps \<Rightarrow>
          (case svc_CheckAccess ps prin PolicyResourceVaults OpManage uuid_nil of
             Inl _ \<Rightarrow> CreateRightNone
           | Inr AccessAllowed \<Rightarrow> CreateRightGlobalPolicy
           | Inr AccessDenied \<Rightarrow> CreateRightNone
           | Inr AccessFallback \<Rightarrow> grant_right grants prin))"

section \<open>The data plane\<close>

datatype data_plane_error =
    DeniedByPolicy | DeniedNoRole
  | ErrDataPlaneMisuse | ErrAuthorizationUnavailable
  | PolicyLookupFailed policy_error | RoleLookupFailed role_error

text \<open>\<open>errors.Is(err, ErrDataPlaneDenied)\<close>.\<close>

fun is_ErrDataPlaneDenied :: "data_plane_error \<Rightarrow> bool" where
  "is_ErrDataPlaneDenied DeniedByPolicy = True"
| "is_ErrDataPlaneDenied DeniedNoRole = True"
| "is_ErrDataPlaneDenied _ = False"

definition RequireDataAction ::
  "role_service \<Rightarrow> uuid \<Rightarrow> uuid \<Rightarrow> data_action option \<Rightarrow> data_plane_error option" where
  "RequireDataAction rs prin v action =
     (case svc_HasDataAction rs prin v action of
        Inl e \<Rightarrow> Some (RoleLookupFailed e)
      | Inr ok \<Rightarrow> if \<not> ok then Some DeniedNoRole else None)"

definition RequireDataPlaneAccess ::
  "policy_service option \<Rightarrow> role_service option \<Rightarrow> uuid \<Rightarrow> uuid \<Rightarrow> policy_resource
     \<Rightarrow> policy_operation \<Rightarrow> data_action option \<Rightarrow> data_plane_error option" where
  "RequireDataPlaneAccess policies roles prin v res op action =
     (if res = [] \<or> op = [] \<or> action = None \<or> prin = uuid_nil \<or> v = uuid_nil
        then Some ErrDataPlaneMisuse
      else case (policies, roles) of
        (Some ps, Some rs) \<Rightarrow>
          (case svc_CheckAccess ps prin res op v of
             Inl e \<Rightarrow> Some (PolicyLookupFailed e)
           | Inr AccessDenied \<Rightarrow> Some DeniedByPolicy
           | Inr _ \<Rightarrow> RequireDataAction rs prin v action)
      | _ \<Rightarrow> Some ErrAuthorizationUnavailable)"

section \<open>Lemmas\<close>

lemma HasAnyRole_iff: "HasAnyRole us rs \<longleftrightarrow> set us \<inter> set rs \<noteq> {}"
  by (auto simp: HasAnyRole_def list_ex_iff)

lemmas decision_simps = CheckVaultScoped_eq CheckAccess_eq svc_CheckAccess_def
  svc_CheckVaultScoped_def svc_HasDataAction_def

text \<open>What the rows say: an explicit deny, an allow in the vault itself, a granting role.\<close>

definition vault_allow :: "policy_service \<Rightarrow> uuid \<Rightarrow> uuid \<Rightarrow> bool" where
  "vault_allow ps prin v \<longleftrightarrow>
     list_ex (\<lambda>p. applies prin PolicyResourceVaults OpManage v p \<and> pol_vault p = Some v) (psv_table ps)"

definition manage_denied :: "policy_service \<Rightarrow> uuid \<Rightarrow> uuid \<Rightarrow> bool" where
  "manage_denied ps prin v \<longleftrightarrow> denied prin PolicyResourceVaults OpManage v (psv_table ps)"

definition role_in_vault :: "role_service \<Rightarrow> uuid \<Rightarrow> uuid \<Rightarrow> data_action \<Rightarrow> bool" where
  "role_in_vault rs prin v a \<longleftrightarrow> prin \<noteq> uuid_nil \<and> v \<noteq> uuid_nil \<and>
     list_ex (\<lambda>ra. ra_principal ra = prin \<and> ra_vault ra = v
        \<and> RoleGrantsDataAction (ra_role ra) (Some a)) (az_roles (rsv_state rs))"

lemma svc_HasDataAction_True_iff:
  "svc_HasDataAction rs prin v (Some a) = Inr True
     \<longleftrightarrow> \<not> ae_fails (rsv_env rs) RoleList \<and> role_in_vault rs prin v a"
  by (auto simp: svc_HasDataAction_def HasDataAction_iff role_in_vault_def list_ex_iff)

lemma svc_HasDataAction_cases:
  obtains "svc_HasDataAction rs prin v a = Inl RoleDbError"
  | "svc_HasDataAction rs prin v a = Inr True"
  | "svc_HasDataAction rs prin v a = Inr False"
  using HasDataAction_cases [of "rsv_env rs" prin v a "rsv_state rs"]
  unfolding svc_HasDataAction_def by blast

lemma allowed_iff:
  "(case svc_HasDataAction rs prin v (Some a) of Inl _ \<Rightarrow> False | Inr ok \<Rightarrow> ok)
     \<longleftrightarrow> \<not> ae_fails (rsv_env rs) RoleList \<and> role_in_vault rs prin v a"
  unfolding svc_HasDataAction_True_iff [symmetric]
  by (cases rule: svc_HasDataAction_cases [of rs prin v "Some a"]) simp_all

lemma RequireDataAction_None_iff:
  "RequireDataAction rs prin v (Some a) = None
     \<longleftrightarrow> \<not> ae_fails (rsv_env rs) RoleList \<and> role_in_vault rs prin v a"
  unfolding svc_HasDataAction_True_iff [symmetric] RequireDataAction_def
  by (cases rule: svc_HasDataAction_cases [of rs prin v "Some a"]) simp_all

lemma role_assignment_grant_iff:
  "role_assignment_grant (Some rs) prin v wr \<longleftrightarrow> \<not> ae_fails (rsv_env rs) RoleList
     \<and> role_in_vault rs prin v
        (if wr then ActionRoleAssignmentsWrite else ActionRoleAssignmentsDelete)"
  by (simp add: role_assignment_grant_def Let_def allowed_iff)

lemma vault_scoped_manage_eq:
  "svc_CheckVaultScoped ps prin PolicyResourceVaults OpManage v =
     (if psv_fails ps PolFind then Inl PolDbError
      else if manage_denied ps prin v then Inr AccessDenied
      else if vault_allow ps prin v then Inr AccessAllowed
      else Inr AccessFallback)"
  by (simp add: svc_CheckVaultScoped_def CheckVaultScoped_eq manage_denied_def vault_allow_def)

section \<open>Properties\<close>

text \<open>who may manage the role assignments of a vault, completely: a global admin; otherwise, in a
  concrete vault and with no explicit deny on managing it, a caller allowed by a policy of that
  very vault or holding a role there that carries the action.  A global allow never counts, a
  global deny always does, and when the policy lookup fails only the role can admit.\<close>

theorem CanManageRoleAssignments_iff:
  "CanManageRoleAssignments accountRoles (Some ps) (Some rs) prin v wr \<longleftrightarrow>
     RoleAdmin \<in> set accountRoles
     \<or> v \<noteq> uuid_nil
       \<and> \<not> (\<not> psv_fails ps PolFind \<and> manage_denied ps prin v)
       \<and> (\<not> psv_fails ps PolFind \<and> vault_allow ps prin v
          \<or> \<not> ae_fails (rsv_env rs) RoleList \<and> role_in_vault rs prin v
              (if wr then ActionRoleAssignmentsWrite else ActionRoleAssignmentsDelete))"
  unfolding CanManageRoleAssignments_def HasAnyRole_iff vault_scoped_manage_eq
  by (cases "psv_fails ps PolFind"; cases "manage_denied ps prin v"; cases "vault_allow ps prin v";
      cases "v = uuid_nil"; simp add: role_assignment_grant_iff)

text \<open>the authority to create vaults.  A principal with an explicit global deny on managing vaults
  creates none unless it is a global admin, whatever provisioning grant it holds, and a grant
  counts only when no policy decides.\<close>

theorem CanCreateVault_deny_wins:
  "manage_denied ps prin uuid_nil \<and> RoleAdmin \<notin> set accountRoles
     \<Longrightarrow> CanCreateVault accountRoles (Some ps) grants prin = CreateRightNone"
  by (auto simp: CanCreateVault_def HasAnyRole_iff manage_denied_def svc_CheckAccess_def CheckAccess_eq)

lemma CanCreateVault_deny_wins_witness:
  "CanCreateVault [''user'']
     (Some \<lparr>psv_fails = (\<lambda>_. False),
        psv_table = [\<lparr>pol_id = 1, pol_principal = 5, pol_principal_type = PrincipalTypeUser,
          pol_resource = PolicyResourceVaults, pol_operation = OpManage, pol_effect = PolicyEffectDeny,
          pol_vault = None, pol_assignment = None, pol_created = 1\<rparr>]\<rparr>)
     (Some (\<lambda>_. Inr (Some ())) :: unit grant_reader option) 5 = CreateRightNone"
  by (rule CanCreateVault_deny_wins) (simp add: manage_denied_def denied_def applies_def RoleAdmin_def)

end
