(* ===== verification/RBAC.thy ===== *)
theory RBAC
  imports RouteMap VaultAuthz
begin

text \<open>
  The global, vault-blind role permissions
  (\<open>src/internal/services/authorization/rbac_service.go\<close>).  A permission is a
  constructor, Go's empty permission is \<open>None\<close>; an error of
  \<open>ValidateEndpointAccess\<close> carries the permission it names.
\<close>

datatype rbac_permission =
    PermissionCreateSecret | PermissionReadSecret | PermissionUpdateSecret
  | PermissionDeleteSecret | PermissionListSecrets
  | PermissionCreateKey | PermissionReadKey | PermissionUpdateKey
  | PermissionDeleteKey | PermissionListKeys
  | PermissionCreateCertificate | PermissionReadCertificate | PermissionUpdateCertificate
  | PermissionDeleteCertificate | PermissionListCertificates
  | PermissionCreateUser | PermissionReadUser | PermissionUpdateUser
  | PermissionDeleteUser | PermissionListUsers
  | PermissionManageVaults | PermissionManageSystem

definition RoleUser :: go_string where "RoleUser = ''user''"
definition RoleSecretsManager :: go_string where "RoleSecretsManager = ''secrets_manager''"
definition RoleCryptoManager :: go_string where "RoleCryptoManager = ''crypto_manager''"
definition RoleCertificateManager :: go_string where
  "RoleCertificateManager = ''certificate_manager''"
definition RoleServiceAccount :: go_string where "RoleServiceAccount = ''service_account''"

lemmas account_roles = RoleAdmin_def RoleUser_def RoleSecretsManager_def RoleCryptoManager_def
  RoleCertificateManager_def RoleServiceAccount_def

definition getDefaultRolePermissions :: "(go_string \<times> rbac_permission list) list" where
  "getDefaultRolePermissions =
   [(RoleAdmin,
      [PermissionCreateSecret, PermissionReadSecret, PermissionUpdateSecret,
       PermissionDeleteSecret, PermissionListSecrets,
       PermissionCreateKey, PermissionReadKey, PermissionUpdateKey,
       PermissionDeleteKey, PermissionListKeys,
       PermissionCreateCertificate, PermissionReadCertificate, PermissionUpdateCertificate,
       PermissionDeleteCertificate, PermissionListCertificates,
       PermissionCreateUser, PermissionReadUser, PermissionUpdateUser,
       PermissionDeleteUser, PermissionListUsers,
       PermissionManageVaults, PermissionManageSystem]),
    (RoleUser,
      [PermissionReadSecret, PermissionListSecrets, PermissionReadKey, PermissionListKeys,
       PermissionReadCertificate, PermissionListCertificates]),
    (RoleSecretsManager,
      [PermissionCreateSecret, PermissionReadSecret, PermissionUpdateSecret,
       PermissionDeleteSecret, PermissionListSecrets]),
    (RoleCryptoManager,
      [PermissionCreateKey, PermissionReadKey, PermissionUpdateKey,
       PermissionDeleteKey, PermissionListKeys]),
    (RoleCertificateManager,
      [PermissionCreateCertificate, PermissionReadCertificate, PermissionUpdateCertificate,
       PermissionDeleteCertificate, PermissionListCertificates]),
    (RoleServiceAccount,
      [PermissionReadSecret, PermissionListSecrets, PermissionReadKey, PermissionListKeys,
       PermissionReadCertificate, PermissionListCertificates])]"

definition HasPermission :: "go_string \<Rightarrow> rbac_permission \<Rightarrow> bool" where
  "HasPermission role perm =
     (case map_of getDefaultRolePermissions role of
        None \<Rightarrow> False
      | Some perms \<Rightarrow> list_ex (\<lambda>p. p = perm) perms)"

definition GetRolePermissions :: "go_string \<Rightarrow> rbac_permission list" where
  "GetRolePermissions role =
     (case map_of getDefaultRolePermissions role of None \<Rightarrow> [] | Some perms \<Rightarrow> perms)"

definition mapEndpointToPermission :: "go_string \<Rightarrow> go_string \<Rightarrow> rbac_permission option" where
  "mapEndpointToPermission method path =
     (if snd (MapRouteToDataAction method path) = RouteVaultData then None
      else
        let path = trim_prefix path DataPlaneBasePath;
            path = trim_prefix path ''/'' in
        if has_prefix path ''vaults'' then None
        else if has_prefix path ''users'' then
          (if method = MethodPost then Some PermissionCreateUser
           else if method = MethodGet then
             (if contains_str path ''/'' then Some PermissionReadUser else Some PermissionListUsers)
           else if method = MethodPut then Some PermissionUpdateUser
           else if method = MethodDelete then Some PermissionDeleteUser
           else None)
        else None)"

definition ValidateEndpointAccess ::
  "go_string list \<Rightarrow> go_string \<Rightarrow> go_string \<Rightarrow> rbac_permission option" where
  "ValidateEndpointAccess roles method path =
     (case mapEndpointToPermission method path of
        None \<Rightarrow> None
      | Some perm \<Rightarrow> if list_ex (\<lambda>role. HasPermission role perm) roles then None else Some perm)"

section \<open>Lemmas\<close>

definition user_permissions :: "rbac_permission list" where
  "user_permissions = [PermissionCreateUser, PermissionReadUser, PermissionUpdateUser,
     PermissionDeleteUser, PermissionListUsers]"

lemma user_permission_admin:
  assumes "perm \<in> set user_permissions"
  shows "HasPermission r perm \<longleftrightarrow> r = RoleAdmin"
  using assms
  by (auto simp: HasPermission_def getDefaultRolePermissions_def account_roles user_permissions_def
      split: if_splits option.splits)

lemma trim_right_keeps_prefix:
  assumes "p \<noteq> []" "last p \<noteq> c"
  shows "\<exists>r. trim_right c (p @ s) = p @ r"
proof (induction s rule: rev_induct)
  case Nil
  then show ?case
    using assms trim_right_id [of p c] by auto
next
  case (snoc x s)
  show ?case
  proof (cases "x = c")
    case True
    with snoc show ?thesis
      by (simp add: trim_right_def trim_left_def)
  next
    case False
    then show ?thesis
      using trim_right_id [of "p @ s @ [x]" c] by auto
  qed
qed

lemma users_path_unmanaged:
  "MapRouteToDataAction m (''/api/v1/users'' @ s) = (None, RouteUnmanaged)"
proof -
  obtain r where r: "trim_right slash (''users'' @ s) = ''users'' @ r"
    using trim_right_keeps_prefix [of "''users''" slash s] by auto
  have "trim_prefix (''/api/v1/users'' @ s) ''/api/v1'' = slash # ''users'' @ s"
    by (simp add: trim_prefix_def)
  then have "normalizeAuthPath (''/api/v1/users'' @ s) = ''users'' @ r"
    using r by (simp add: normalizeAuthPath_def DataPlaneBasePath_def trim_def trim_left_def)
  then show ?thesis
    by (simp add: MapRouteToDataAction_def mapResourcePath_def cut_prefix_def)
qed

lemma users_path_permission:
  assumes "m \<in> {MethodGet, MethodPost, MethodPut, MethodDelete}"
  obtains perm where "perm \<in> set user_permissions"
    "mapEndpointToPermission m (''/api/v1/users'' @ s) = Some perm"
proof -
  have stripped: "trim_prefix (trim_prefix (''/api/v1/users'' @ s) ''/api/v1'') ''/'' = ''users'' @ s"
    by (simp add: trim_prefix_def)
  have prefixes: "has_prefix (''users'' @ s) ''users''" "\<not> has_prefix (''users'' @ s) ''vaults''"
    by simp_all
  have "\<exists>perm\<in>set user_permissions.
      mapEndpointToPermission m (''/api/v1/users'' @ s) = Some perm"
    unfolding mapEndpointToPermission_def users_path_unmanaged DataPlaneBasePath_def Let_def stripped
    using assms prefixes by (auto simp del: has_prefix_Cons contains_str.simps append_Cons
        simp: user_permissions_def)
  with that show ?thesis
    by blast
qed

text \<open>only the global admin role manages users: any path under \<open>/api/v1/users\<close>, with any of the
  four methods that the users router serves, is admitted by the global gate exactly when the
  caller holds that role.\<close>

theorem users_routes_admin_only:
  "m \<in> {MethodGet, MethodPost, MethodPut, MethodDelete}
     \<Longrightarrow> ValidateEndpointAccess roles m (''/api/v1/users'' @ s) = None \<longleftrightarrow> RoleAdmin \<in> set roles"
  by (rule users_path_permission [of m s])
     (auto simp: ValidateEndpointAccess_def user_permission_admin list_ex_iff)

lemma users_routes_admin_only_witness:
  "ValidateEndpointAccess [''user'', ''admin''] MethodDelete (''/api/v1/users'' @ ''/42'') = None"
  using users_routes_admin_only [of MethodDelete "[''user'', ''admin'']" "''/42''"]
  by (simp add: RoleAdmin_def)

end
