(* ===== verification/PolicyMiddleware.thy ===== *)
theory PolicyMiddleware
  imports RBAC
begin

text \<open>
  The authorization chain of every API request
  (\<open>src/internal/middleware/middleware.go\<close>; \<open>src/api/api.go\<close> fixes its order):
  authentication, vault resolution, the access-policy and role check, and the
  global role gate.

  A middleware is a function of the request and of the values the earlier ones
  put into its context; it calls the next handler with a context or writes a
  status.  The services are the records of \<open>VaultAuthz\<close>, the session check and
  the vault directory are parameters of the call, as are \<open>uuid.Parse\<close> and
  \<open>UUID.String\<close>.
\<close>

section \<open>Paths\<close>

definition publicHealthProbePaths :: "go_string list" where
  "publicHealthProbePaths =
     [DataPlaneBasePath @ ''/health'', DataPlaneBasePath @ ''/health/ready'',
      DataPlaneBasePath @ ''/health/live'']"

definition healthProbePaths :: "go_string list" where
  "healthProbePaths = [DataPlaneBasePath @ ''/health/database''] @ publicHealthProbePaths"

definition publicPaths :: "go_string list" where
  "publicPaths =
     [DataPlaneBasePath @ ''/users/login'', DataPlaneBasePath @ ''/users/refresh'',
      DataPlaneBasePath @ ''/oauth2/token'', DataPlaneBasePath @ ''/oidc/login'',
      DataPlaneBasePath @ ''/oidc/callback'', DataPlaneBasePath @ ''/oidc/cli/exchange'',
      DataPlaneBasePath @ ''/config''] @ publicHealthProbePaths"

definition isHealthProbe :: "go_string \<Rightarrow> bool" where
  "isHealthProbe path \<longleftrightarrow> path \<in> set healthProbePaths"

definition IsPublicPath :: "go_string \<Rightarrow> bool" where
  "IsPublicPath path \<longleftrightarrow> path \<in> set publicPaths"

definition PublicPaths :: "go_string list" where
  "PublicPaths = sort publicPaths"

definition stripVaultNameSegment :: "go_string \<Rightarrow> go_string" where
  "stripVaultNameSegment path =
     (case index_str path ''/vaults/'' of
        None \<Rightarrow> path
      | Some idx \<Rightarrow>
          (let rest = drop (idx + length ''/vaults/'') path in
           case index_str rest ''/'' of
             None \<Rightarrow> path
           | Some sl \<Rightarrow> take (idx + length ''/vaults/'' - 1) path @ drop sl rest))"

definition lastPathSegment :: "go_string \<Rightarrow> go_string" where
  "lastPathSegment path = rev (takeWhile (\<lambda>c. c \<noteq> slash) (rev path))"

text \<open>The operation \<open>switch\<close> of \<open>resolvePolicy\<close>; the empty string when nothing matches.\<close>

definition policy_op :: "go_string \<Rightarrow> go_string \<Rightarrow> policy_operation" where
  "policy_op method seg =
     (if seg = ''purge'' \<and> method = MethodDelete then OpPurge
      else if seg = ''restore'' \<and> method = MethodPost then OpRecover
      else if seg = ''rotate'' \<and> method = MethodPost then OpRotate
      else if seg = ''import'' \<and> method = MethodPost then OpImport
      else if seg = ''renew'' \<and> method = MethodPost then OpRenew
      else if seg = ''sign'' \<and> method = MethodPost then OpSign
      else if seg = ''verify'' \<and> method = MethodPost then OpVerify
      else if seg = ''encrypt'' \<and> method = MethodPost then OpEncrypt
      else if seg = ''decrypt'' \<and> method = MethodPost then OpDecrypt
      else if seg = ''wrap'' \<and> method = MethodPost then OpWrap
      else if seg = ''unwrap'' \<and> method = MethodPost then OpUnwrap
      else if seg = ''backup'' \<and> method = MethodPost then OpBackup
      else if method = MethodGet then OpGet
      else if method = MethodPost then OpCreate
      else if method = MethodPut then OpSet
      else if method = MethodDelete then OpDelete
      else '''')"

definition resolvePolicy :: "go_string \<Rightarrow> go_string \<Rightarrow> policy_resource \<times> policy_operation" where
  "resolvePolicy method path =
     (let matchPath = stripVaultNameSegment path;
          op = policy_op method (lastPathSegment path) in
      if contains_str matchPath ''/secrets'' then (PolicyResourceSecrets, op)
      else if contains_str matchPath ''/keys'' then (PolicyResourceKeys, op)
      else if contains_str matchPath ''/certificates'' then (PolicyResourceCertificates, op)
      else if contains_str matchPath ''/vaults'' then (PolicyResourceVaults, OpManage)
      else ('''', ''''))"

section \<open>Middlewares\<close>

record request =
  rq_method :: go_string
  rq_path :: go_string
  rq_vault_name :: go_string
  rq_authorization :: go_string

text \<open>What earlier middlewares put into the request context.\<close>

record req_ctx =
  cx_user :: "go_string option"
  cx_roles :: "go_string list option"
  cx_vault :: "go_string option"

definition empty_ctx :: req_ctx where
  "empty_ctx = \<lparr>cx_user = None, cx_roles = None, cx_vault = None\<rparr>"

datatype outcome = Next req_ctx | Respond nat

record claims =
  cl_user :: uuid
  cl_roles :: "go_string list"

record vault_view =
  vv_id :: uuid
  vv_name :: go_string
  vv_enabled :: bool

record services =
  sv_parse :: "go_string \<Rightarrow> uuid option"
  sv_show :: "uuid \<Rightarrow> go_string"
  sv_session :: "go_string \<Rightarrow> claims option"
  sv_get_vault :: "go_string \<Rightarrow> vault_view option"
  sv_list_all_vaults :: "vault_view list option"
  sv_vault_limit :: "go_string \<Rightarrow> bool"
  sv_policies :: policy_service
  sv_roles :: role_service

definition AuthenticationMiddleware :: "services \<Rightarrow> request \<Rightarrow> req_ctx \<Rightarrow> outcome" where
  "AuthenticationMiddleware sv rq cx =
     (if IsPublicPath (rq_path rq) then Next cx
      else if rq_authorization rq = '''' then Respond 401
      else if \<not> has_prefix (rq_authorization rq) ''Bearer '' then Respond 401
      else case sv_session sv (trim_prefix (rq_authorization rq) ''Bearer '') of
             None \<Rightarrow> Respond 401
           | Some cl \<Rightarrow>
               Next (cx\<lparr>cx_user := Some (sv_show sv (cl_user cl)), cx_roles := Some (cl_roles cl)\<rparr>))"

definition AuthorizationMiddleware :: "services \<Rightarrow> request \<Rightarrow> req_ctx \<Rightarrow> outcome" where
  "AuthorizationMiddleware sv rq cx =
     (if IsPublicPath (rq_path rq) then Next cx
      else case cx_roles cx of
             None \<Rightarrow> Respond 403
           | Some roles \<Rightarrow>
               if ValidateEndpointAccess roles (rq_method rq) (rq_path rq) \<noteq> None then Respond 403
               else Next cx)"

definition resolveVaultForPurge :: "services \<Rightarrow> go_string \<Rightarrow> uuid option" where
  "resolveVaultForPurge sv name =
     (case sv_list_all_vaults sv of
        None \<Rightarrow> None
      | Some vs \<Rightarrow> map_option vv_id (find (\<lambda>v. vv_name v = name) vs))"

definition is_vault_purge :: "request \<Rightarrow> bool" where
  "is_vault_purge rq \<longleftrightarrow> rq_method rq = MethodDelete \<and> has_suffix (rq_path rq) ''/purge''
     \<and> \<not> contains_str (rq_path rq) ''/deleted/''"

definition VaultResolutionMiddleware :: "services \<Rightarrow> request \<Rightarrow> req_ctx \<Rightarrow> outcome" where
  "VaultResolutionMiddleware sv rq cx =
     (if isHealthProbe (rq_path rq) then Next cx
      else
        let name = (if rq_vault_name rq \<noteq> '''' then rq_vault_name rq else ''default'') in
        if is_vault_purge rq then
          (case resolveVaultForPurge sv name of
             None \<Rightarrow> Respond 404
           | Some i \<Rightarrow> Next (cx\<lparr>cx_vault := Some (sv_show sv i)\<rparr>))
        else
          (case sv_get_vault sv name of
             None \<Rightarrow> Respond 404
           | Some v \<Rightarrow>
               if \<not> vv_enabled v then Respond 403
               else Next (cx\<lparr>cx_vault := Some (sv_show sv (vv_id v))\<rparr>)))"

text \<open>The bucket decision itself is in \<open>RateLimiter\<close>; \<open>sv_vault_limit\<close> is \<open>Allow\<close> of the vault's bucket.\<close>

definition VaultRateLimitMiddleware :: "services \<Rightarrow> request \<Rightarrow> req_ctx \<Rightarrow> outcome" where
  "VaultRateLimitMiddleware sv rq cx =
     (if isHealthProbe (rq_path rq) then Next cx
      else
        let v = (case cx_vault cx of None \<Rightarrow> '''' | Some s \<Rightarrow> s);
            v = (if v = '''' then sv_show sv DefaultVaultID else v) in
        if sv_vault_limit sv v then Next cx else Respond 429)"

definition PolicyMiddleware :: "services \<Rightarrow> request \<Rightarrow> req_ctx \<Rightarrow> outcome" where
  "PolicyMiddleware sv rq cx =
     (let (res, op) = resolvePolicy (rq_method rq) (rq_path rq);
          (action, route) = MapRouteToDataAction (rq_method rq) (rq_path rq) in
      if (res = '''' \<or> op = '''') \<and> route = RouteUnmanaged then Next cx
      else if cx_user cx = None \<or> cx_user cx = Some '''' then Respond 403
      else case sv_parse sv (the (cx_user cx)) of
        None \<Rightarrow> Respond 403
      | Some prin \<Rightarrow>
          (let vs = (case cx_vault cx of None \<Rightarrow> '''' | Some s \<Rightarrow> s);
               vs = (if vs = '''' then sv_show sv DefaultVaultID else vs) in
           case sv_parse sv vs of
             None \<Rightarrow> Respond 403
           | Some v \<Rightarrow>
               (case (if res \<noteq> '''' \<and> op \<noteq> '''' then svc_CheckAccess (sv_policies sv) prin res op v
                      else Inr AccessFallback) of
                  Inl _ \<Rightarrow> Respond 500
                | Inr AccessDenied \<Rightarrow> Respond 403
                | Inr _ \<Rightarrow>
                    if route = RouteVaultData then
                      (if action = None then Respond 403
                       else case svc_HasDataAction (sv_roles sv) prin v action of
                              Inl _ \<Rightarrow> Respond 500
                            | Inr allowed \<Rightarrow> if \<not> allowed then Respond 403 else Next cx)
                    else Next cx)))"

text \<open>The part of the chain of \<open>api.Init\<close> that decides, in its order.\<close>

definition andThen ::
  "(request \<Rightarrow> req_ctx \<Rightarrow> outcome) \<Rightarrow> (request \<Rightarrow> req_ctx \<Rightarrow> outcome) \<Rightarrow> request \<Rightarrow> req_ctx \<Rightarrow> outcome" where
  "andThen f g rq cx = (case f rq cx of Respond s \<Rightarrow> Respond s | Next cx' \<Rightarrow> g rq cx')"

definition auth_chain :: "services \<Rightarrow> request \<Rightarrow> outcome" where
  "auth_chain sv rq =
     andThen (AuthenticationMiddleware sv)
       (andThen (VaultResolutionMiddleware sv)
         (andThen (VaultRateLimitMiddleware sv)
           (andThen (PolicyMiddleware sv)
             (AuthorizationMiddleware sv)))) rq empty_ctx"

section \<open>The contract of a data-plane check\<close>

text \<open>
  Both the middleware and \<open>RequireDataPlaneAccess\<close> decide a data-plane request
  from two sources: explicit denies and role grants, each of which may be
  unreadable.  The contract is that a request is admitted when both can be read,
  nothing denies it and a role grants it.
\<close>

record data_request =
  dr_principal :: uuid
  dr_vault :: uuid
  dr_resource :: policy_resource
  dr_operation :: policy_operation
  dr_action :: data_action

locale data_plane_check =
  fixes readable :: "'svc \<Rightarrow> bool"
    and explicit_deny :: "'svc \<Rightarrow> data_request \<Rightarrow> bool"
    and role_grant :: "'svc \<Rightarrow> data_request \<Rightarrow> bool"
    and admits :: "'svc \<Rightarrow> data_request \<Rightarrow> bool"
    and well_posed :: "'svc \<Rightarrow> data_request \<Rightarrow> bool"
  assumes admits_iff:
    "well_posed s d \<Longrightarrow> admits s d \<longleftrightarrow> readable s \<and> \<not> explicit_deny s d \<and> role_grant s d"
begin

lemma deny_overrides: "well_posed s d \<Longrightarrow> explicit_deny s d \<Longrightarrow> \<not> admits s d"
  by (simp add: admits_iff)

lemma no_grant_no_access: "well_posed s d \<Longrightarrow> \<not> role_grant s d \<Longrightarrow> \<not> admits s d"
  by (simp add: admits_iff)

lemma fails_closed: "well_posed s d \<Longrightarrow> \<not> readable s \<Longrightarrow> \<not> admits s d"
  by (simp add: admits_iff)

lemma admits_mono:
  assumes "well_posed s d" "well_posed s' d" "admits s d" "readable s'"
    and "explicit_deny s' d \<Longrightarrow> explicit_deny s d" "role_grant s d \<Longrightarrow> role_grant s' d"
  shows "admits s' d"
  using assms by (auto simp: admits_iff)

end

section \<open>Lemmas\<close>

definition authority_readable :: "policy_service \<times> role_service \<Rightarrow> bool" where
  "authority_readable s \<longleftrightarrow> \<not> psv_fails (fst s) PolFind \<and> \<not> ae_fails (rsv_env (snd s)) RoleList"

definition authority_denies :: "policy_service \<times> role_service \<Rightarrow> data_request \<Rightarrow> bool" where
  "authority_denies s d \<longleftrightarrow>
     denied (dr_principal d) (dr_resource d) (dr_operation d) (dr_vault d) (psv_table (fst s))"

definition authority_grants :: "policy_service \<times> role_service \<Rightarrow> data_request \<Rightarrow> bool" where
  "authority_grants s d \<longleftrightarrow> role_in_vault (snd s) (dr_principal d) (dr_vault d) (dr_action d)"

lemmas authority_defs = authority_readable_def authority_denies_def authority_grants_def

definition posed :: "data_request \<Rightarrow> bool" where
  "posed d \<longleftrightarrow> dr_resource d \<noteq> [] \<and> dr_operation d \<noteq> []
     \<and> dr_principal d \<noteq> uuid_nil \<and> dr_vault d \<noteq> uuid_nil"

definition cli_admits :: "policy_service \<times> role_service \<Rightarrow> data_request \<Rightarrow> bool" where
  "cli_admits s d \<longleftrightarrow>
     RequireDataPlaneAccess (Some (fst s)) (Some (snd s)) (dr_principal d) (dr_vault d)
       (dr_resource d) (dr_operation d) (Some (dr_action d)) = None"

lemma svc_CheckAccess_split:
  obtains (unreadable) "svc_CheckAccess ps prin res op v = Inl PolDbError" "psv_fails ps PolFind"
  | (denied) "svc_CheckAccess ps prin res op v = Inr AccessDenied" "\<not> psv_fails ps PolFind"
      "denied prin res op v (psv_table ps)"
  | (passed) dec where "svc_CheckAccess ps prin res op v = Inr dec" "dec \<noteq> AccessDenied"
      "\<not> psv_fails ps PolFind" "\<not> denied prin res op v (psv_table ps)"
  by (cases "psv_fails ps PolFind"; cases "denied prin res op v (psv_table ps)";
      cases "list_ex (applies prin res op v) (psv_table ps)")
     (auto simp: svc_CheckAccess_def CheckAccess_eq)

interpretation cli: data_plane_check authority_readable authority_denies authority_grants cli_admits
  "\<lambda>_. posed"
proof
  fix s :: "policy_service \<times> role_service" and d
  assume "posed d"
  then show "cli_admits s d \<longleftrightarrow> authority_readable s \<and> \<not> authority_denies s d \<and> authority_grants s d"
    by (cases rule: svc_CheckAccess_split [of "fst s" "dr_principal d" "dr_resource d"
          "dr_operation d" "dr_vault d"])
       (auto simp: posed_def cli_admits_def RequireDataPlaneAccess_def RequireDataAction_None_iff
          authority_defs split: access_decision.split)
qed

text \<open>The middleware as such a check: the request it sees, and the context that poses it.\<close>

definition request_of :: "services \<Rightarrow> request \<Rightarrow> req_ctx \<Rightarrow> data_request \<Rightarrow> bool" where
  "request_of sv rq cx d \<longleftrightarrow>
     (\<exists>us vs. cx_user cx = Some us \<and> us \<noteq> '''' \<and> sv_parse sv us = Some (dr_principal d)
        \<and> cx_vault cx = Some vs \<and> vs \<noteq> '''' \<and> sv_parse sv vs = Some (dr_vault d))
     \<and> resolvePolicy (rq_method rq) (rq_path rq) = (dr_resource d, dr_operation d)
     \<and> MapRouteToDataAction (rq_method rq) (rq_path rq) = (Some (dr_action d), RouteVaultData)"

lemma policy_middleware_admits:
  assumes "request_of sv rq cx d" "posed d"
  shows "(\<exists>cx'. PolicyMiddleware sv rq cx = Next cx') \<longleftrightarrow>
    authority_readable (sv_policies sv, sv_roles sv)
    \<and> \<not> authority_denies (sv_policies sv, sv_roles sv) d
    \<and> authority_grants (sv_policies sv, sv_roles sv) d"
proof -
  let ?decision = "svc_CheckAccess (sv_policies sv) (dr_principal d) (dr_resource d)
      (dr_operation d) (dr_vault d)"
  let ?has = "svc_HasDataAction (sv_roles sv) (dr_principal d) (dr_vault d) (Some (dr_action d))"
  have eq: "PolicyMiddleware sv rq cx =
      (case ?decision of
         Inl _ \<Rightarrow> Respond 500
       | Inr AccessDenied \<Rightarrow> Respond 403
       | Inr _ \<Rightarrow> (case ?has of Inl _ \<Rightarrow> Respond 500
                   | Inr allowed \<Rightarrow> if \<not> allowed then Respond 403 else Next cx))"
    using assms by (auto simp: PolicyMiddleware_def request_of_def posed_def Let_def
        split: sum.split access_decision.split)
  have has: "?has = Inr True \<longleftrightarrow> \<not> ae_fails (rsv_env (sv_roles sv)) RoleList
      \<and> role_in_vault (sv_roles sv) (dr_principal d) (dr_vault d) (dr_action d)"
    by (rule svc_HasDataAction_True_iff)
  show ?thesis
    unfolding eq
    by (cases rule: svc_CheckAccess_split [of "sv_policies sv" "dr_principal d" "dr_resource d"
          "dr_operation d" "dr_vault d"];
        cases rule: svc_HasDataAction_cases [of "sv_roles sv" "dr_principal d" "dr_vault d"
          "Some (dr_action d)"])
       (use has in \<open>auto simp: authority_defs split: access_decision.split\<close>)
qed

fun is_next :: "outcome \<Rightarrow> bool" where
  "is_next (Next cx) = True"
| "is_next (Respond n) = False"

lemma is_next_iff: "is_next out \<longleftrightarrow> (\<exists>cx. out = Next cx)"
  by (cases out) auto

definition authority_of :: "services \<times> request \<times> req_ctx \<Rightarrow> policy_service \<times> role_service" where
  "authority_of h = (sv_policies (fst h), sv_roles (fst h))"

definition http_admits :: "services \<times> request \<times> req_ctx \<Rightarrow> data_request \<Rightarrow> bool" where
  "http_admits h d \<longleftrightarrow> is_next (PolicyMiddleware (fst h) (fst (snd h)) (snd (snd h)))"

definition http_posed :: "services \<times> request \<times> req_ctx \<Rightarrow> data_request \<Rightarrow> bool" where
  "http_posed h d \<longleftrightarrow> request_of (fst h) (fst (snd h)) (snd (snd h)) d \<and> posed d"

interpretation http: data_plane_check "\<lambda>h. authority_readable (authority_of h)"
  "\<lambda>h. authority_denies (authority_of h)" "\<lambda>h. authority_grants (authority_of h)"
  http_admits http_posed
  by unfold_locales
     (simp add: http_admits_def http_posed_def is_next_iff policy_middleware_admits authority_of_def)

text \<open>What each middleware has established when it calls the next one.\<close>

lemma public_paths_unmanaged:
  "IsPublicPath path \<or> isHealthProbe path \<Longrightarrow> snd (MapRouteToDataAction m path) = RouteUnmanaged"
  by (auto simp: IsPublicPath_def isHealthProbe_def publicPaths_def healthProbePaths_def
      publicHealthProbePaths_def DataPlaneBasePath_def MapRouteToDataAction_def mapResourcePath_def
      normalizeAuthPath_def trim_prefix_def cut_prefix_def trim_def trim_right_def trim_left_def)

lemma authentication_Next:
  assumes "AuthenticationMiddleware sv rq cx = Next cx'" "\<not> IsPublicPath (rq_path rq)"
  obtains cl where "has_prefix (rq_authorization rq) ''Bearer ''"
    "sv_session sv (trim_prefix (rq_authorization rq) ''Bearer '') = Some cl"
    "cx' = cx\<lparr>cx_user := Some (sv_show sv (cl_user cl)), cx_roles := Some (cl_roles cl)\<rparr>"
  using assms
  by (auto simp del: has_prefix_Cons simp: AuthenticationMiddleware_def split: if_splits option.splits)

text \<open>The vault of a request: live and enabled, or any vault of that name for the shape of a vault purge.\<close>

definition resolved_vault :: "services \<Rightarrow> request \<Rightarrow> uuid \<Rightarrow> bool" where
  "resolved_vault sv rq v \<longleftrightarrow>
     (\<exists>vv. sv_get_vault sv
         (if rq_vault_name rq \<noteq> '''' then rq_vault_name rq else ''default'') = Some vv
       \<and> vv_enabled vv \<and> vv_id vv = v)
     \<or> rq_method rq = MethodDelete \<and> has_suffix (rq_path rq) ''/purge''
       \<and> \<not> contains_str (rq_path rq) ''/deleted/''
       \<and> (\<exists>vs vv. sv_list_all_vaults sv = Some vs \<and> vv \<in> set vs \<and> vv_id vv = v
            \<and> vv_name vv = (if rq_vault_name rq \<noteq> '''' then rq_vault_name rq else ''default''))"

lemma resolveVaultForPurge_Some:
  assumes "resolveVaultForPurge sv name = Some v"
  shows "\<exists>vs vv. sv_list_all_vaults sv = Some vs \<and> vv \<in> set vs \<and> vv_id vv = v \<and> vv_name vv = name"
proof -
  obtain vs vv where vs: "sv_list_all_vaults sv = Some vs" "find (\<lambda>v. vv_name v = name) vs = Some vv" "vv_id vv = v"
    using assms by (auto simp: resolveVaultForPurge_def split: option.splits)
  then have "vv \<in> set vs" "vv_name vv = name"
    by (auto simp: find_Some_iff)
  with vs show ?thesis
    by blast
qed

lemma resolution_Next:
  assumes "VaultResolutionMiddleware sv rq cx = Next cx'" "\<not> isHealthProbe (rq_path rq)"
  obtains v where "resolved_vault sv rq v" "cx' = cx\<lparr>cx_vault := Some (sv_show sv v)\<rparr>"
proof (cases "is_vault_purge rq")
  case True
  with assms obtain v where v: "resolveVaultForPurge sv
        (if rq_vault_name rq \<noteq> '''' then rq_vault_name rq else ''default'') = Some v"
      "cx' = cx\<lparr>cx_vault := Some (sv_show sv v)\<rparr>"
    by (auto simp: VaultResolutionMiddleware_def Let_def split: option.splits)
  show ?thesis
    using True resolveVaultForPurge_Some [OF v(1)]
    by (intro that [OF _ v(2)]) (simp only: resolved_vault_def is_vault_purge_def simp_thms)
next
  case False
  with assms obtain vv where vv: "sv_get_vault sv
        (if rq_vault_name rq \<noteq> '''' then rq_vault_name rq else ''default'') = Some vv" "vv_enabled vv"
      "cx' = cx\<lparr>cx_vault := Some (sv_show sv (vv_id vv))\<rparr>"
    by (auto simp: VaultResolutionMiddleware_def Let_def split: option.splits if_splits)
  then have "resolved_vault sv rq (vv_id vv)"
    unfolding resolved_vault_def by blast
  then show ?thesis
    using vv(3) by (rule that)
qed

lemma rate_Next: "VaultRateLimitMiddleware sv rq cx = Next cx' \<Longrightarrow> cx' = cx"
  by (auto simp: VaultRateLimitMiddleware_def Let_def split: if_splits)

lemma policy_Next:
  assumes "PolicyMiddleware sv rq cx = Next cx'"
    and "MapRouteToDataAction (rq_method rq) (rq_path rq) = (a, RouteVaultData)"
    and "cx_user cx = Some us" "us \<noteq> ''''" "sv_parse sv us = Some prin"
    and "cx_vault cx = Some vs" "vs \<noteq> ''''" "sv_parse sv vs = Some v"
    and "resolvePolicy (rq_method rq) (rq_path rq) = (res, op)"
  shows "\<exists>act. a = Some act \<and> role_in_vault (sv_roles sv) prin v act
    \<and> (res \<noteq> '''' \<and> op \<noteq> '''' \<longrightarrow> \<not> denied prin res op v (psv_table (sv_policies sv)))"
proof (cases a)
  case None
  with assms show ?thesis
    by (auto simp: PolicyMiddleware_def Let_def split: if_splits sum.splits access_decision.splits)
next
  case (Some act)
  have "svc_HasDataAction (sv_roles sv) prin v (Some act) = Inr True"
    using assms Some by (cases rule: svc_HasDataAction_cases [of "sv_roles sv" prin v a])
      (auto simp: PolicyMiddleware_def Let_def split: if_splits sum.splits access_decision.splits)
  then have "role_in_vault (sv_roles sv) prin v act"
    using svc_HasDataAction_True_iff by simp
  moreover have "\<not> denied prin res op v (psv_table (sv_policies sv))" if "res \<noteq> ''''" "op \<noteq> ''''"
    using assms that by (cases rule: svc_CheckAccess_split [of "sv_policies sv" prin res op v])
      (auto simp: PolicyMiddleware_def Let_def)
  ultimately show ?thesis
    using Some by blast
qed

section \<open>Properties\<close>

text \<open>C2: the HTTP middleware and the check behind the command line and the schedulers agree.  For a
  data-plane request whose identity and vault are in the context, \<open>PolicyMiddleware\<close> calls the
  handler exactly when \<open>RequireDataPlaneAccess\<close> returns nil for the same principal, vault,
  resource, operation and action.\<close>

theorem http_cli_parity:
  assumes "request_of sv rq cx d" and "posed d"
  shows "is_next (PolicyMiddleware sv rq cx) \<longleftrightarrow>
    RequireDataPlaneAccess (Some (sv_policies sv)) (Some (sv_roles sv)) (dr_principal d) (dr_vault d)
      (dr_resource d) (dr_operation d) (Some (dr_action d)) = None"
  using http.admits_iff [of "(sv, rq, cx)" d] cli.admits_iff [of d "(sv_policies sv, sv_roles sv)"] assms
  by (simp add: http_posed_def http_admits_def cli_admits_def authority_of_def)

text \<open>C1: complete mediation.  When the chain lets a data-plane request through, the caller presented
  a bearer token of a live session, no explicit deny matches, and the caller holds, in the vault the
  request names (or the default vault), a role granting the one action the route maps to.  That
  vault is the one the lookup of live vaults answers with and it is enabled; only for a DELETE whose
  path ends in \<open>/purge\<close> and has no \<open>/deleted/\<close> may it be one of the list of all vaults, where
  a disabled or soft-deleted vault counts too.\<close>

theorem data_plane_complete_mediation:
  assumes "auth_chain sv rq = Next cx"
    and "MapRouteToDataAction (rq_method rq) (rq_path rq) = (a, RouteVaultData)"
    and "resolvePolicy (rq_method rq) (rq_path rq) = (res, op)"
    and "\<forall>u. sv_parse sv (sv_show sv u) = Some u" and "\<forall>u. sv_show sv u \<noteq> ''''"
  shows "\<exists>cl v act. has_prefix (rq_authorization rq) ''Bearer ''
    \<and> sv_session sv (trim_prefix (rq_authorization rq) ''Bearer '') = Some cl
    \<and> ((\<exists>vv. sv_get_vault sv
              (if rq_vault_name rq \<noteq> '''' then rq_vault_name rq else ''default'') = Some vv
            \<and> vv_enabled vv \<and> vv_id vv = v)
       \<or> rq_method rq = MethodDelete \<and> has_suffix (rq_path rq) ''/purge''
         \<and> \<not> contains_str (rq_path rq) ''/deleted/''
         \<and> (\<exists>vs vv. sv_list_all_vaults sv = Some vs \<and> vv \<in> set vs \<and> vv_id vv = v
              \<and> vv_name vv = (if rq_vault_name rq \<noteq> '''' then rq_vault_name rq else ''default'')))
    \<and> a = Some act
    \<and> role_in_vault (sv_roles sv) (cl_user cl) v act
    \<and> (res \<noteq> '''' \<and> op \<noteq> '''' \<longrightarrow> \<not> denied (cl_user cl) res op v (psv_table (sv_policies sv)))"
proof -
  have paths: "\<not> IsPublicPath (rq_path rq)" "\<not> isHealthProbe (rq_path rq)"
    using public_paths_unmanaged [of "rq_path rq" "rq_method rq"] assms(2) by auto
  obtain c1 c2 c3 c4 where c1: "AuthenticationMiddleware sv rq empty_ctx = Next c1"
    and c2: "VaultResolutionMiddleware sv rq c1 = Next c2"
    and c3: "VaultRateLimitMiddleware sv rq c2 = Next c3"
    and c4: "PolicyMiddleware sv rq c3 = Next c4"
    using assms(1) by (auto simp: auth_chain_def andThen_def split: outcome.splits)
  from authentication_Next [OF c1 paths(1)] obtain cl where cl:
    "has_prefix (rq_authorization rq) ''Bearer ''"
    "sv_session sv (trim_prefix (rq_authorization rq) ''Bearer '') = Some cl"
    "c1 = empty_ctx\<lparr>cx_user := Some (sv_show sv (cl_user cl)), cx_roles := Some (cl_roles cl)\<rparr>"
    by blast
  from resolution_Next [OF c2 paths(2)] obtain v where v: "resolved_vault sv rq v"
    "c2 = c1\<lparr>cx_vault := Some (sv_show sv v)\<rparr>"
    by blast
  have "c3 = c2"
    using c3 by (rule rate_Next)
  then have "cx_user c3 = Some (sv_show sv (cl_user cl))" "cx_vault c3 = Some (sv_show sv v)"
    using cl v by simp_all
  from policy_Next [OF c4 assms(2) this(1) _ _ this(2) _ _ assms(3)] assms(4,5) cl(1,2)
    v(1) [unfolded resolved_vault_def]
  show ?thesis
    by blast
qed

section \<open>A concrete request\<close>

text \<open>Witnesses of the two properties: a secret read by a principal with Key Vault Secrets User.\<close>

definition example_show :: "uuid \<Rightarrow> go_string" where
  "example_show u = replicate (Suc (unat u)) CHR ''x''"

definition example_parse :: "go_string \<Rightarrow> uuid option" where
  "example_parse s = Some (of_nat (length s - 1))"

lemma example_parse_show: "example_parse (example_show u) = Some u" "example_show u \<noteq> ''''"
  by (simp_all add: example_parse_def example_show_def)

definition example_services :: services where
  "example_services =
     \<lparr>sv_parse = example_parse, sv_show = example_show,
      sv_session = (\<lambda>t. if t = ''t'' then Some \<lparr>cl_user = 5, cl_roles = [''user'']\<rparr> else None),
      sv_get_vault = (\<lambda>n. if n = ''v'' then Some \<lparr>vv_id = 7, vv_name = ''v'', vv_enabled = True\<rparr> else None),
      sv_list_all_vaults = None, sv_vault_limit = (\<lambda>_. True),
      sv_policies = \<lparr>psv_fails = (\<lambda>_. False), psv_table = []\<rparr>,
      sv_roles = \<lparr>rsv_env = example_env, rsv_state = empty_authz\<lparr>az_roles :=
        [example_assignment\<lparr>ra_role := RoleKeyVaultSecretsUser\<rparr>]\<rparr>\<rparr>\<rparr>"

definition example_request :: request where
  "example_request = \<lparr>rq_method = MethodGet, rq_path = ''/api/v1/vaults/v/secrets/a1'',
     rq_vault_name = ''v'', rq_authorization = ''Bearer t''\<rparr>"

definition example_ctx :: req_ctx where
  "example_ctx = \<lparr>cx_user = Some (example_show 5), cx_roles = Some [''user''],
     cx_vault = Some (example_show 7)\<rparr>"

definition example_data_request :: data_request where
  "example_data_request = \<lparr>dr_principal = 5, dr_vault = 7, dr_resource = PolicyResourceSecrets,
     dr_operation = OpGet, dr_action = ActionSecretsGet\<rparr>"

lemma example_route:
  "MapRouteToDataAction (rq_method example_request) (rq_path example_request)
     = (Some ActionSecretsGet, RouteVaultData)"
  "resolvePolicy (rq_method example_request) (rq_path example_request) = (PolicyResourceSecrets, OpGet)"
  by code_simp+

lemma http_cli_parity_witness:
  "is_next (PolicyMiddleware example_services example_request example_ctx) \<longleftrightarrow>
    RequireDataPlaneAccess (Some (sv_policies example_services)) (Some (sv_roles example_services))
      (dr_principal example_data_request) (dr_vault example_data_request)
      (dr_resource example_data_request) (dr_operation example_data_request)
      (Some (dr_action example_data_request)) = None"
proof (rule http_cli_parity)
  show "request_of example_services example_request example_ctx example_data_request"
    unfolding request_of_def example_route
    by (simp add: example_ctx_def example_data_request_def example_services_def example_parse_show)
  show "posed example_data_request"
    by code_simp
qed

lemma data_plane_complete_mediation_witness:
  "\<exists>cl v act. has_prefix (rq_authorization example_request) ''Bearer ''
    \<and> sv_session example_services (trim_prefix (rq_authorization example_request) ''Bearer '') = Some cl
    \<and> ((\<exists>vv. sv_get_vault example_services
              (if rq_vault_name example_request \<noteq> '''' then rq_vault_name example_request else ''default'') = Some vv
            \<and> vv_enabled vv \<and> vv_id vv = v)
       \<or> rq_method example_request = MethodDelete \<and> has_suffix (rq_path example_request) ''/purge''
         \<and> \<not> contains_str (rq_path example_request) ''/deleted/''
         \<and> (\<exists>vs vv. sv_list_all_vaults example_services = Some vs \<and> vv \<in> set vs \<and> vv_id vv = v
              \<and> vv_name vv = (if rq_vault_name example_request \<noteq> '''' then rq_vault_name example_request else ''default'')))
    \<and> Some ActionSecretsGet = Some act
    \<and> role_in_vault (sv_roles example_services) (cl_user cl) v act
    \<and> (PolicyResourceSecrets \<noteq> '''' \<and> OpGet \<noteq> ''''
       \<longrightarrow> \<not> denied (cl_user cl) PolicyResourceSecrets OpGet v (psv_table (sv_policies example_services)))"
proof (rule data_plane_complete_mediation [OF _ example_route])
  show "auth_chain example_services example_request
      = Next (case auth_chain example_services example_request of Next cx \<Rightarrow> cx | _ \<Rightarrow> empty_ctx)"
    by code_simp
qed (simp_all add: example_services_def example_parse_show)

end
