(* ===== verification/CircuitBreaker.thy ===== *)
theory CircuitBreaker
  imports Prelude
begin

text \<open>
  The circuit breaker (\<open>src/internal/retry/retry.go\<close>).  A call of \<open>Execute\<close> is
  two atomic steps, as in the code: \<open>admit\<close> under the lock, then, after the
  protected function has run, the critical section that applies its outcome.
  Between them other calls interleave, so the system state holds the breaker
  and the number of admitted calls of each kind that have not finished.

  Instants and durations are integers; \<open>time.Since\<close> is a difference.  What the
  function returned is its \<open>outcome\<close> under the classifier.
\<close>

datatype circuit_state = StateClosed | StateOpen | StateHalfOpen

record cb_config =
  FailureThreshold :: int
  Timeout :: int
  HalfOpenRequests :: int

record breaker =
  cb_failures :: int
  cb_lastFailure :: instant
  cb_state :: circuit_state
  cb_halfOpenCount :: int

definition NewCircuitBreaker :: breaker where
  "NewCircuitBreaker = \<lparr>cb_failures = 0, cb_lastFailure = 0, cb_state = StateClosed, cb_halfOpenCount = 0\<rparr>"

definition DefaultCircuitBreaker :: cb_config where
  "DefaultCircuitBreaker = \<lparr>FailureThreshold = 5, Timeout = 60 * 1000000000, HalfOpenRequests = 3\<rparr>"

text \<open>\<open>validateCircuitBreakerConfig\<close> of \<open>config.go\<close>; \<open>True\<close> is the nil error.\<close>

definition validateCircuitBreakerConfig :: "cb_config \<Rightarrow> bool" where
  "validateCircuitBreakerConfig cfg \<longleftrightarrow>
     \<not> FailureThreshold cfg < 1 \<and> \<not> Timeout cfg \<le> 0 \<and> \<not> HalfOpenRequests cfg < 1"

section \<open>The critical sections\<close>

datatype admission = Refused | AdmittedClosed | AdmittedTrial

definition admit :: "cb_config \<Rightarrow> instant \<Rightarrow> breaker \<Rightarrow> admission \<times> breaker" where
  "admit cfg now cb =
     (case cb_state cb of
        StateClosed \<Rightarrow> (AdmittedClosed, cb)
      | StateOpen \<Rightarrow>
          if now - cb_lastFailure cb < Timeout cfg then (Refused, cb)
          else (AdmittedTrial, cb\<lparr>cb_state := StateHalfOpen, cb_halfOpenCount := 1\<rparr>)
      | StateHalfOpen \<Rightarrow>
          if cb_halfOpenCount cb \<ge> HalfOpenRequests cfg then (Refused, cb)
          else (AdmittedTrial, cb\<lparr>cb_halfOpenCount := cb_halfOpenCount cb + 1\<rparr>))"

text \<open>The function returned nil, an error the classifier counts, or one it rejects.\<close>

datatype fn_outcome = FnOk | FnCounted | FnIgnored

definition recordFailure :: "cb_config \<Rightarrow> instant \<Rightarrow> breaker \<Rightarrow> breaker" where
  "recordFailure cfg now cb =
     (let cb = cb\<lparr>cb_failures := cb_failures cb + 1, cb_lastFailure := now\<rparr> in
      if cb_failures cb \<ge> FailureThreshold cfg then cb\<lparr>cb_state := StateOpen\<rparr> else cb)"

definition recordSuccess :: "breaker \<Rightarrow> breaker" where
  "recordSuccess cb = cb\<lparr>cb_failures := 0\<rparr>"

definition executeClosed :: "cb_config \<Rightarrow> instant \<Rightarrow> fn_outcome \<Rightarrow> breaker \<Rightarrow> breaker" where
  "executeClosed cfg now out cb =
     (case out of
        FnOk \<Rightarrow> recordSuccess cb
      | FnCounted \<Rightarrow> recordFailure cfg now cb
      | FnIgnored \<Rightarrow> cb)"

definition finishHalfOpen :: "cb_config \<Rightarrow> instant \<Rightarrow> fn_outcome \<Rightarrow> breaker \<Rightarrow> breaker" where
  "finishHalfOpen cfg now out cb =
     (case out of
        FnIgnored \<Rightarrow>
          if cb_state cb = StateHalfOpen \<and> cb_halfOpenCount cb > 0
          then cb\<lparr>cb_halfOpenCount := cb_halfOpenCount cb - 1\<rparr> else cb
      | FnCounted \<Rightarrow>
          cb\<lparr>cb_failures := cb_failures cb + 1, cb_lastFailure := now,
             cb_state := StateOpen, cb_halfOpenCount := 0\<rparr>
      | FnOk \<Rightarrow>
          if cb_halfOpenCount cb \<ge> HalfOpenRequests cfg
          then cb\<lparr>cb_state := StateClosed, cb_failures := 0, cb_halfOpenCount := 0\<rparr>
          else cb)"

text \<open>One call with nothing interleaved: \<open>ExecuteClassified\<close>; the flag says whether the function ran.\<close>

definition ExecuteClassified ::
  "cb_config \<Rightarrow> instant \<Rightarrow> instant \<Rightarrow> fn_outcome \<Rightarrow> breaker \<Rightarrow> bool \<times> breaker" where
  "ExecuteClassified cfg t0 t1 out cb =
     (case admit cfg t0 cb of
        (Refused, cb') \<Rightarrow> (False, cb')
      | (AdmittedTrial, cb') \<Rightarrow> (True, finishHalfOpen cfg t1 out cb')
      | (AdmittedClosed, cb') \<Rightarrow> (True, executeClosed cfg t1 out cb'))"

section \<open>Interleaved calls\<close>

record cb_system =
  sys_breaker :: breaker
  sys_closed :: nat
  sys_trials :: nat

definition cb_init :: cb_system where
  "cb_init = \<lparr>sys_breaker = NewCircuitBreaker, sys_closed = 0, sys_trials = 0\<rparr>"

datatype cb_event = Call instant | DoneClosed instant fn_outcome | DoneTrial instant fn_outcome

definition count_admission :: "admission \<Rightarrow> cb_system \<Rightarrow> cb_system" where
  "count_admission a sy =
     (case a of
        Refused \<Rightarrow> sy
      | AdmittedClosed \<Rightarrow> sy\<lparr>sys_closed := Suc (sys_closed sy)\<rparr>
      | AdmittedTrial \<Rightarrow> sy\<lparr>sys_trials := Suc (sys_trials sy)\<rparr>)"

text \<open>A call can only finish when one of its kind is in flight.\<close>

inductive cb_trans :: "cb_config \<Rightarrow> cb_system \<Rightarrow> cb_event \<Rightarrow> cb_system \<Rightarrow> bool" for cfg where
  call: "admit cfg t (sys_breaker sy) = (a, cb) \<Longrightarrow>
     cb_trans cfg sy (Call t) (count_admission a (sy\<lparr>sys_breaker := cb\<rparr>))"
| done_closed: "sys_closed sy = Suc n \<Longrightarrow>
     cb_trans cfg sy (DoneClosed t out)
       (sy\<lparr>sys_breaker := executeClosed cfg t out (sys_breaker sy), sys_closed := n\<rparr>)"
| done_trial: "sys_trials sy = Suc n \<Longrightarrow>
     cb_trans cfg sy (DoneTrial t out)
       (sy\<lparr>sys_breaker := finishHalfOpen cfg t out (sys_breaker sy), sys_trials := n\<rparr>)"

inductive cb_reachable :: "cb_config \<Rightarrow> cb_system \<Rightarrow> bool" for cfg where
  init: "cb_reachable cfg cb_init"
| step: "cb_reachable cfg sy \<Longrightarrow> cb_trans cfg sy e sy' \<Longrightarrow> cb_reachable cfg sy'"

inductive_cases cb_trans_CallE: "cb_trans cfg sy (Call t) sy'"

text \<open>An executable run of events; \<open>None\<close> when an event is not enabled.\<close>

fun cb_exec :: "cb_config \<Rightarrow> cb_event \<Rightarrow> cb_system \<Rightarrow> cb_system option" where
  "cb_exec cfg (Call t) sy =
     (case admit cfg t (sys_breaker sy) of (a, cb) \<Rightarrow> Some (count_admission a (sy\<lparr>sys_breaker := cb\<rparr>)))"
| "cb_exec cfg (DoneClosed t out) sy =
     (case sys_closed sy of
        0 \<Rightarrow> None
      | Suc n \<Rightarrow> Some (sy\<lparr>sys_breaker := executeClosed cfg t out (sys_breaker sy), sys_closed := n\<rparr>))"
| "cb_exec cfg (DoneTrial t out) sy =
     (case sys_trials sy of
        0 \<Rightarrow> None
      | Suc n \<Rightarrow> Some (sy\<lparr>sys_breaker := finishHalfOpen cfg t out (sys_breaker sy), sys_trials := n\<rparr>))"

fun cb_run :: "cb_config \<Rightarrow> cb_event list \<Rightarrow> cb_system \<Rightarrow> cb_system option" where
  "cb_run cfg [] sy = Some sy"
| "cb_run cfg (e # es) sy = (case cb_exec cfg e sy of None \<Rightarrow> None | Some sy' \<Rightarrow> cb_run cfg es sy')"

lemma cb_exec_trans: "cb_exec cfg e sy = Some sy' \<Longrightarrow> cb_trans cfg sy e sy'"
  by (cases e) (auto split: prod.splits nat.splits intro: cb_trans.intros)

lemma cb_run_reachable:
  "cb_reachable cfg sy \<Longrightarrow> cb_run cfg es sy = Some sy' \<Longrightarrow> cb_reachable cfg sy'"
  by (induction es arbitrary: sy) (auto split: option.splits intro: cb_reachable.step cb_exec_trans)

section \<open>The invariant\<close>

definition breaker_inv :: "cb_config \<Rightarrow> breaker \<Rightarrow> bool" where
  "breaker_inv cfg cb \<longleftrightarrow>
     0 \<le> cb_failures cb \<and> 0 \<le> cb_halfOpenCount cb \<and> cb_halfOpenCount cb \<le> HalfOpenRequests cfg
     \<and> (cb_state cb = StateClosed \<longrightarrow> cb_failures cb < FailureThreshold cfg)"

text \<open>A half-open breaker whose slots are all taken has a trial in flight.\<close>

definition system_inv :: "cb_config \<Rightarrow> cb_system \<Rightarrow> bool" where
  "system_inv cfg sy \<longleftrightarrow>
     breaker_inv cfg (sys_breaker sy)
     \<and> (cb_state (sys_breaker sy) = StateHalfOpen
        \<and> cb_halfOpenCount (sys_breaker sy) \<ge> HalfOpenRequests cfg \<longrightarrow> sys_trials sy > 0)"

lemmas breaker_defs = breaker_inv_def validateCircuitBreakerConfig_def

lemma init_inv: "validateCircuitBreakerConfig cfg \<Longrightarrow> system_inv cfg cb_init"
  by (simp add: system_inv_def breaker_defs cb_init_def NewCircuitBreaker_def)

lemma call_inv:
  assumes "validateCircuitBreakerConfig cfg" "system_inv cfg sy" "admit cfg t (sys_breaker sy) = (a, cb)"
  shows "system_inv cfg (count_admission a (sy\<lparr>sys_breaker := cb\<rparr>))"
  using assms
  by (auto simp: system_inv_def breaker_defs admit_def count_admission_def
      split: circuit_state.splits if_splits)

lemma done_closed_inv:
  assumes "validateCircuitBreakerConfig cfg" "system_inv cfg sy"
  shows "system_inv cfg (sy\<lparr>sys_breaker := executeClosed cfg t out (sys_breaker sy), sys_closed := n\<rparr>)"
  using assms
  by (cases out) (auto simp: system_inv_def breaker_defs executeClosed_def recordSuccess_def
      recordFailure_def Let_def)

lemma done_trial_inv:
  assumes "validateCircuitBreakerConfig cfg" "system_inv cfg sy"
  shows "system_inv cfg (sy\<lparr>sys_breaker := finishHalfOpen cfg t out (sys_breaker sy), sys_trials := n\<rparr>)"
  using assms
  by (cases out) (auto simp: system_inv_def breaker_defs finishHalfOpen_def)

lemma trans_inv:
  assumes "validateCircuitBreakerConfig cfg" "cb_trans cfg sy e sy'" "system_inv cfg sy"
  shows "system_inv cfg sy'"
  using assms(2,1,3)
  by (induction rule: cb_trans.induct) (auto intro: call_inv done_closed_inv done_trial_inv)

lemma reachable_inv:
  "cb_reachable cfg sy \<Longrightarrow> validateCircuitBreakerConfig cfg \<Longrightarrow> system_inv cfg sy"
  by (induction rule: cb_reachable.induct) (auto intro: init_inv trans_inv)

section \<open>Properties\<close>

text \<open>C8: in every interleaving of any number of callers, a valid breaker is well formed: half-open slots
  never exceed \<open>HalfOpenRequests\<close>, a closed breaker has seen fewer consecutive failures than the
  threshold, and a half-open breaker with no slot left has a trial in flight that will decide.\<close>

theorem breaker_invariant:
  assumes "validateCircuitBreakerConfig cfg" and "cb_reachable cfg sy"
  shows "0 \<le> cb_halfOpenCount (sys_breaker sy)
    \<and> cb_halfOpenCount (sys_breaker sy) \<le> HalfOpenRequests cfg
    \<and> (cb_state (sys_breaker sy) = StateClosed
        \<longrightarrow> cb_failures (sys_breaker sy) < FailureThreshold cfg)
    \<and> (cb_state (sys_breaker sy) = StateHalfOpen
        \<and> cb_halfOpenCount (sys_breaker sy) \<ge> HalfOpenRequests cfg \<longrightarrow> sys_trials sy > 0)"
  using reachable_inv [OF assms(2,1)] by (simp add: system_inv_def breaker_inv_def)

text \<open>A breaker that trips after one failure, with one trial slot and a timeout of 10.\<close>

definition small_config :: cb_config where
  "small_config = \<lparr>FailureThreshold = 1, Timeout = 10, HalfOpenRequests = 1\<rparr>"

lemma small_config_valid: "validateCircuitBreakerConfig small_config"
  by (simp add: small_config_def validateCircuitBreakerConfig_def)

text \<open>Two calls admitted while closed; the first fails and trips the breaker, at 20 a trial starts.\<close>

definition tripped_system :: cb_system where
  "tripped_system = the (cb_run small_config
     [Call 0, Call 0, DoneClosed 5 FnCounted, Call 20] cb_init)"

lemma tripped_run:
  "cb_run small_config [Call 0, Call 0, DoneClosed 5 FnCounted, Call 20] cb_init = Some tripped_system"
  by code_simp

lemma tripped_reachable: "cb_reachable small_config tripped_system"
  by (rule cb_run_reachable [OF cb_reachable.init tripped_run])

lemma breaker_invariant_witness:
  "cb_state (sys_breaker tripped_system) = StateHalfOpen \<and> sys_trials tripped_system > 0"
proof -
  have "cb_state (sys_breaker tripped_system) = StateHalfOpen"
    and "cb_halfOpenCount (sys_breaker tripped_system) \<ge> HalfOpenRequests small_config"
    by code_simp+
  then show ?thesis
    using breaker_invariant [OF small_config_valid tripped_reachable] by simp
qed

text \<open>C9: the breaker never wedges.  In any reachable state with no trial in flight, a call made once the
  timeout since the last counted failure has passed is admitted, whatever happened before.\<close>

theorem breaker_recovers:
  assumes "validateCircuitBreakerConfig cfg" and "cb_reachable cfg sy" and "sys_trials sy = 0"
    and "now - cb_lastFailure (sys_breaker sy) \<ge> Timeout cfg"
  shows "fst (admit cfg now (sys_breaker sy)) \<noteq> Refused"
  using reachable_inv [OF assms(2,1)] assms(3,4)
  by (auto simp: admit_def system_inv_def split: circuit_state.splits)

lemma breaker_recovers_witness:
  "fst (admit small_config 100 (sys_breaker
     (the (cb_run small_config [Call 0, DoneClosed 5 FnCounted] cb_init)))) \<noteq> Refused"
proof -
  let ?sy = "the (cb_run small_config [Call 0, DoneClosed 5 FnCounted] cb_init)"
  have "cb_run small_config [Call 0, DoneClosed 5 FnCounted] cb_init = Some ?sy"
    by code_simp
  then have "cb_reachable small_config ?sy"
    by (rule cb_run_reachable [OF cb_reachable.init])
  moreover have "sys_trials ?sy = 0" "100 - cb_lastFailure (sys_breaker ?sy) \<ge> Timeout small_config"
    by code_simp+
  ultimately show ?thesis
    using breaker_recovers [OF small_config_valid] by blast
qed

text \<open>while open and inside the timeout the protected function is not called: the call is refused
  and the breaker is unchanged.  Conversely a closed breaker trips exactly at the threshold: the
  counted failure that brings the count to \<open>FailureThreshold\<close> opens it, and no earlier one does.\<close>

theorem breaker_trips_and_holds:
  "(cb_state cb = StateOpen \<and> t0 - cb_lastFailure cb < Timeout cfg
      \<longrightarrow> ExecuteClassified cfg t0 t1 out cb = (False, cb))
   \<and> (cb_state cb = StateClosed
      \<longrightarrow> (cb_state (snd (ExecuteClassified cfg t0 t1 out cb)) = StateOpen
            \<longleftrightarrow> out = FnCounted \<and> cb_failures cb + 1 \<ge> FailureThreshold cfg))"
  by (cases out) (simp_all add: ExecuteClassified_def admit_def executeClosed_def recordSuccess_def
      recordFailure_def Let_def)

lemma breaker_trips_and_holds_witness:
  "cb_state (snd (ExecuteClassified DefaultCircuitBreaker 1 2 FnCounted
     (NewCircuitBreaker\<lparr>cb_failures := 4\<rparr>))) = StateOpen
   \<and> ExecuteClassified DefaultCircuitBreaker 9 9 FnOk
      (NewCircuitBreaker\<lparr>cb_failures := 5, cb_state := StateOpen, cb_lastFailure := 2\<rparr>)
     = (False, NewCircuitBreaker\<lparr>cb_failures := 5, cb_state := StateOpen, cb_lastFailure := 2\<rparr>)"
  using breaker_trips_and_holds [of "NewCircuitBreaker\<lparr>cb_failures := 4\<rparr>" 1 DefaultCircuitBreaker 2 FnCounted]
    breaker_trips_and_holds [of "NewCircuitBreaker\<lparr>cb_failures := 5, cb_state := StateOpen, cb_lastFailure := 2\<rparr>"
      9 DefaultCircuitBreaker 9 FnOk]
  by (simp add: NewCircuitBreaker_def DefaultCircuitBreaker_def)

text \<open>C10: a defect of the half-open trial: a trial's success is applied without looking at the state.  In
  this reachable state a call admitted before the trip fails late and opens the breaker again;
  the trial then succeeds and closes it at once, inside the timeout.\<close>

theorem stale_trial_closes_open_breaker:
  "\<exists>sy sy'. cb_reachable small_config sy
     \<and> cb_state (sys_breaker sy) = StateOpen \<and> 21 - cb_lastFailure (sys_breaker sy) < Timeout small_config
     \<and> cb_trans small_config sy (DoneTrial 21 FnOk) sy' \<and> cb_state (sys_breaker sy') = StateClosed"
proof -
  let ?es = "[Call 0, Call 0, DoneClosed 5 FnCounted, Call 20, DoneClosed 21 FnCounted]"
  let ?sy = "the (cb_run small_config ?es cb_init)"
  let ?sy' = "the (cb_exec small_config (DoneTrial 21 FnOk) ?sy)"
  have "cb_run small_config ?es cb_init = Some ?sy"
    by code_simp
  then have "cb_reachable small_config ?sy"
    by (rule cb_run_reachable [OF cb_reachable.init])
  moreover have "cb_exec small_config (DoneTrial 21 FnOk) ?sy = Some ?sy'"
    by code_simp
  then have "cb_trans small_config ?sy (DoneTrial 21 FnOk) ?sy'"
    by (rule cb_exec_trans)
  moreover have "cb_state (sys_breaker ?sy) = StateOpen"
      "21 - cb_lastFailure (sys_breaker ?sy) < Timeout small_config"
      "cb_state (sys_breaker ?sy') = StateClosed"
    by code_simp+
  ultimately show ?thesis
    by blast
qed

text \<open>The documented cap on concurrent trials holds per half-open round only: a trial that outlives its
  round is not counted in the next one.\<close>

lemma trials_exceed_cap:
  "\<exists>sy. cb_reachable \<lparr>FailureThreshold = 1, Timeout = 10, HalfOpenRequests = 2\<rparr> sy \<and> sys_trials sy > 2"
proof -
  let ?cfg = "\<lparr>FailureThreshold = 1, Timeout = 10, HalfOpenRequests = 2\<rparr>"
  let ?es = "[Call 0, DoneClosed 5 FnCounted, Call 20, Call 20, DoneTrial 21 FnCounted, Call 40, Call 40]"
  let ?sy = "the (cb_run ?cfg ?es cb_init)"
  have "cb_run ?cfg ?es cb_init = Some ?sy"
    by code_simp
  then have "cb_reachable ?cfg ?sy"
    by (rule cb_run_reachable [OF cb_reachable.init])
  moreover have "sys_trials ?sy > 2"
    by code_simp
  ultimately show ?thesis
    by blast
qed

end
