(* ===== verification/Float64.thy ===== *)
theory Float64
  imports Complex_Main "HOL-Library.Log_Nat"
begin

text \<open>
  Go's \<open>float64\<close>: IEEE 754 binary64, rounding to nearest with ties to even.

  A finite value is a rational; the sign of a zero is left out, as no operation here can tell it.  The
  finite values are multiples of \<open>2 ^ -1074\<close> with at most 53 significant bits: rounding scales by
  \<open>2 ^ scale_bits\<close>, drops the bits beyond the first 53 and scales back, which covers subnormal results too.
\<close>

datatype float64 = NaN | PInf | NInf | Fin rat

section \<open>Rounding\<close>

definition rne :: "rat \<Rightarrow> int" where
  "rne q =
     (let n = \<lfloor>q\<rfloor>; f = q - of_int n in
      if f < 1 / 2 \<or> f = 1 / 2 \<and> even n then n else n + 1)"

text \<open>The exponent \<open>e\<close> with \<open>2 ^ (e - 1) \<le> \<bar>x\<bar> < 2 ^ e\<close>, and the exponent of the last bit that is kept.\<close>

definition bit_exp :: "rat \<Rightarrow> int" where
  "bit_exp x =
     (let (a, b) = quotient_of \<bar>x\<bar>; l = bitlen a - bitlen b in
      if \<bar>x\<bar> < 2 powi l then l else l + 1)"

definition ulp_exp :: "rat \<Rightarrow> int" where
  "ulp_exp x = max (bit_exp x - 53) (- 1074)"

definition round64 :: "rat \<Rightarrow> float64" where
  "round64 x =
     (let u = ulp_exp x; n = rne (x / 2 powi u) in
      if bitlen \<bar>n\<bar> + u \<le> 1024 then Fin (of_int n * 2 powi u)
      else if n > 0 then PInf else NInf)"

section \<open>Arithmetic, comparison and conversion\<close>

text \<open>An infinity times \<open>x\<close>, by the sign of \<open>x\<close>.\<close>

definition inf_times :: "float64 \<Rightarrow> float64 \<Rightarrow> rat \<Rightarrow> float64" where
  "inf_times i j x = (if x = 0 then NaN else if x > 0 then i else j)"

fun fmul :: "float64 \<Rightarrow> float64 \<Rightarrow> float64" where
  "fmul NaN _ = NaN"
| "fmul _ NaN = NaN"
| "fmul (Fin x) (Fin y) = round64 (x * y)"
| "fmul (Fin x) PInf = inf_times PInf NInf x"
| "fmul (Fin x) NInf = inf_times NInf PInf x"
| "fmul PInf (Fin x) = inf_times PInf NInf x"
| "fmul NInf (Fin x) = inf_times NInf PInf x"
| "fmul PInf PInf = PInf"
| "fmul PInf NInf = NInf"
| "fmul NInf PInf = NInf"
| "fmul NInf NInf = PInf"

fun fadd :: "float64 \<Rightarrow> float64 \<Rightarrow> float64" where
  "fadd NaN _ = NaN"
| "fadd _ NaN = NaN"
| "fadd (Fin x) (Fin y) = round64 (x + y)"
| "fadd (Fin x) i = i"
| "fadd i (Fin x) = i"
| "fadd PInf PInf = PInf"
| "fadd NInf NInf = NInf"
| "fadd PInf NInf = NaN"
| "fadd NInf PInf = NaN"

fun fless :: "float64 \<Rightarrow> float64 \<Rightarrow> bool" where
  "fless NaN _ = False"
| "fless _ NaN = False"
| "fless (Fin x) (Fin y) = (x < y)"
| "fless (Fin x) i = (i = PInf)"
| "fless i (Fin x) = (i = NInf)"
| "fless i j = (i = NInf \<and> j = PInf)"

definition float64_of_int :: "int \<Rightarrow> float64" where
  "float64_of_int i = round64 (of_int i)"

text \<open>The conversion to \<open>int64\<close> drops the fraction.  What it makes of a value out of range is left to the
  implementation; this is the one of amd64.\<close>

definition trunc :: "rat \<Rightarrow> int" where
  "trunc q = (if q < 0 then \<lceil>q\<rceil> else \<lfloor>q\<rfloor>)"

definition int64_of_float64 :: "float64 \<Rightarrow> int" where
  "int64_of_float64 x =
     (case x of
        Fin q \<Rightarrow> (if - (2 ^ 63) \<le> trunc q \<and> trunc q < 2 ^ 63 then trunc q else - (2 ^ 63))
      | _ \<Rightarrow> - (2 ^ 63))"

section \<open>\<open>math.Pow\<close> with a whole exponent\<close>

text \<open>\<open>Frexp\<close> of a finite value that is not zero: a fraction of magnitude between 1/2 and 1, and an exponent.\<close>

definition Frexp :: "rat \<Rightarrow> rat \<times> int" where
  "Frexp x = (x / 2 powi bit_exp x, bit_exp x)"

definition Ldexp :: "float64 \<Rightarrow> int \<Rightarrow> float64" where
  "Ldexp a e = (case a of Fin x \<Rightarrow> round64 (x * 2 powi e) | _ \<Rightarrow> a)"

text \<open>The loop over the bits of the exponent: the answer so far is \<open>a1 * 2 ^ ae\<close>, the current power \<open>x1 * 2 ^ xe\<close>.\<close>

fun pow_loop :: "nat \<Rightarrow> float64 \<Rightarrow> int \<Rightarrow> float64 \<Rightarrow> int \<Rightarrow> float64 \<times> int" where
  "pow_loop i a1 ae x1 xe =
     (if i = 0 then (a1, ae)
      else if xe < - 4096 \<or> 4096 < xe then (a1, ae + xe)
      else
        let (a1, ae) = (if odd i then (fmul a1 x1, ae + xe) else (a1, ae));
            x1 = fmul x1 x1; xe = 2 * xe;
            (x1, xe) = (if fless x1 (Fin (1 / 2)) then (fadd x1 x1, xe - 1) else (x1, xe)) in
        pow_loop (i div 2) a1 ae x1 xe)"

definition Pow :: "float64 \<Rightarrow> nat \<Rightarrow> float64" where
  "Pow x n =
     (if n = 0 \<or> x = Fin 1 then Fin 1
      else if n = 1 then x
      else case x of
        NaN \<Rightarrow> NaN
      | PInf \<Rightarrow> PInf
      | NInf \<Rightarrow> if odd n then NInf else PInf
      | Fin q \<Rightarrow>
          if q = 0 then Fin 0
          else let (x1, xe) = Frexp q; (a1, ae) = pow_loop n (Fin 1) 0 (Fin x1) xe in Ldexp a1 ae)"

section \<open>Rounding is monotone and exact on the grid\<close>

text \<open>The lemmas use a second form of the rounding, which first scales by \<open>2 ^ 1074\<close>.\<close>

definition scale_bits :: nat where "scale_bits = 1074"
definition max_bits :: nat where "max_bits = 1024"

definition dropped_bits :: "rat \<Rightarrow> nat" where
  "dropped_bits y = floorlog 2 (nat \<lfloor>\<bar>y\<bar>\<rfloor>) - 53"

definition round_scaled :: "rat \<Rightarrow> int" where
  "round_scaled y = rne (y / 2 ^ dropped_bits y) * 2 ^ dropped_bits y"

lemma rne_of_int [simp]: "rne (of_int i) = i"
  by (simp add: rne_def)

lemma rne_cases: "rne q = \<lfloor>q\<rfloor> \<or> rne q = \<lfloor>q\<rfloor> + 1"
  by (simp add: rne_def Let_def)

lemma rne_mono:
  assumes "p \<le> q"
  shows "rne p \<le> rne q"
proof (cases "\<lfloor>p\<rfloor> = \<lfloor>q\<rfloor>")
  case True
  with assms show ?thesis
    by (auto simp: rne_def Let_def)
next
  case False
  with floor_mono [OF assms] have "\<lfloor>p\<rfloor> + 1 \<le> \<lfloor>q\<rfloor>"
    by simp
  then show ?thesis
    using rne_cases [of p] rne_cases [of q] by auto
qed

lemma rne_le: "q \<le> of_int i \<Longrightarrow> rne q \<le> i"
  using rne_mono [of q "of_int i"] by simp

lemma rne_ge: "of_int i \<le> q \<Longrightarrow> i \<le> rne q"
  using rne_mono [of "of_int i" q] by simp

lemma rne_far: "2 ^ 52 \<le> \<bar>q\<bar> \<Longrightarrow> 1 \<le> q \<or> q \<le> - 1" for q :: rat
  by (cases "0 \<le> q") simp_all

lemma dropped_bits_upper: "\<bar>y\<bar> < 2 ^ (53 + dropped_bits y)"
proof -
  let ?n = "nat \<lfloor>\<bar>y\<bar>\<rfloor>"
  have "?n < 2 ^ floorlog 2 ?n"
    using floorlog_bounds [of ?n 2] by (cases "?n = 0") (auto simp: floorlog_def)
  also have "\<dots> \<le> 2 ^ (53 + dropped_bits y)"
    by (rule power_increasing) (simp_all add: dropped_bits_def)
  finally have "\<lfloor>\<bar>y\<bar>\<rfloor> < 2 ^ (53 + dropped_bits y)"
    by (simp add: nat_less_iff)
  then have "\<bar>y\<bar> < of_int (2 ^ (53 + dropped_bits y))"
    by (simp only: floor_less_iff)
  then show ?thesis
    by (simp only: of_int_power of_int_numeral)
qed

lemma dropped_bits_lower:
  assumes "dropped_bits y > 0"
  shows "2 ^ (52 + dropped_bits y) \<le> \<bar>y\<bar>"
proof -
  let ?n = "nat \<lfloor>\<bar>y\<bar>\<rfloor>"
  have n: "0 < ?n" "floorlog 2 ?n - 1 = 52 + dropped_bits y"
    using assms by (auto simp: dropped_bits_def floorlog_def split: if_splits)
  then have "2 ^ (52 + dropped_bits y) \<le> ?n"
    using floorlog_bounds [of ?n 2] by simp
  then have "2 ^ (52 + dropped_bits y) \<le> \<lfloor>\<bar>y\<bar>\<rfloor>"
    by (simp add: le_nat_iff)
  then have "of_int (2 ^ (52 + dropped_bits y)) \<le> \<bar>y\<bar>"
    by (simp only: le_floor_iff)
  then show ?thesis
    by (simp only: of_int_power of_int_numeral)
qed

lemma dropped_bits_mono: "\<bar>x\<bar> \<le> \<bar>y\<bar> \<Longrightarrow> dropped_bits x \<le> dropped_bits y"
  unfolding dropped_bits_def by (intro diff_le_mono floorlog_mono nat_mono floor_mono)

lemma dropped_bits_eq:
  assumes "2 ^ (52 + s) \<le> \<bar>y\<bar>" "\<bar>y\<bar> < 2 ^ (53 + s)"
  shows "dropped_bits y = s"
proof -
  have "2 ^ (52 + s) < (2::rat) ^ (53 + dropped_bits y)"
    using assms(1) dropped_bits_upper [of y] by (rule order_le_less_trans)
  then have le: "s \<le> dropped_bits y"
    by (simp only: power_strict_increasing_iff)
  moreover have "\<not> s < dropped_bits y"
  proof
    assume "s < dropped_bits y"
    then have "(2::rat) ^ (53 + s) \<le> 2 ^ (52 + dropped_bits y)" "dropped_bits y > 0"
      by (auto intro: power_increasing)
    with dropped_bits_lower [of y] assms(2) show False
      by simp
  qed
  ultimately show ?thesis
    by simp
qed

lemma bit_exp_bounds:
  assumes "x \<noteq> 0"
  shows "2 powi (bit_exp x - 1) \<le> \<bar>x\<bar>" "\<bar>x\<bar> < 2 powi bit_exp x"
proof -
  obtain a b where ab: "quotient_of \<bar>x\<bar> = (a, b)"
    by fastforce
  have b: "0 < b" and x: "\<bar>x\<bar> = of_int a / of_int b"
    using quotient_of_denom_pos [OF ab] quotient_of_div [OF ab] by simp_all
  then have a: "0 < a"
    using assms by (metis abs_le_zero_iff divide_nonpos_pos of_int_0_less_iff of_int_le_0_iff not_le)
  define A B where "A = bitlen a" and "B = bitlen b"
  have pos: "0 < A" "0 < B"
    using a b bitlen_nonneg [of a] bitlen_nonneg [of b] bitlen_eq_zero_iff [of a] bitlen_eq_zero_iff [of b]
    unfolding A_def B_def by linarith+
  have rb: "2 powi (bitlen c - 1) \<le> (of_int c :: rat)" "(of_int c :: rat) < 2 powi bitlen c" if "0 < c" for c
  proof -
    have "2 ^ nat (bitlen c - 1) \<le> c" "c < 2 ^ nat (bitlen c)"
      using bitlen_bounds [OF that] by simp_all
    then have "of_int (2 ^ nat (bitlen c - 1)) \<le> (of_int c :: rat)" "(of_int c :: rat) < of_int (2 ^ nat (bitlen c))"
      by (simp_all only: of_int_le_iff of_int_less_iff)
    moreover have "0 < bitlen c"
      using that bitlen_nonneg [of c] bitlen_eq_zero_iff [of c] by linarith
    ultimately show "2 powi (bitlen c - 1) \<le> (of_int c :: rat)" "(of_int c :: rat) < 2 powi bitlen c"
      by (simp_all add: power_int_def)
  qed
  have "(of_int a :: rat) / of_int b < 2 powi A / 2 powi (B - 1)"
    using rb [OF a] rb(1) [OF b] a b unfolding A_def B_def by (intro frac_less) simp_all
  then have hi: "\<bar>x\<bar> < 2 powi (A - B + 1)"
    by (simp add: x power_int_diff power_int_add)
  have "2 powi (A - 1) / 2 powi B \<le> (of_int a :: rat) / of_int b"
    using rb(1) [OF a] rb(2) [OF b] a b unfolding A_def B_def by (intro frac_le) simp_all
  then have lo: "2 powi (A - B - 1) \<le> \<bar>x\<bar>"
    by (simp add: x power_int_diff)
  show "2 powi (bit_exp x - 1) \<le> \<bar>x\<bar>" "\<bar>x\<bar> < 2 powi bit_exp x"
    using hi lo by (auto simp: bit_exp_def ab Let_def not_less simp flip: A_def B_def)
qed

lemma dropped_bits_ulp:
  assumes "x \<noteq> 0"
  shows "dropped_bits (x * 2 ^ scale_bits) = nat (ulp_exp x + int scale_bits)"
proof -
  let ?e = "bit_exp x" and ?y = "x * 2 ^ scale_bits"
  have y: "\<bar>?y\<bar> = \<bar>x\<bar> * 2 powi int scale_bits"
    by (simp add: abs_mult)
  have "2 powi (?e - 1) * 2 powi int scale_bits \<le> \<bar>?y\<bar>" "\<bar>?y\<bar> < 2 powi ?e * 2 powi int scale_bits"
    unfolding y using bit_exp_bounds [OF assms]
    by (intro mult_right_mono mult_strict_right_mono; simp)+
  then have b: "2 powi (?e - 1 + int scale_bits) \<le> \<bar>?y\<bar>" "\<bar>?y\<bar> < 2 powi (?e + int scale_bits)"
    by (simp_all add: power_int_add)
  show ?thesis
  proof (cases "?e - 53 + int scale_bits \<ge> 0")
    case True
    then obtain s where s: "?e - 53 + int scale_bits = int s"
      using nonneg_int_cases by blast
    then have "?e - 1 + int scale_bits = int (52 + s)" "?e + int scale_bits = int (53 + s)"
      by simp_all
    with b have "dropped_bits ?y = s"
      by (intro dropped_bits_eq) (simp_all only: power_int_of_nat)
    moreover have "ulp_exp x + int scale_bits = int s"
      using s by (simp add: ulp_exp_def scale_bits_def)
    ultimately show ?thesis
      by simp
  next
    case False
    then have "(2::rat) powi (?e + int scale_bits) \<le> 2 powi 53"
      by (intro power_int_increasing) simp_all
    with b(2) have less: "\<bar>?y\<bar> < 2 ^ 53"
      by simp
    have "dropped_bits ?y = 0"
    proof (rule ccontr)
      assume "dropped_bits ?y \<noteq> 0"
      then have "(2::rat) ^ 53 \<le> 2 ^ (52 + dropped_bits ?y)"
        by (intro power_increasing) simp_all
      moreover have "2 ^ (52 + dropped_bits ?y) \<le> \<bar>?y\<bar>"
        using \<open>dropped_bits ?y \<noteq> 0\<close> by (intro dropped_bits_lower) simp
      ultimately show False
        using less by linarith
    qed
    moreover have "ulp_exp x + int scale_bits = 0"
      using False by (simp add: ulp_exp_def scale_bits_def)
    ultimately show ?thesis
      by simp
  qed
qed

lemma bitlen_le_abs: "0 \<le> k \<Longrightarrow> bitlen \<bar>n\<bar> \<le> k \<longleftrightarrow> \<bar>n\<bar> < 2 ^ nat k"
  using bitlen_le_iff_power [of "\<bar>n\<bar>" "nat k"] by simp

lemma overflow_cases:
  fixes m B :: int
  assumes "0 < B"
  shows "(if \<bar>m\<bar> < B then x else if m > 0 then y else z) = (if m \<ge> B then y else if m \<le> - B then z else x)"
  using assms by auto

lemma round64_scaled:
  "round64 x =
     (let m = round_scaled (x * 2 ^ scale_bits) in
      if m \<ge> 2 ^ (max_bits + scale_bits) then PInf
      else if m \<le> - (2 ^ (max_bits + scale_bits)) then NInf
      else Fin (of_int m / 2 ^ scale_bits))"
proof (cases "x = 0")
  case True
  have "rne 0 = 0"
    using rne_of_int [of 0] by simp
  with True show ?thesis
    using bitlen_nonneg [of 1] by (simp add: round64_def round_scaled_def ulp_exp_def bit_exp_def Let_def)
next
  case False
  define u where "u = ulp_exp x"
  define s where "s = nat (u + int scale_bits)"
  define n where "n = rne (x / 2 powi u)"
  have "- int scale_bits \<le> u"
    by (simp add: u_def ulp_exp_def scale_bits_def)
  then have s: "int s = u + int scale_bits"
    by (simp add: s_def)
  have u: "2 powi u = 2 ^ s / (2::rat) ^ scale_bits"
  proof -
    have "u = int s - int scale_bits"
      using s by simp
    then show ?thesis
      by (simp add: power_int_diff)
  qed
  have m: "round_scaled (x * 2 ^ scale_bits) = n * 2 ^ s"
    unfolding round_scaled_def dropped_bits_ulp [OF False] u_def [symmetric] s_def [symmetric]
    by (simp add: n_def u)
  have "bitlen \<bar>n\<bar> + u \<le> 1024 \<longleftrightarrow> bitlen \<bar>n\<bar> + int s \<le> int (max_bits + scale_bits)"
    using s by (simp add: max_bits_def)
  also have "\<dots> \<longleftrightarrow> \<bar>n\<bar> * 2 ^ s < 2 ^ (max_bits + scale_bits)"
  proof (cases "n = 0")
    case True
    have "s = 0"
    proof (rule ccontr)
      assume "s \<noteq> 0"
      then have "2 ^ (52 + s) \<le> \<bar>x * 2 ^ scale_bits\<bar>"
        using dropped_bits_lower [of "x * 2 ^ scale_bits"] dropped_bits_ulp [OF False] by (simp add: s_def u_def)
      then have "2 ^ 52 * 2 ^ s / 2 ^ s \<le> \<bar>x * 2 ^ scale_bits\<bar> / 2 ^ s"
        by (intro divide_right_mono) (simp_all add: power_add)
      then have "2 ^ 52 \<le> \<bar>x / 2 powi u\<bar>"
        by (simp add: u abs_mult)
      then have "1 \<le> x / 2 powi u \<or> x / 2 powi u \<le> - 1"
        by (rule rne_far)
      with True show False
        using rne_ge [of 1 "x / 2 powi u"] rne_le [of "x / 2 powi u" "- 1"] by (auto simp: n_def)
    qed
    with True show ?thesis
      by simp
  next
    case False
    then have "bitlen (\<bar>n\<bar> * 2 ^ s) = bitlen \<bar>n\<bar> + int s"
      by (simp add: bitlen_twopow_add_eq)
    then show ?thesis
      using bitlen_le_iff_power [of "\<bar>n\<bar> * 2 ^ s" "max_bits + scale_bits"] by (simp add: nat_add_distrib)
  qed
  finally have fits: "bitlen \<bar>n\<bar> + u \<le> 1024 \<longleftrightarrow> \<bar>n * 2 ^ s\<bar> < 2 ^ (max_bits + scale_bits)"
    by (simp add: abs_mult)
  have "round64 x = (if bitlen \<bar>n\<bar> + u \<le> 1024 then Fin (of_int n * 2 powi u) else if n > 0 then PInf else NInf)"
    unfolding round64_def Let_def u_def [symmetric] n_def [symmetric] ..
  also have "of_int n * 2 powi u = (of_int (n * 2 ^ s) / 2 ^ scale_bits :: rat)"
    by (simp add: u)
  also have "n > 0 \<longleftrightarrow> n * 2 ^ s > 0"
    by (simp add: zero_less_mult_iff)
  finally show ?thesis
    unfolding m Let_def fits by (rule trans [OF _ overflow_cases]) simp
qed

lemma round_scaled_grid:
  assumes "\<bar>m\<bar> \<le> 2 ^ 53"
  shows "round_scaled (of_int (m * 2 ^ k)) = m * 2 ^ k"
proof -
  let ?y = "of_int (m * 2 ^ k) :: rat"
  define s where "s = dropped_bits ?y"
  have "s \<le> k + 1 \<and> (s = k + 1 \<longrightarrow> even m)"
  proof (cases "\<bar>m\<bar> = 2 ^ 53")
    case True
    have "\<bar>?y\<bar> = 2 ^ (52 + (k + 1))"
      using True by (simp add: abs_mult power_add flip: of_int_abs)
    then have "s = k + 1"
      unfolding s_def by (intro dropped_bits_eq) simp_all
    moreover have "even \<bar>m\<bar>"
      unfolding True by simp
    ultimately show ?thesis
      by simp
  next
    case False
    with assms have m: "\<bar>m\<bar> < 2 ^ 53"
      by simp
    have "s \<le> k"
    proof (rule ccontr)
      assume "\<not> s \<le> k"
      then have "(2::rat) ^ (52 + Suc k) \<le> 2 ^ (52 + s)"
        by (intro power_increasing) simp_all
      also have "\<dots> \<le> \<bar>?y\<bar>"
        unfolding s_def using \<open>\<not> s \<le> k\<close> by (intro dropped_bits_lower) (simp add: s_def)
      also have "\<dots> = of_int (\<bar>m\<bar> * 2 ^ k)"
        by (simp add: abs_mult)
      finally have "of_int (2 ^ 53 * 2 ^ k) \<le> (of_int (\<bar>m\<bar> * 2 ^ k) :: rat)"
        by (simp add: power_add)
      then have "(2::int) ^ 53 * 2 ^ k \<le> \<bar>m\<bar> * 2 ^ k"
        by (simp only: of_int_le_iff)
      with m show False
        by simp
    qed
    then show ?thesis
      by simp
  qed
  then obtain i where i: "m * 2 ^ k = i * 2 ^ s"
  proof (cases "s = k + 1")
    case True
    with \<open>s \<le> k + 1 \<and> (s = k + 1 \<longrightarrow> even m)\<close> obtain h where "m = 2 * h"
      by (auto elim: evenE)
    with True that [of h] show ?thesis
      by simp
  next
    case False
    with \<open>s \<le> k + 1 \<and> (s = k + 1 \<longrightarrow> even m)\<close> have "s \<le> k"
      by simp
    then have "m * 2 ^ k = (m * 2 ^ (k - s)) * 2 ^ s"
      by (simp flip: power_add)
    then show ?thesis
      by (rule that)
  qed
  then have "?y / 2 ^ s = of_int i"
    by (simp only: of_int_mult of_int_power of_int_numeral) simp
  then show ?thesis
    unfolding round_scaled_def s_def [symmetric] using i by (simp only: rne_of_int)
qed

lemma round_scaled_mono:
  assumes "0 \<le> x" "x \<le> y"
  shows "round_scaled x \<le> round_scaled y"
proof (cases "dropped_bits x = dropped_bits y")
  case True
  have "x / 2 ^ dropped_bits y \<le> y / 2 ^ dropped_bits y"
    using assms by (intro divide_right_mono) simp_all
  then show ?thesis
    using rne_mono [of "x / 2 ^ dropped_bits y" "y / 2 ^ dropped_bits y"] True
    by (simp add: round_scaled_def)
next
  case False
  let ?s = "dropped_bits x" and ?t = "dropped_bits y"
  have less: "?s < ?t"
    using dropped_bits_mono [of x y] assms False by simp
  have "x / 2 ^ ?s \<le> of_int (2 ^ 53)"
    using dropped_bits_upper [of x] assms by (simp add: field_simps power_add)
  from rne_le [OF this] have "round_scaled x \<le> 2 ^ 53 * 2 ^ ?s"
    unfolding round_scaled_def by (intro mult_right_mono) simp_all
  also have "\<dots> \<le> 2 ^ 52 * 2 ^ ?t"
  proof -
    have "(2::int) ^ (53 + ?s) \<le> 2 ^ (52 + ?t)"
      using less by (intro power_increasing) simp_all
    then show ?thesis
      by (simp only: power_add)
  qed
  also have "of_int (2 ^ 52) \<le> y / 2 ^ ?t"
    using dropped_bits_lower [of y] less assms by (simp add: field_simps power_add)
  from rne_ge [OF this] have "2 ^ 52 * 2 ^ ?t \<le> round_scaled y"
    unfolding round_scaled_def by (intro mult_right_mono) simp_all
  finally show ?thesis .
qed

lemma round_scaled_nonneg: "0 \<le> x \<Longrightarrow> 0 \<le> round_scaled x"
  using round_scaled_mono [of 0 x] round_scaled_grid [of 0 0] by simp

text \<open>The values a \<open>float64\<close> can hold, but for the bound on their exponent.\<close>

definition on_grid :: "rat \<Rightarrow> bool" where
  "on_grid g \<longleftrightarrow> (\<exists>m k. \<bar>m\<bar> \<le> 2 ^ 53 \<and> g * 2 ^ scale_bits = of_int (m * 2 ^ k))"

lemma on_grid_int: "\<bar>i\<bar> \<le> 2 ^ 53 \<Longrightarrow> on_grid (of_int i)"
  unfolding on_grid_def by (intro exI [of _ i] exI [of _ scale_bits]) simp

lemma on_gridI: "\<bar>m\<bar> \<le> 2 ^ 53 \<Longrightarrow> n \<le> scale_bits \<Longrightarrow> on_grid (of_int m / 2 ^ n)"
  unfolding on_grid_def
  by (intro exI [of _ m] exI [of _ "scale_bits - n"]) (simp add: field_simps flip: power_add)

lemma round64_grid:
  assumes "on_grid g" "\<bar>g\<bar> < 2 ^ max_bits"
  shows "round64 g = Fin g"
proof -
  obtain m k where g: "\<bar>m\<bar> \<le> 2 ^ 53" "g * 2 ^ scale_bits = of_int (m * 2 ^ k)"
    using assms(1) unfolding on_grid_def by blast
  have "\<bar>g * 2 ^ scale_bits\<bar> < 2 ^ max_bits * 2 ^ scale_bits"
    using assms(2) by (simp add: abs_mult)
  then have "\<bar>of_int (m * 2 ^ k)\<bar> < (of_int (2 ^ (max_bits + scale_bits)) :: rat)"
    unfolding g(2) by (simp only: of_int_mult of_int_power of_int_numeral power_add)
  then have "\<bar>m * 2 ^ k\<bar> < 2 ^ (max_bits + scale_bits)"
    by (simp only: of_int_less_iff flip: of_int_abs)
  then show ?thesis
    unfolding round64_scaled Let_def g(2) round_scaled_grid [OF g(1)]
    unfolding g(2) [symmetric] by (simp add: abs_less_iff)
qed

lemma round64_le:
  assumes "0 \<le> x" "x \<le> g" "on_grid g" "g < 2 ^ max_bits"
  shows "\<exists>r. round64 x = Fin r \<and> 0 \<le> r \<and> r \<le> g"
proof -
  let ?m = "round_scaled (x * 2 ^ scale_bits)"
  obtain m k where g: "\<bar>m\<bar> \<le> 2 ^ 53" "g * 2 ^ scale_bits = of_int (m * 2 ^ k)"
    using assms(3) unfolding on_grid_def by blast
  have "?m \<le> round_scaled (g * 2 ^ scale_bits)"
    using assms(1,2) by (intro round_scaled_mono mult_right_mono) simp_all
  then have le: "?m \<le> m * 2 ^ k"
    by (simp only: g(2) round_scaled_grid [OF g(1)])
  have "of_int (m * 2 ^ k) < (2 ^ max_bits * 2 ^ scale_bits :: rat)"
    unfolding g(2) [symmetric] using assms(4) by (intro mult_strict_right_mono) simp_all
  then have "of_int (m * 2 ^ k) < (of_int (2 ^ (max_bits + scale_bits)) :: rat)"
    by (simp only: of_int_mult of_int_power of_int_numeral power_add)
  then have "m * 2 ^ k < 2 ^ (max_bits + scale_bits)"
    by (simp only: of_int_less_iff)
  moreover have "0 \<le> ?m"
    using assms(1) by (intro round_scaled_nonneg) simp
  ultimately have "round64 x = Fin (of_int ?m / 2 ^ scale_bits)" "0 \<le> (of_int ?m / 2 ^ scale_bits :: rat)"
    using le by (simp_all add: round64_scaled Let_def)
  moreover have "of_int ?m / 2 ^ scale_bits \<le> g"
  proof -
    have "of_int ?m \<le> g * 2 ^ scale_bits"
      unfolding g(2) using le by (simp only: of_int_le_iff)
    then show ?thesis
      by (simp add: field_simps)
  qed
  ultimately show ?thesis
    by blast
qed

lemma round64_nonneg: "0 \<le> x \<Longrightarrow> round64 x = PInf \<or> (\<exists>r\<ge>0. round64 x = Fin r)"
  using round_scaled_nonneg [of "x * 2 ^ scale_bits"] by (auto simp: round64_scaled Let_def)

lemma round64_ge:
  assumes "0 \<le> g" "g \<le> x" "on_grid g"
  shows "round64 x = PInf \<or> (\<exists>r\<ge>g. round64 x = Fin r)"
proof -
  let ?m = "round_scaled (x * 2 ^ scale_bits)"
  obtain m k where g: "\<bar>m\<bar> \<le> 2 ^ 53" "g * 2 ^ scale_bits = of_int (m * 2 ^ k)"
    using assms(3) unfolding on_grid_def by blast
  have "round_scaled (g * 2 ^ scale_bits) \<le> ?m"
    using assms(1,2) by (intro round_scaled_mono mult_right_mono) simp_all
  then have le: "m * 2 ^ k \<le> ?m"
    by (simp only: g(2) round_scaled_grid [OF g(1)])
  have "g * 2 ^ scale_bits \<le> of_int ?m"
    unfolding g(2) using le by (simp only: of_int_le_iff)
  then have "g \<le> of_int ?m / 2 ^ scale_bits"
    by (simp add: field_simps)
  moreover have "0 \<le> ?m"
    using assms(1,2) by (intro round_scaled_nonneg) simp
  ultimately show ?thesis
    by (auto simp: round64_scaled Let_def simp del: power_add)
qed

lemma float64_of_int_exact: "\<bar>i\<bar> \<le> 2 ^ 53 \<Longrightarrow> float64_of_int i = Fin (of_int i)"
  unfolding float64_of_int_def
proof (rule round64_grid [OF on_grid_int])
  assume i: "\<bar>i\<bar> \<le> 2 ^ 53"
  have "(of_int \<bar>i\<bar> :: rat) \<le> of_int (2 ^ 53)"
    using i by (simp only: of_int_le_iff)
  also have "\<dots> < 2 ^ max_bits"
    by (simp add: max_bits_def)
  finally show "\<bar>of_int i\<bar> < (2 ^ max_bits :: rat)"
    by simp
qed

lemma round64_between:
  assumes "0 \<le> g" "g \<le> x" "x \<le> h" "on_grid g" "on_grid h" "h < 2 ^ max_bits"
  shows "\<exists>r. round64 x = Fin r \<and> g \<le> r \<and> r \<le> h"
  using round64_le [of x h] round64_ge [of g x] assms by auto

lemma on_grid_simps [simp]: "on_grid 0" "on_grid 1"
  using on_grid_int [of 0] on_grid_int [of 1] by simp_all

lemma on_grid_inverse: "n \<le> 1074 \<Longrightarrow> on_grid (1 / 2 ^ n)"
  using on_gridI [of 1 n] by (simp add: scale_bits_def)

lemma one_less_max: "1 < (2::rat) ^ max_bits"
  by (simp add: max_bits_def)

section \<open>Powers of a number that is at least one\<close>

declare pow_loop.simps [simp del]

text \<open>Rounding a fraction keeps that it is at least a power of two below it, of any size.\<close>

lemma round64_fraction:
  assumes "1 \<le> x * 2 powi e" "1 / 2 ^ k \<le> x" "x \<le> 1" "k \<le> 64" "0 \<le> e"
  shows "\<exists>r. round64 x = Fin r \<and> 1 / 2 ^ k \<le> r \<and> r \<le> 1 \<and> 1 \<le> r * 2 powi e"
proof -
  obtain r where r: "round64 x = Fin r" "1 / 2 ^ k \<le> r" "r \<le> 1"
    using round64_between [of "1 / 2 ^ k" x 1] assms(2-4) on_grid_inverse [of k] one_less_max by auto
  have "1 \<le> r * 2 ^ nat e"
  proof (cases "e \<le> 1074")
    case True
    have "1 / 2 ^ nat e \<le> x"
      using assms(1,5) by (simp add: power_int_def field_simps)
    then have "1 / 2 ^ nat e \<le> r"
      using round64_between [of "1 / 2 ^ nat e" x 1] assms(3) on_grid_inverse [of "nat e"] one_less_max True r(1)
      by auto
    then show ?thesis
      by (simp add: field_simps)
  next
    case False
    then have "1 / 2 ^ k * 2 ^ k \<le> r * 2 ^ nat e"
      using r(2) assms(4) order_trans [of 0 "1 / 2 ^ k" r] by (intro mult_mono power_increasing) simp_all
    then show ?thesis
      by simp
  qed
  with r assms(5) show ?thesis
    by (simp add: power_int_def)
qed

lemma pow_loop_ge_1:
  assumes "i < 2 ^ n" "k + n \<le> 63" "1 / 2 ^ k \<le> a" "a \<le> 1" "1 \<le> a * 2 powi ae" "0 \<le> ae"
    and "1 / 2 \<le> y" "y \<le> 1" "1 \<le> y * 2 powi xe" "1 \<le> xe"
  shows "\<exists>b be. pow_loop i (Fin a) ae (Fin y) xe = (Fin b, be) \<and> 0 \<le> b \<and> b \<le> 1 \<and> 1 \<le> b * 2 powi be \<and> 0 \<le> be"
  using assms
proof (induction n arbitrary: i k a ae y xe)
  case 0
  then show ?case
    by (auto simp: pow_loop.simps [of 0] intro: order_trans [of 0 "1 / 2 ^ k" a])
next
  case (Suc n)
  have a: "0 \<le> a" and y: "0 \<le> y"
    using Suc.prems(3,7) by (auto intro: order_trans [rotated])
  have one: "1 \<le> (2::rat) powi xe"
    using Suc.prems(10) by (simp add: power_int_def)
  have sum: "1 \<le> (a * y) * 2 powi (ae + xe)" "1 \<le> a * 2 powi (ae + xe)"
  proof -
    have "1 * 1 \<le> (a * 2 powi ae) * (y * 2 powi xe)" "1 * 1 \<le> (a * 2 powi ae) * 2 powi xe"
      using Suc.prems(5,9) a one by (intro mult_mono; simp)+
    then show "1 \<le> (a * y) * 2 powi (ae + xe)" "1 \<le> a * 2 powi (ae + xe)"
      by (simp_all add: power_int_add ac_simps)
  qed
  show ?case
  proof (cases "i = 0 \<or> xe < - 4096 \<or> 4096 < xe")
    case True
    then show ?thesis
      using Suc.prems(4-6,10) a sum(2) by (auto simp: pow_loop.simps [of i])
  next
    case False
    have half: "i div 2 < 2 ^ n"
      using Suc.prems(1) by auto
    obtain a' ae' where step: "(if odd i then (fmul (Fin a) (Fin y), ae + xe) else (Fin a, ae)) = (Fin a', ae')"
      "1 / 2 ^ Suc k \<le> a'" "a' \<le> 1" "1 \<le> a' * 2 powi ae'" "0 \<le> ae'"
    proof (cases "odd i")
      case True
      have "1 / 2 ^ k * (1 / 2) \<le> a * y"
        using Suc.prems(3,7) a by (intro mult_mono) simp_all
      moreover have "a * y \<le> 1"
        using Suc.prems(4,8) y by (simp add: mult_le_one)
      ultimately obtain r where "round64 (a * y) = Fin r" "1 / 2 ^ Suc k \<le> r" "r \<le> 1" "1 \<le> r * 2 powi (ae + xe)"
        using round64_fraction [OF sum(1), of "Suc k"] Suc.prems(2,6,10) by auto
      then show ?thesis
        using that [of r "ae + xe"] True Suc.prems(6,10) by simp
    next
      case False
      have "1 / 2 ^ Suc k \<le> 1 / (2::rat) ^ k"
        by (intro divide_left_mono power_increasing) simp_all
      with that [of a ae] False Suc.prems show ?thesis
        by auto
    qed
    have sq: "1 / 2 ^ 2 \<le> y * y" "y * y \<le> 1"
      using mult_mono [OF Suc.prems(7,7)] Suc.prems(8) y by (simp_all add: mult_le_one power2_eq_square)
    have "1 * 1 \<le> (y * 2 powi xe) * (y * 2 powi xe)"
      using Suc.prems(9) by (intro mult_mono) simp_all
    then have "1 \<le> (y * y) * 2 powi (2 * xe)"
      by (simp add: ac_simps flip: power_int_add mult_2)
    from round64_fraction [OF this sq(1) sq(2)] Suc.prems(10)
    obtain z where z: "round64 (y * y) = Fin z" "1 / 4 \<le> z" "z \<le> 1" "1 \<le> z * 2 powi (2 * xe)"
      by auto
    obtain w we where nx: "(if fless (Fin z) (Fin (1 / 2)) then (fadd (Fin z) (Fin z), 2 * xe - 1) else (Fin z, 2 * xe))
        = (Fin w, we)" "1 / 2 \<le> w" "w \<le> 1" "1 \<le> w * 2 powi we" "1 \<le> we"
    proof (cases "z < 1 / 2")
      case True
      have "1 \<le> (z + z) * 2 powi (2 * xe - 1)"
        using z(4) by (simp add: power_int_diff field_simps)
      then obtain w where "round64 (z + z) = Fin w" "1 / 2 \<le> w" "w \<le> 1" "1 \<le> w * 2 powi (2 * xe - 1)"
        using round64_fraction [of "z + z" "2 * xe - 1" 1] z(2) True Suc.prems(10) by auto
      then show ?thesis
        using that [of w "2 * xe - 1"] True Suc.prems(10) by simp
    next
      case False
      then show ?thesis
        using that [of z "2 * xe"] z Suc.prems(10) by simp
    qed
    have "pow_loop i (Fin a) ae (Fin y) xe = pow_loop (i div 2) (Fin a') ae' (Fin w) we"
      using False step(1) nx(1) by (subst pow_loop.simps) (simp add: z(1) Let_def)
    then show ?thesis
      using Suc.IH [OF half _ step(2-5) nx(2-5)] Suc.prems(2) by simp
  qed
qed

lemma Frexp_ge_1:
  assumes "1 \<le> q"
  obtains y e where "Frexp q = (y, e)" "1 / 2 \<le> y" "y \<le> 1" "y * 2 powi e = q" "1 \<le> e"
proof (rule that)
  let ?e = "bit_exp q"
  have b: "2 powi (?e - 1) \<le> q" "q < 2 powi ?e"
    using bit_exp_bounds [of q] assms by simp_all
  show "Frexp q = (q / 2 powi ?e, ?e)"
    by (simp add: Frexp_def)
  show "1 / 2 \<le> q / 2 powi ?e" "q / 2 powi ?e \<le> 1" "q / 2 powi ?e * 2 powi ?e = q"
    using b by (simp_all add: power_int_diff field_simps)
  show "1 \<le> ?e"
  proof (rule ccontr)
    assume "\<not> 1 \<le> ?e"
    then have "(2::rat) powi ?e \<le> 2 powi 0"
      by (intro power_int_increasing) simp_all
    with b(2) assms show False
      by simp
  qed
qed

lemma Pow_ge_1:
  assumes "x \<noteq> NaN" "\<not> fless x (Fin 1)" "n < 2 ^ 63"
  shows "Pow x n = PInf \<or> (\<exists>q\<ge>1. Pow x n = Fin q)"
proof (cases x)
  case (Fin q)
  then have q: "1 \<le> q"
    using assms(2) by simp
  show ?thesis
  proof (cases "n = 0 \<or> n = 1 \<or> q = 1")
    case True
    then show ?thesis
      using Fin q by (auto simp: Pow_def)
  next
    case False
    obtain y e where f: "Frexp q = (y, e)" "1 / 2 \<le> y" "y \<le> 1" "y * 2 powi e = q" "1 \<le> e"
      using q by (rule Frexp_ge_1)
    obtain b be where l: "pow_loop n (Fin 1) 0 (Fin y) e = (Fin b, be)" "1 \<le> b * 2 powi be"
      using pow_loop_ge_1 [of n 63 0 1 0 y e] f q assms(3) by auto
    have "Pow x n = round64 (b * 2 powi be)"
      using False Fin q f(1) l(1) by (simp add: Pow_def Ldexp_def)
    then show ?thesis
      using round64_ge [OF _ l(2)] by simp
  qed
qed (use assms in \<open>auto simp: Pow_def\<close>)

end
