(* ===== verification/Retry.thy ===== *)
theory Retry
  imports CircuitBreaker Float64
begin

text \<open>
  Retrying with exponential backoff (\<open>src/internal/retry/retry.go\<close>, \<open>config.go\<close>
  and the HTTP wrappers of \<open>middleware.go\<close>).

  The function that is retried is a function of a state it changes.  The
  context is two predicates of the attempt number: whether it is done before
  the attempt, and whether it is done before the sleep after the attempt ends.
  The delays slept are part of the result.

  Delays are computed in \<open>float64\<close> (\<open>Float64\<close>), as in the code; \<open>jitter\<close> is the draw of
  \<open>rand.Float64\<close>, and the conversion to a duration is the one of amd64.
\<close>

section \<open>Policies\<close>

record policy =
  Enabled :: bool
  MaxAttempts :: int
  InitialDelay :: int
  MaxDelay :: int
  BackoffMultiplier :: float64
  RetryableErrors :: "go_string list"
  RetryableStatuses :: "int list"
  JitterEnabled :: bool

abbreviation millisecond :: int where "millisecond \<equiv> 1000000"
abbreviation second :: int where "second \<equiv> 1000000000"

definition zero_policy :: policy where
  "zero_policy = \<lparr>Enabled = False, MaxAttempts = 0, InitialDelay = 0, MaxDelay = 0,
     BackoffMultiplier = Fin 0, RetryableErrors = [], RetryableStatuses = [], JitterEnabled = False\<rparr>"

definition DefaultPolicy :: policy where
  "DefaultPolicy = \<lparr>Enabled = True, MaxAttempts = 3, InitialDelay = 100 * millisecond,
     MaxDelay = 5 * second, BackoffMultiplier = Fin 2, RetryableErrors = [],
     RetryableStatuses = [500, 502, 503, 504, 429], JitterEnabled = True\<rparr>"

definition DatabasePolicy :: policy where
  "DatabasePolicy = \<lparr>Enabled = True, MaxAttempts = 3, InitialDelay = 100 * millisecond,
     MaxDelay = 5 * second, BackoffMultiplier = Fin 2,
     RetryableErrors = [''connection refused'', ''database is locked'', ''busy'', ''timeout'',
       ''connection reset by peer'', ''broken pipe''],
     RetryableStatuses = [], JitterEnabled = True\<rparr>"

definition ExternalServicePolicy :: policy where
  "ExternalServicePolicy = \<lparr>Enabled = True, MaxAttempts = 5, InitialDelay = 1 * second,
     MaxDelay = 30 * second, BackoffMultiplier = Fin 2,
     RetryableErrors = [''connection refused'', ''no such host'', ''timeout'', ''temporary failure'',
       ''service unavailable'', ''too many requests'', ''internal server error'', ''bad gateway''],
     RetryableStatuses = [], JitterEnabled = True\<rparr>"

definition InteractivePolicy :: policy where
  "InteractivePolicy = \<lparr>Enabled = True, MaxAttempts = 2, InitialDelay = 250 * millisecond,
     MaxDelay = 2 * second, BackoffMultiplier = Fin 2,
     RetryableErrors = RetryableErrors ExternalServicePolicy,
     RetryableStatuses = [], JitterEnabled = True\<rparr>"

record config =
  Database :: policy
  ExternalServices :: policy
  ServiceOperations :: policy
  Interactive :: policy
  cfg_breaker :: cb_config

definition mk_policy :: "int \<Rightarrow> int \<Rightarrow> int \<Rightarrow> float64 \<Rightarrow> go_string list \<Rightarrow> bool \<Rightarrow> policy" where
  "mk_policy attempts initial max_delay mult errs jitter =
     \<lparr>Enabled = True, MaxAttempts = attempts, InitialDelay = initial, MaxDelay = max_delay,
      BackoffMultiplier = mult, RetryableErrors = errs, RetryableStatuses = [], JitterEnabled = jitter\<rparr>"

definition DefaultConfig :: config where
  "DefaultConfig =
     \<lparr>Database = DatabasePolicy, ExternalServices = ExternalServicePolicy,
      ServiceOperations = mk_policy 2 (500 * millisecond) (2 * second) (Fin (3 / 2))
        [''connection refused'', ''timeout'', ''temporary failure''] True,
      Interactive = InteractivePolicy, cfg_breaker = DefaultCircuitBreaker\<rparr>"

definition DevelopmentConfig :: config where
  "DevelopmentConfig =
     \<lparr>Database = mk_policy 2 (50 * millisecond) (1 * second) (Fin 2) (RetryableErrors DatabasePolicy) True,
      ExternalServices = mk_policy 3 (100 * millisecond) (5 * second) (Fin 2)
        (RetryableErrors ExternalServicePolicy) True,
      ServiceOperations = mk_policy 2 (100 * millisecond) (1 * second) (Fin (3 / 2))
        (RetryableErrors (ServiceOperations DefaultConfig)) True,
      Interactive = mk_policy 2 (100 * millisecond) (1 * second) (Fin 2) (RetryableErrors InteractivePolicy) True,
      cfg_breaker = \<lparr>FailureThreshold = 3, Timeout = 30 * second, HalfOpenRequests = 2\<rparr>\<rparr>"

definition ProductionConfig :: config where
  "ProductionConfig =
     \<lparr>Database = mk_policy 3 (100 * millisecond) (5 * second) (Fin 2) (RetryableErrors DatabasePolicy) True,
      ExternalServices = mk_policy 5 (1 * second) (30 * second) (Fin 2)
        (RetryableErrors ExternalServicePolicy) True,
      ServiceOperations = mk_policy 2 (500 * millisecond) (5 * second) (Fin 2)
        (RetryableErrors (ServiceOperations DefaultConfig)) True,
      Interactive = mk_policy 2 (250 * millisecond) (2 * second) (Fin 2) (RetryableErrors InteractivePolicy) True,
      cfg_breaker = \<lparr>FailureThreshold = 5, Timeout = 60 * second, HalfOpenRequests = 3\<rparr>\<rparr>"

definition TestingConfig :: config where
  "TestingConfig =
     \<lparr>Database = mk_policy 2 (1 * millisecond) (10 * millisecond) (Fin 2) (RetryableErrors DatabasePolicy) False,
      ExternalServices = mk_policy 2 (1 * millisecond) (10 * millisecond) (Fin 2)
        (RetryableErrors ExternalServicePolicy) False,
      ServiceOperations = mk_policy 2 (1 * millisecond) (10 * millisecond) (Fin (3 / 2))
        (RetryableErrors (ServiceOperations DefaultConfig)) False,
      Interactive = mk_policy 2 (1 * millisecond) (10 * millisecond) (Fin 2)
        (RetryableErrors InteractivePolicy) False,
      cfg_breaker = \<lparr>FailureThreshold = 2, Timeout = 100 * millisecond, HalfOpenRequests = 1\<rparr>\<rparr>"

definition validatePolicy :: "policy \<Rightarrow> bool" where
  "validatePolicy p \<longleftrightarrow>
     (if \<not> Enabled p then True
      else \<not> MaxAttempts p < 1 \<and> \<not> InitialDelay p < 0 \<and> \<not> MaxDelay p < InitialDelay p
           \<and> \<not> fless (BackoffMultiplier p) (Fin 1))"

definition config_Validate :: "config \<Rightarrow> bool" where
  "config_Validate c \<longleftrightarrow>
     validatePolicy (Database c) \<and> validatePolicy (ExternalServices c)
     \<and> validatePolicy (ServiceOperations c) \<and> validatePolicy (Interactive c)
     \<and> validateCircuitBreakerConfig (cfg_breaker c)"

definition Merge :: "config \<Rightarrow> config \<Rightarrow> config" where
  "Merge c other =
     \<lparr>Database = (if Enabled (Database other) then Database other else Database c),
      ExternalServices =
        (if Enabled (ExternalServices other) then ExternalServices other else ExternalServices c),
      ServiceOperations =
        (if Enabled (ServiceOperations other) then ServiceOperations other else ServiceOperations c),
      Interactive = (if Enabled (Interactive other) then Interactive other else Interactive c),
      cfg_breaker = cfg_breaker other\<rparr>"

definition ForEnvironment :: "go_string \<Rightarrow> config" where
  "ForEnvironment env =
     (if env = ''prod'' \<or> env = ''production'' then ProductionConfig
      else if env = ''dev'' \<or> env = ''development'' then DevelopmentConfig
      else if env = ''test'' \<or> env = ''testing'' then TestingConfig
      else DefaultConfig)"

section \<open>Errors\<close>

text \<open>
  What the retry layer sees of an error: what its chain answers to
  \<open>errors.As\<close> (\<open>RetryableError\<close> and \<open>ClientFault\<close>) and its text.
\<close>

record 'e go_error =
  err_value :: 'e
  err_retryable :: "bool option"
  err_client_fault :: bool
  err_text :: go_string

definition Retryable :: "'e go_error \<Rightarrow> 'e go_error" where
  "Retryable e = e\<lparr>err_retryable := Some True\<rparr>"

definition NonRetryable :: "'e go_error \<Rightarrow> 'e go_error" where
  "NonRetryable e = e\<lparr>err_retryable := Some False\<rparr>"

definition ClientError :: "'e go_error \<Rightarrow> 'e go_error" where
  "ClientError e = e\<lparr>err_retryable := Some False, err_client_fault := True\<rparr>"

definition IsClientError :: "'e go_error \<Rightarrow> bool" where
  "IsClientError e = err_client_fault e"

text \<open>\<open>strings.ToLower\<close> on ASCII, which the patterns and the error texts are.\<close>

definition lower_char :: "char \<Rightarrow> char" where
  "lower_char c = (let n = of_char c :: nat in if 65 \<le> n \<and> n \<le> 90 then char_of (n + 32) else c)"

definition to_lower :: "go_string \<Rightarrow> go_string" where
  "to_lower = map lower_char"

definition IsRetryable :: "'e go_error option \<Rightarrow> policy \<Rightarrow> bool" where
  "IsRetryable err p =
     (case err of
        None \<Rightarrow> False
      | Some e \<Rightarrow>
          (case err_retryable e of
             Some b \<Rightarrow> b
           | None \<Rightarrow> list_ex (\<lambda>pat. contains_str (to_lower (err_text e)) (to_lower pat)) (RetryableErrors p)))"

definition IsRetryableStatus :: "int \<Rightarrow> policy \<Rightarrow> bool" where
  "IsRetryableStatus code p = list_ex (\<lambda>s. code = s) (RetryableStatuses p)"

section \<open>Delays\<close>

definition calculateDelay :: "float64 \<Rightarrow> nat \<Rightarrow> policy \<Rightarrow> int" where
  "calculateDelay jitter attempt p =
     (let delay = fmul (float64_of_int (InitialDelay p)) (Pow (BackoffMultiplier p) attempt);
          delay = (if fless (float64_of_int (MaxDelay p)) delay then float64_of_int (MaxDelay p) else delay);
          delay = (if JitterEnabled p then fadd delay (fmul (fmul jitter (round64 (3 / 10))) delay) else delay) in
      int64_of_float64 delay)"

section \<open>The retry loop\<close>

datatype 'e retry_result =
    RetryOk
  | RetryPlain "'e go_error"
  | RetryCancelled
  | ErrNonRetryable "'e go_error"
  | ErrMaxRetriesExceeded "'e go_error option"

record retry_env =
  env_done :: "nat \<Rightarrow> bool"
  env_sleep_done :: "nat \<Rightarrow> bool"
  env_jitter :: "nat \<Rightarrow> float64"

record 'e retry_trace =
  tr_errors :: "'e go_error list"
  tr_delays :: "int list"

text \<open>
  The \<open>for\<close> loop, from attempt \<open>MaxAttempts - fuel\<close>; \<open>fuel\<close> is the number of
  iterations left, so the recursion is the loop itself.  \<open>errs\<close> are the errors so
  far, in order; the last one is \<open>lastErr\<close>.
\<close>

fun retry_loop ::
  "retry_env \<Rightarrow> policy \<Rightarrow> ('s \<Rightarrow> 'e go_error option \<times> 's) \<Rightarrow> nat \<Rightarrow> nat \<Rightarrow> 'e retry_trace \<Rightarrow> 's
     \<Rightarrow> 'e retry_result \<times> 'e retry_trace \<times> 's" where
  "retry_loop env p fn attempt 0 tr s =
     (ErrMaxRetriesExceeded (if tr_errors tr = [] then None else Some (last (tr_errors tr))), tr, s)"
| "retry_loop env p fn attempt (Suc left) tr s =
     (if env_done env attempt then (RetryCancelled, tr, s)
      else case fn s of
        (None, s') \<Rightarrow> (RetryOk, tr, s')
      | (Some e, s') \<Rightarrow>
          (let tr = tr\<lparr>tr_errors := tr_errors tr @ [e]\<rparr> in
           if \<not> IsRetryable (Some e) p then (ErrNonRetryable e, tr, s')
           else if left = 0 then retry_loop env p fn (Suc attempt) 0 tr s'
           else
             let tr = tr\<lparr>tr_delays := tr_delays tr @ [calculateDelay (env_jitter env attempt) attempt p]\<rparr> in
             if env_sleep_done env attempt then (RetryCancelled, tr, s')
             else retry_loop env p fn (Suc attempt) left tr s'))"

definition WithExponentialBackoff ::
  "retry_env \<Rightarrow> policy \<Rightarrow> ('s \<Rightarrow> 'e go_error option \<times> 's) \<Rightarrow> 's
     \<Rightarrow> 'e retry_result \<times> 'e retry_trace \<times> 's" where
  "WithExponentialBackoff env p fn s =
     (let tr = \<lparr>tr_errors = [], tr_delays = []\<rparr> in
      if \<not> Enabled p then
        (case fn s of
           (None, s') \<Rightarrow> (RetryOk, tr, s')
         | (Some e, s') \<Rightarrow> (RetryPlain e, tr\<lparr>tr_errors := [e]\<rparr>, s'))
      else retry_loop env p fn 0 (nat (MaxAttempts p)) tr s)"

section \<open>Retrying an HTTP handler\<close>

text \<open>
  \<open>HTTPMiddleware.Middleware\<close>.  A handler reads the request body, which is what is
  left of it, and leaves the rest: \<open>Request.Clone\<close> shares the body.  The recorded
  response is its status and bytes; the header map is left out.
\<close>

record http_response =
  hr_status :: int
  hr_body :: go_string

datatype http_reply =
    Reply http_response
  | RequestCancelled "int option"
  | CancelledDuringRetry
  | BadGateway "int option"

fun http_loop ::
  "retry_env \<Rightarrow> policy \<Rightarrow> ('b \<Rightarrow> http_response \<times> 'b) \<Rightarrow> nat \<Rightarrow> nat \<Rightarrow> int option \<Rightarrow> 'b
     \<Rightarrow> http_reply \<times> nat" where
  "http_loop env p handler attempt 0 lastErr body = (BadGateway lastErr, attempt)"
| "http_loop env p handler attempt (Suc left) lastErr body =
     (if env_done env attempt then (RequestCancelled lastErr, attempt)
      else case handler body of (resp, body') \<Rightarrow>
        if hr_status resp < 500 then (Reply resp, Suc attempt)
        else if \<not> IsRetryableStatus (hr_status resp) p then (Reply resp, Suc attempt)
        else if left = 0 then (BadGateway (Some (hr_status resp)), Suc attempt)
        else if env_sleep_done env attempt then (CancelledDuringRetry, Suc attempt)
        else http_loop env p handler (Suc attempt) left (Some (hr_status resp)) body')"

definition HTTPMiddleware ::
  "retry_env \<Rightarrow> policy \<Rightarrow> ('b \<Rightarrow> http_response \<times> 'b) \<Rightarrow> 'b \<Rightarrow> http_reply \<times> nat" where
  "HTTPMiddleware env p handler body =
     (if \<not> Enabled p then (Reply (fst (handler body)), 1)
      else http_loop env p handler 0 (nat (MaxAttempts p)) None body)"

section \<open>Retrying an HTTP client call\<close>

datatype 'e client_result =
    ClientResponse http_response
  | ClientCancelled
  | ClientNonRetryable "'e go_error"
  | ClientMaxRetries "'e go_error"
  | ClientPlain "'e go_error"
  | ClientNothing

text \<open>\<open>send\<close> is the round trip of the transport; the result pairs the last response and error.\<close>

fun client_loop ::
  "retry_env \<Rightarrow> policy \<Rightarrow> ('s \<Rightarrow> ('e go_error + http_response) \<times> 's) \<Rightarrow> nat \<Rightarrow> nat
     \<Rightarrow> ('e go_error + http_response) option \<Rightarrow> 's \<Rightarrow> 'e client_result \<times> 's" where
  "client_loop env p send attempt 0 lst s =
     ((case lst of None \<Rightarrow> ClientNothing | Some (Inl e) \<Rightarrow> ClientMaxRetries e
        | Some (Inr r) \<Rightarrow> ClientResponse r), s)"
| "client_loop env p send attempt (Suc left) lst s =
     (if env_done env attempt then (ClientCancelled, s)
      else case send s of
        (Inl e, s') \<Rightarrow>
          if \<not> IsRetryable (Some e) p then (ClientNonRetryable e, s')
          else if left = 0 then (ClientMaxRetries e, s')
          else if env_sleep_done env attempt then (ClientCancelled, s')
          else client_loop env p send (Suc attempt) left (Some (Inl e)) s'
      | (Inr r, s') \<Rightarrow>
          if \<not> IsRetryableStatus (hr_status r) p then (ClientResponse r, s')
          else if left = 0 then (ClientResponse r, s')
          else if env_sleep_done env attempt then (ClientCancelled, s')
          else client_loop env p send (Suc attempt) left (Some (Inr r)) s')"

text \<open>\<open>default_client\<close> is \<open>http.DefaultClient.Do\<close>, which \<open>Do\<close> always uses.\<close>

definition client_Do ::
  "retry_env \<Rightarrow> policy \<Rightarrow> ('s \<Rightarrow> ('e go_error + http_response) \<times> 's) \<Rightarrow> 's \<Rightarrow> 'e client_result \<times> 's" where
  "client_Do env p default_client s =
     (if \<not> Enabled p then
        (case default_client s of
           (Inl e, s') \<Rightarrow> (ClientPlain e, s')
         | (Inr r, s') \<Rightarrow> (ClientResponse r, s'))
      else client_loop env p default_client 0 (nat (MaxAttempts p)) None s)"

definition RoundTrip ::
  "retry_env \<Rightarrow> policy \<Rightarrow> ('s \<Rightarrow> ('e go_error + http_response) \<times> 's)
     \<Rightarrow> ('s \<Rightarrow> ('e go_error + http_response) \<times> 's) \<Rightarrow> 's \<Rightarrow> 'e client_result \<times> 's" where
  "RoundTrip env p base default_client s =
     (if \<not> Enabled p then
        (case base s of
           (Inl e, s') \<Rightarrow> (ClientPlain e, s')
         | (Inr r, s') \<Rightarrow> (ClientResponse r, s'))
      else client_Do env p default_client s)"

section \<open>Lemmas on delays\<close>

lemma round64_03: "round64 (3 / 10) = Fin (5404319552844595 / 18014398509481984)"
  by code_simp

text \<open>What a delay is before the jitter: the capped power, between the first delay and the cap.\<close>

definition capped_delay :: "nat \<Rightarrow> policy \<Rightarrow> float64" where
  "capped_delay attempt p =
     (let delay = fmul (float64_of_int (InitialDelay p)) (Pow (BackoffMultiplier p) attempt) in
      if fless (float64_of_int (MaxDelay p)) delay then float64_of_int (MaxDelay p) else delay)"

lemma calculateDelay_eq:
  "calculateDelay j attempt p =
     int64_of_float64 (if JitterEnabled p
       then fadd (capped_delay attempt p) (fmul (fmul j (round64 (3 / 10))) (capped_delay attempt p))
       else capped_delay attempt p)"
  by (simp add: calculateDelay_def capped_delay_def Let_def)

text \<open>A policy whose delays are whole numbers of nanoseconds that a \<open>float64\<close> holds exactly.\<close>

definition tame :: "policy \<Rightarrow> bool" where
  "tame p \<longleftrightarrow> validatePolicy p \<and> Enabled p \<and> BackoffMultiplier p \<noteq> NaN \<and> 0 < InitialDelay p \<and> MaxDelay p \<le> 2 ^ 52"

lemma tame_exact:
  assumes "tame p"
  shows "float64_of_int (InitialDelay p) = Fin (of_int (InitialDelay p))"
    and "float64_of_int (MaxDelay p) = Fin (of_int (MaxDelay p))"
  using assms by (auto simp: tame_def validatePolicy_def intro!: float64_of_int_exact)

lemma int_on_grid: "0 \<le> i \<Longrightarrow> i \<le> 2 ^ 53 \<Longrightarrow> on_grid (of_int i)"
  by (rule on_grid_int) simp

lemma int_less_max: "i \<le> 2 ^ 53 \<Longrightarrow> of_int i < (2::rat) ^ max_bits"
proof -
  assume "i \<le> 2 ^ 53"
  then have "(of_int i :: rat) \<le> of_int (2 ^ 53)"
    by (simp only: of_int_le_iff)
  also have "\<dots> < 2 ^ max_bits"
    by (simp add: max_bits_def)
  finally show ?thesis .
qed

lemma capped_delay_bounds:
  assumes "tame p" "attempt < 2 ^ 63"
  shows "\<exists>d. capped_delay attempt p = Fin d \<and> of_int (InitialDelay p) \<le> d \<and> d \<le> of_int (MaxDelay p)"
proof -
  let ?I = "of_int (InitialDelay p) :: rat" and ?M = "of_int (MaxDelay p) :: rat"
  have valid: "0 < InitialDelay p" "InitialDelay p \<le> MaxDelay p" "MaxDelay p \<le> 2 ^ 53"
    and mult: "BackoffMultiplier p \<noteq> NaN" "\<not> fless (BackoffMultiplier p) (Fin 1)"
    using assms by (auto simp: tame_def validatePolicy_def)
  have grid: "on_grid ?I"
    using valid by (intro int_on_grid) simp_all
  have "fmul (Fin ?I) (Pow (BackoffMultiplier p) attempt) = PInf
      \<or> (\<exists>d\<ge>?I. fmul (Fin ?I) (Pow (BackoffMultiplier p) attempt) = Fin d)"
    using Pow_ge_1 [OF mult assms(2)]
  proof
    assume "Pow (BackoffMultiplier p) attempt = PInf"
    then show ?thesis
      using valid by (simp add: inf_times_def)
  next
    assume "\<exists>q\<ge>1. Pow (BackoffMultiplier p) attempt = Fin q"
    then obtain q where q: "Pow (BackoffMultiplier p) attempt = Fin q" "1 \<le> q"
      by blast
    then have "?I * 1 \<le> ?I * q"
      using valid by (intro mult_left_mono) simp_all
    then show ?thesis
      using round64_ge [of ?I "?I * q"] grid valid q(1) by simp
  qed
  then show ?thesis
    unfolding capped_delay_def Let_def tame_exact [OF assms(1)] using valid by auto
qed

lemma sum_le_53: "a \<le> 2 ^ 52 \<Longrightarrow> b \<le> a \<Longrightarrow> a + b \<le> 2 ^ 53" for a b :: int
  by simp

text \<open>With a draw of the unit interval, the jitter adds at most three tenths of the cap, rounded up to a nanosecond.\<close>

lemma jittered_bounds:
  assumes "0 \<le> j" "j \<le> 1" "0 \<le> L" "of_int L \<le> d" "d \<le> of_int M" "M \<le> 2 ^ 52"
  shows "\<exists>t. fadd (Fin d) (fmul (fmul (Fin j) (round64 (3 / 10))) (Fin d)) = Fin t
    \<and> of_int L \<le> t \<and> t \<le> of_int (M + \<lceil>3 / 10 * of_int M :: rat\<rceil>)"
proof -
  let ?c = "5404319552844595 / 18014398509481984 :: rat" and ?J = "\<lceil>3 / 10 * of_int M :: rat\<rceil>"
  have d: "0 \<le> d"
    using assms(3,4) order_trans [of 0 "of_int L" d] by simp
  then have M: "0 \<le> M"
    using assms(5) order_trans [of 0 d "of_int M"] by simp
  have "(3 / 10 * of_int M :: rat) \<le> of_int M"
    using M by simp
  then have JM: "?J \<le> M" "0 \<le> ?J"
    using M by (simp_all add: ceiling_le_iff)
  have "\<exists>r. round64 (j * ?c) = Fin r \<and> 0 \<le> r \<and> r \<le> ?c"
  proof (rule round64_le)
    show "j * ?c \<le> ?c"
      using assms(1,2) by simp
    show "on_grid ?c"
      using on_gridI [of 5404319552844595 54] by (simp add: scale_bits_def)
    have "?c \<le> 1"
      by simp
    then show "?c < 2 ^ max_bits"
      using one_less_max by (rule order_le_less_trans)
  qed (use assms(1) in simp)
  then obtain r where r: "round64 (j * ?c) = Fin r" "0 \<le> r" "r \<le> ?c"
    by blast
  have "r * d \<le> 3 / 10 * of_int M"
    using r d assms(5) by (intro mult_mono) simp_all
  also have "\<dots> \<le> of_int ?J"
    by (rule le_of_int_ceiling)
  finally have "\<exists>s. round64 (r * d) = Fin s \<and> 0 \<le> s \<and> s \<le> of_int ?J"
    using r(2) d JM assms(6) by (intro round64_le int_on_grid int_less_max) simp_all
  then obtain s where s: "round64 (r * d) = Fin s" "0 \<le> s" "s \<le> of_int ?J"
    by blast
  have "\<exists>t. round64 (d + s) = Fin t \<and> of_int L \<le> t \<and> t \<le> of_int (M + ?J)"
  proof (rule round64_between)
    have "L \<le> M"
      using order_trans [OF assms(4,5)] by simp
    then show "on_grid (of_int L)"
      using assms(3,6) by (intro int_on_grid) simp_all
    have "M + ?J \<le> 2 ^ 53" "0 \<le> M + ?J"
      using sum_le_53 [OF assms(6) JM(1)] JM(2) M by simp_all
    then show "on_grid (of_int (M + ?J))" "of_int (M + ?J) < (2::rat) ^ max_bits"
      by (simp_all only: int_on_grid int_less_max)
  qed (use assms(3-5) s in simp_all)
  then show ?thesis
    by (simp only: round64_03 fmul.simps fadd.simps r(1) s(1))
qed

lemma int64_between:
  assumes "0 \<le> a" "of_int a \<le> t" "t \<le> of_int b" "b < 2 ^ 63"
  shows "a \<le> int64_of_float64 (Fin t) \<and> int64_of_float64 (Fin t) \<le> b"
proof -
  have "0 \<le> t"
    using assms(1,2) order_trans [of 0 "of_int a" t] by simp
  moreover have "a \<le> \<lfloor>t\<rfloor>" "\<lfloor>t\<rfloor> \<le> b"
    using assms(2,3) by (simp_all add: le_floor_iff floor_le_iff order_le_less_trans)
  moreover have "- (2 ^ 63) \<le> \<lfloor>t\<rfloor>" "\<lfloor>t\<rfloor> < 2 ^ 63"
    using calculation(2,3) assms(1,4) by linarith+
  ultimately show ?thesis
    by (simp add: int64_of_float64_def trunc_def)
qed

section \<open>Lemmas on the loop\<close>

definition all_retryable :: "policy \<Rightarrow> 'e go_error list \<Rightarrow> bool" where
  "all_retryable p es \<longleftrightarrow> list_all (\<lambda>e. IsRetryable (Some e) p) es"

text \<open>What a result says of the errors seen, when the loop makes at most \<open>N\<close> calls.\<close>

definition result_explains :: "policy \<Rightarrow> nat \<Rightarrow> 'e retry_result \<Rightarrow> 'e go_error list \<Rightarrow> bool" where
  "result_explains p N r es \<longleftrightarrow>
     length es \<le> N \<and> all_retryable p (butlast es) \<and>
     (case r of
        RetryOk \<Rightarrow> all_retryable p es \<and> length es < N
      | RetryCancelled \<Rightarrow> all_retryable p es \<and> length es < N
      | ErrNonRetryable e \<Rightarrow> es \<noteq> [] \<and> last es = e \<and> \<not> IsRetryable (Some e) p
      | ErrMaxRetriesExceeded e \<Rightarrow> all_retryable p es \<and> length es = N
          \<and> e = (if es = [] then None else Some (last es))
      | RetryPlain e \<Rightarrow> False)"

lemma all_retryable_butlast: "all_retryable p es \<Longrightarrow> all_retryable p (butlast es)"
  by (auto simp: all_retryable_def list_all_iff dest: in_set_butlastD)

lemma all_retryable_snoc [simp]:
  "all_retryable p (es @ [e]) \<longleftrightarrow> all_retryable p es \<and> IsRetryable (Some e) p"
  by (auto simp: all_retryable_def)

lemma retry_loop_explains:
  assumes "all_retryable p (tr_errors tr)" "retry_loop env p fn attempt left tr s = (r, tr', s')"
  shows "result_explains p (length (tr_errors tr) + left) r (tr_errors tr')"
  using assms
proof (induction env p fn attempt left tr s rule: retry_loop.induct)
  case (1 env p fn attempt tr s)
  then show ?case
    by (auto simp: result_explains_def all_retryable_butlast)
next
  case (2 env p fn attempt left tr s)
  show ?case
  proof (cases "env_done env attempt \<or> fst (fn s) = None")
    case True
    with 2 show ?thesis
      by (cases "fn s") (auto simp: result_explains_def all_retryable_butlast split: if_splits)
  next
    case False
    then obtain e s1 where call: "fn s = (Some e, s1)" "\<not> env_done env attempt"
      by (cases "fn s") auto
    show ?thesis
    proof (cases "IsRetryable (Some e) p")
      case False
      with call 2 show ?thesis
        by (auto simp: result_explains_def)
    next
      case True
      note retryable = this
      show ?thesis
      proof (cases "left = 0")
        case True
        with call retryable 2 show ?thesis
          by (auto simp: result_explains_def all_retryable_butlast)
      next
        case more: False
        show ?thesis
        proof (cases "env_sleep_done env attempt")
          case True
          with call retryable more 2 show ?thesis
            by (auto simp: result_explains_def all_retryable_butlast Let_def)
        next
          case False
          with call retryable more 2 show ?thesis
            by (simp add: Let_def)
        qed
      qed
    qed
  qed
qed

lemma retry_loop_delays:
  assumes "retry_loop env p fn attempt left tr s = (r, tr', s')"
    and "\<And>n. n < attempt + left \<Longrightarrow> calculateDelay (env_jitter env n) n p \<le> B"
  shows "\<exists>ds. tr_delays tr' = tr_delays tr @ ds \<and> length ds \<le> left - 1 \<and> list_all (\<lambda>d. d \<le> B) ds"
  using assms
proof (induction env p fn attempt left tr s rule: retry_loop.induct)
  case (2 env p fn attempt left tr s)
  show ?case
  proof (cases "\<exists>e s1. fn s = (Some e, s1) \<and> \<not> env_done env attempt \<and> IsRetryable (Some e) p
      \<and> left \<noteq> 0 \<and> \<not> env_sleep_done env attempt")
    case True
    then obtain e s1 where call: "fn s = (Some e, s1)" "\<not> env_done env attempt" "IsRetryable (Some e) p"
        "left \<noteq> 0" "\<not> env_sleep_done env attempt"
      by blast
    define d where "d = calculateDelay (env_jitter env attempt) attempt p"
    have "\<exists>ds. tr_delays tr' = (tr_delays tr @ [d]) @ ds \<and> length ds \<le> left - 1 \<and> list_all (\<lambda>d. d \<le> B) ds"
      using 2 call by (auto simp: d_def Let_def)
    then show ?thesis
      using call(4) "2.prems"(2) [of attempt] by (auto simp: d_def)
  next
    case False
    with "2.prems" show ?thesis
      by (auto simp: Let_def split: if_splits prod.splits option.splits)
  qed
qed auto

lemma sum_list_bound: "list_all (\<lambda>d. d \<le> B) ds \<Longrightarrow> sum_list ds \<le> of_nat (length ds) * (B::int)"
  by (induction ds) (auto simp: algebra_simps)

lemma delay_bounds_aux:
  assumes "tame p" "attempt < 2 ^ 63" "0 \<le> j" "j \<le> 1"
  shows "InitialDelay p \<le> calculateDelay (Fin j) attempt p"
    and "calculateDelay (Fin j) attempt p \<le> MaxDelay p + \<lceil>3 / 10 * of_int (MaxDelay p) :: rat\<rceil>"
    and "\<not> JitterEnabled p \<Longrightarrow> calculateDelay (Fin j) attempt p \<le> MaxDelay p"
proof -
  obtain d where d: "capped_delay attempt p = Fin d" "of_int (InitialDelay p) \<le> d" "d \<le> of_int (MaxDelay p)"
    using capped_delay_bounds [OF assms(1,2)] by blast
  have valid: "0 \<le> InitialDelay p" "0 \<le> MaxDelay p" "MaxDelay p \<le> 2 ^ 52"
    using assms(1) by (auto simp: tame_def validatePolicy_def)
  have "(3 / 10 * of_int (MaxDelay p) :: rat) \<le> of_int (MaxDelay p)"
    using valid by simp
  then have J: "\<lceil>3 / 10 * of_int (MaxDelay p) :: rat\<rceil> \<le> MaxDelay p" "0 \<le> \<lceil>3 / 10 * of_int (MaxDelay p) :: rat\<rceil>"
    using valid by (simp_all add: ceiling_le_iff)
  obtain t where t: "fadd (Fin d) (fmul (fmul (Fin j) (round64 (3 / 10))) (Fin d)) = Fin t"
    "of_int (InitialDelay p) \<le> t" "t \<le> of_int (MaxDelay p + \<lceil>3 / 10 * of_int (MaxDelay p) :: rat\<rceil>)"
    using jittered_bounds [OF assms(3,4) valid(1) d(2,3) valid(3)] by blast
  have "MaxDelay p < 2 ^ 63"
    using valid by simp
  note plain = int64_between [OF valid(1) d(2,3) this] and jit = int64_between [OF valid(1) t(2,3)]
  show "InitialDelay p \<le> calculateDelay (Fin j) attempt p"
    using plain jit valid J unfolding calculateDelay_eq d(1) t(1) by simp
  have "int64_of_float64 (Fin d) \<le> MaxDelay p + \<lceil>3 / 10 * of_int (MaxDelay p) :: rat\<rceil>"
    using plain valid J by linarith
  then show "calculateDelay (Fin j) attempt p \<le> MaxDelay p + \<lceil>3 / 10 * of_int (MaxDelay p) :: rat\<rceil>"
    using jit valid J unfolding calculateDelay_eq d(1) t(1) by simp
  show "calculateDelay (Fin j) attempt p \<le> MaxDelay p" if "\<not> JitterEnabled p"
    using plain valid that unfolding calculateDelay_eq d(1) by simp
qed

lemma first_delay:
  assumes "tame p" "\<not> JitterEnabled p"
  shows "calculateDelay j 0 p = InitialDelay p"
proof -
  have valid: "0 < InitialDelay p" "InitialDelay p \<le> MaxDelay p" "MaxDelay p \<le> 2 ^ 52"
    using assms(1) by (auto simp: tame_def validatePolicy_def)
  have "round64 (of_int (InitialDelay p)) = Fin (of_int (InitialDelay p))"
    using tame_exact(1) [OF assms(1)] by (simp add: float64_of_int_def)
  then have "capped_delay 0 p = Fin (of_int (InitialDelay p))"
    unfolding capped_delay_def tame_exact [OF assms(1)] using valid by (simp add: Pow_def)
  then show ?thesis
    unfolding calculateDelay_eq using assms(2) valid by (simp add: int64_of_float64_def trunc_def)
qed

lemma config_valid_env: "config_Validate DefaultConfig" "config_Validate ProductionConfig"
  "config_Validate DevelopmentConfig" "config_Validate TestingConfig"
  by (simp_all add: config_Validate_def DefaultConfig_def ProductionConfig_def
      DevelopmentConfig_def TestingConfig_def mk_policy_def DatabasePolicy_def ExternalServicePolicy_def
      InteractivePolicy_def validatePolicy_def validateCircuitBreakerConfig_def DefaultCircuitBreaker_def)

lemma Merge_valid: "config_Validate c \<Longrightarrow> config_Validate d \<Longrightarrow> config_Validate (Merge c d)"
  by (simp add: config_Validate_def Merge_def)

section \<open>Properties\<close>

text \<open>C11: a retried call is made at most \<open>MaxAttempts\<close> times and the result explains the errors: every
  error before the last was retryable, success and cancellation come before the attempts run out,
  a non-retryable error ends the loop at once and is the one reported, and giving up means that
  exactly \<open>MaxAttempts\<close> calls failed, all retryably, the last of them being reported.\<close>

theorem backoff_result_explained:
  assumes "Enabled p" and "validatePolicy p" and "WithExponentialBackoff env p fn s = (r, tr, s')"
  shows "result_explains p (nat (MaxAttempts p)) r (tr_errors tr)
    \<and> r \<noteq> ErrMaxRetriesExceeded None"
proof -
  have "result_explains p (nat (MaxAttempts p)) r (tr_errors tr)"
    using retry_loop_explains [of p "\<lparr>tr_errors = [], tr_delays = []\<rparr>" env fn 0 "nat (MaxAttempts p)" s r tr s']
      assms by (simp add: WithExponentialBackoff_def all_retryable_def Let_def)
  moreover have "nat (MaxAttempts p) > 0"
    using assms(1,2) by (simp add: validatePolicy_def)
  ultimately show ?thesis
    by (cases "tr_errors tr") (auto simp: result_explains_def)
qed

definition steady_env :: retry_env where
  "steady_env = \<lparr>env_done = (\<lambda>_. False), env_sleep_done = (\<lambda>_. False), env_jitter = (\<lambda>_. Fin (1 / 2))\<rparr>"

definition busy_error :: "unit go_error" where
  "busy_error = \<lparr>err_value = (), err_retryable = None, err_client_fault = False,
     err_text = ''Database is LOCKED''\<rparr>"

text \<open>A statement that fails twice with a locked database and then succeeds.\<close>

definition flaky :: "nat \<Rightarrow> unit go_error option \<times> nat" where
  "flaky n = (if n < 2 then (Some busy_error, Suc n) else (None, n))"

lemma backoff_result_explained_witness:
  "result_explains DatabasePolicy 3 (RetryOk :: unit retry_result) [busy_error, busy_error]"
proof -
  have run: "WithExponentialBackoff steady_env DatabasePolicy flaky 0
      = (RetryOk, \<lparr>tr_errors = [busy_error, busy_error],
          tr_delays = tr_delays (fst (snd (WithExponentialBackoff steady_env DatabasePolicy flaky 0)))\<rparr>, 2)"
    by code_simp
  have "Enabled DatabasePolicy" "validatePolicy DatabasePolicy" "nat (MaxAttempts DatabasePolicy) = 3"
    by (simp_all add: DatabasePolicy_def validatePolicy_def)
  with backoff_result_explained [OF _ _ run] show ?thesis
    by simp
qed

text \<open>C12: delays are bounded, computed in \<open>float64\<close> and converted to \<open>int64\<close>.  Take an enabled valid policy
  whose multiplier is not NaN, whose first delay is positive and whose \<open>MaxDelay\<close> is at most \<open>2 ^ 52\<close>
  nanoseconds (52 days), and a jitter draw in the unit interval.  Then every delay lies between
  \<open>InitialDelay\<close> and \<open>MaxDelay\<close> plus three tenths of it, rounded up to a nanosecond; without jitter it is
  at most \<open>MaxDelay\<close>, and the first one is \<open>InitialDelay\<close>.\<close>

theorem delay_bounds:
  assumes "validatePolicy p" and "Enabled p" and "BackoffMultiplier p \<noteq> NaN"
    and "0 < InitialDelay p" and "MaxDelay p \<le> 2 ^ 52" and "attempt < 2 ^ 63" and "0 \<le> j" and "j \<le> 1"
  shows "InitialDelay p \<le> calculateDelay (Fin j) attempt p
    \<and> calculateDelay (Fin j) attempt p \<le> MaxDelay p + \<lceil>3 / 10 * of_int (MaxDelay p) :: rat\<rceil>
    \<and> (\<not> JitterEnabled p \<longrightarrow>
        calculateDelay (Fin j) attempt p \<le> MaxDelay p \<and> calculateDelay (Fin j) 0 p = InitialDelay p)"
proof -
  have "tame p"
    using assms(1-5) by (simp add: tame_def)
  then show ?thesis
    using delay_bounds_aux [of p attempt j] first_delay [of p "Fin j"] assms(6-8) by blast
qed

lemma delay_bounds_witness:
  "1 * second \<le> calculateDelay (Fin (1 / 2)) 9 ExternalServicePolicy
   \<and> calculateDelay (Fin (1 / 2)) 9 ExternalServicePolicy \<le> 39 * second"
proof -
  have "validatePolicy ExternalServicePolicy" "Enabled ExternalServicePolicy"
    "BackoffMultiplier ExternalServicePolicy \<noteq> NaN" "0 < InitialDelay ExternalServicePolicy"
    "MaxDelay ExternalServicePolicy \<le> 2 ^ 52"
    by (simp_all add: ExternalServicePolicy_def validatePolicy_def)
  from delay_bounds [OF this, of 9 "1 / 2"] show ?thesis
    by (simp add: ExternalServicePolicy_def)
qed

text \<open>The jitter is added after the cap, so a delay can be larger than \<open>MaxDelay\<close>.\<close>

lemma jitter_exceeds_MaxDelay:
  "calculateDelay (Fin (1 / 2)) 9 ExternalServicePolicy > MaxDelay ExternalServicePolicy"
  by code_simp

text \<open>Outside these hypotheses a policy that validates can make the wait vanish: with the multiplier NaN, which no
  comparison rejects, and with a cap so large that the \<open>float64\<close> of it is out of the range of \<open>int64\<close>, the
  conversion gives the least integer, and a timer of negative duration fires at once.\<close>

lemma fmul_NaN: "fmul x NaN = NaN" and fadd_NaN: "fadd NaN x = NaN" and fless_NaN: "\<not> fless x NaN"
  by (cases x; simp)+

lemma nan_multiplier_never_waits:
  assumes "BackoffMultiplier p = NaN" "0 < attempt"
  shows "calculateDelay j attempt p = - (2 ^ 63)"
    and "validatePolicy (ExternalServicePolicy\<lparr>BackoffMultiplier := NaN\<rparr>)"
proof -
  have "Pow NaN attempt = NaN"
    using assms(2) by (simp add: Pow_def)
  then show "calculateDelay j attempt p = - (2 ^ 63)"
    by (simp add: calculateDelay_def assms(1) fmul_NaN fadd_NaN fless_NaN int64_of_float64_def)
  show "validatePolicy (ExternalServicePolicy\<lparr>BackoffMultiplier := NaN\<rparr>)"
    by (simp add: validatePolicy_def ExternalServicePolicy_def)
qed

definition longest_policy :: policy where
  "longest_policy = ExternalServicePolicy\<lparr>InitialDelay := 2 ^ 63 - 1, MaxDelay := 2 ^ 63 - 1, JitterEnabled := False\<rparr>"

lemma longest_delay_never_waits:
  "validatePolicy longest_policy \<and> calculateDelay j 0 longest_policy = - (2 ^ 63)"
proof
  have "float64_of_int (2 ^ 63 - 1) = Fin (2 ^ 63)" "fmul (Fin (2 ^ 63)) (Fin 1) = Fin (2 ^ 63)"
    by code_simp+
  then show "calculateDelay j 0 longest_policy = - (2 ^ 63)"
    by (simp add: calculateDelay_def longest_policy_def ExternalServicePolicy_def Pow_def int64_of_float64_def trunc_def)
  show "validatePolicy longest_policy"
    by (simp add: validatePolicy_def longest_policy_def ExternalServicePolicy_def)
qed

text \<open>The time a retried call can add is bounded by the policy: the delays slept sum to at most
  \<open>MaxAttempts - 1\<close> times the largest delay.\<close>

theorem backoff_total_delay:
  assumes "tame p" and "MaxAttempts p < 2 ^ 63"
    and "\<forall>n. \<exists>j. env_jitter env n = Fin j \<and> 0 \<le> j \<and> j \<le> 1"
    and "WithExponentialBackoff env p fn s = (r, tr, s')"
  shows "sum_list (tr_delays tr) \<le> (MaxAttempts p - 1) * (MaxDelay p + \<lceil>3 / 10 * of_int (MaxDelay p) :: rat\<rceil>)"
proof -
  define B where "B = MaxDelay p + \<lceil>3 / 10 * of_int (MaxDelay p) :: rat\<rceil>"
  have p: "Enabled p" "validatePolicy p"
    using assms(1) by (simp_all add: tame_def)
  have delays: "calculateDelay (env_jitter env n) n p \<le> B \<and> 0 \<le> B" if n: "n < 0 + nat (MaxAttempts p)" for n
  proof -
    have "n < 2 ^ 63"
    proof -
      have "int n < 2 ^ 63"
        using n assms(2) by linarith
      then show ?thesis
        by simp
    qed
    moreover obtain j where "env_jitter env n = Fin j" "0 \<le> j" "j \<le> 1"
      using assms(3) by blast
    ultimately show ?thesis
      using delay_bounds_aux [OF assms(1), of n j] assms(1)
      by (auto simp: B_def tame_def)
  qed
  have B: "0 \<le> B"
    using delays [of 0] p by (simp add: validatePolicy_def)
  obtain ds where ds: "tr_delays tr = ds" "length ds \<le> nat (MaxAttempts p) - 1" "list_all (\<lambda>d. d \<le> B) ds"
    using retry_loop_delays [of env p fn 0 "nat (MaxAttempts p)" "\<lparr>tr_errors = [], tr_delays = []\<rparr>" s r tr s' B]
      delays p assms(4)
    by (auto simp: WithExponentialBackoff_def Let_def)
  have "sum_list ds \<le> of_nat (length ds) * B"
    using ds(3) by (rule sum_list_bound)
  also have "\<dots> \<le> (MaxAttempts p - 1) * B"
    using ds(2) B p by (intro mult_right_mono) (auto simp: validatePolicy_def)
  finally show ?thesis
    using ds(1) by (simp add: B_def)
qed

lemma backoff_total_delay_witness:
  "sum_list (tr_delays (fst (snd (WithExponentialBackoff steady_env DatabasePolicy flaky 0))))
     \<le> 2 * (13 * second div 2)"
proof -
  have "tame DatabasePolicy" "MaxAttempts DatabasePolicy < 2 ^ 63"
    by (simp_all add: tame_def DatabasePolicy_def validatePolicy_def)
  moreover have "\<forall>n. \<exists>j. env_jitter steady_env n = Fin j \<and> 0 \<le> j \<and> j \<le> 1"
    by (intro allI exI [of _ "1 / 2"]) (simp add: steady_env_def)
  ultimately show ?thesis
    using backoff_total_delay [of DatabasePolicy steady_env flaky 0]
    by (cases "WithExponentialBackoff steady_env DatabasePolicy flaky 0") (simp add: DatabasePolicy_def)
qed

text \<open>Every shipped configuration is valid, and merging valid configurations gives a valid one.\<close>

theorem shipped_configs_valid:
  "config_Validate (ForEnvironment env)
   \<and> (config_Validate c \<and> config_Validate d \<longrightarrow> config_Validate (Merge c d))"
  by (simp add: ForEnvironment_def config_valid_env Merge_valid)

lemma shipped_configs_valid_witness:
  "config_Validate (Merge DefaultConfig ProductionConfig)"
  using shipped_configs_valid [of "''prod''" DefaultConfig ProductionConfig]
    config_valid_env by simp

section \<open>Defects of the HTTP wrappers\<close>

text \<open>A retried handler that reads its body runs again on an empty one.\<close>

lemma http_retry_body_drained:
  assumes "handler body = (resp, [])" "hr_status resp \<ge> 500" "IsRetryableStatus (hr_status resp) p"
    and "Enabled p" "MaxAttempts p \<ge> 2" "\<not> env_done env 0" "\<not> env_sleep_done env 0"
  shows "HTTPMiddleware env p handler body
    = http_loop env p handler 1 (nat (MaxAttempts p) - 1) (Some (hr_status resp)) []"
proof -
  have "2 \<le> nat (MaxAttempts p)"
    using assms(5) by linarith
  then obtain n where "nat (MaxAttempts p) = 2 + n"
    using le_Suc_ex by blast
  then have n: "nat (MaxAttempts p) = Suc (Suc n)"
    by simp
  show ?thesis
    using assms(1-4,6,7) by (simp add: HTTPMiddleware_def n)
qed

text \<open>An enabled transport never uses the transport it wraps.\<close>

lemma RoundTrip_ignores_base: "Enabled p \<Longrightarrow> RoundTrip env p base1 dc s = RoundTrip env p base2 dc s"
  by (simp add: RoundTrip_def)

end
