(* ===== verification/LoginThrottle.thy ===== *)
theory LoginThrottle
  imports Prelude "HOL-Library.Signed_Division"
begin

text \<open>
  Backoff on failed logins (\<open>src/internal/services/auth/login_throttle.go\<close>) over its
  counter table (\<open>src/internal/repositories/login_failure_repository.go\<close>).

  Delays are \<open>time.Duration\<close>, 64-bit signed nanoseconds, and so are 64-bit words
  here, because the code shifts them.  The table maps a key to its counter.  The
  hash of a username, SHA-256 in base64, is the parameter \<open>hash\<close>; that two names
  do not collide is a hypothesis where it matters.  \<open>fails\<close> says which statement
  the database refuses.
\<close>

section \<open>The delay\<close>

definition loginFreeAttempts :: "64 word" where "loginFreeAttempts = 5"
definition loginBaseDelay :: "64 word" where "loginBaseDelay = 2 * 1000000000"
definition loginMaxDelay :: "64 word" where "loginMaxDelay = 15 * 60 * 1000000000"
definition loginResetAfter :: int where "loginResetAfter = 24 * 60 * 60 * 1000000000"

definition loginDelay :: "64 word \<Rightarrow> 64 word" where
  "loginDelay failures =
     (let over = failures - loginFreeAttempts in
      if sint over \<le> 0 then 0
      else if sint over > 10 then loginMaxDelay
      else
        let d = push_bit (unat (over - 1)) loginBaseDelay in
        if sint d > sint loginMaxDelay then loginMaxDelay else d)"

text \<open>What it computes: doubling from two seconds, capped at fifteen minutes.\<close>

definition ideal_delay :: "int \<Rightarrow> int" where
  "ideal_delay failures =
     (if failures \<le> 5 then 0 else min (2000000000 * 2 ^ nat (failures - 6)) 900000000000)"

section \<open>The counter table\<close>

record login_failure =
  lf_failures :: int
  lf_last :: instant

type_synonym failure_table = "go_string \<Rightarrow> login_failure option"

datatype throttle_stmt = LfGet | LfRecord | LfDelete | LfPrune

datatype lookup_error = LfNotFound | LfDbError

definition lf_get :: "(throttle_stmt \<Rightarrow> bool) \<Rightarrow> go_string \<Rightarrow> failure_table \<Rightarrow> lookup_error + login_failure" where
  "lf_get fails key tbl =
     (if fails LfGet then Inl LfDbError
      else case tbl key of None \<Rightarrow> Inl LfNotFound | Some row \<Rightarrow> Inr row)"

definition lf_upsert :: "go_string \<Rightarrow> login_failure \<Rightarrow> failure_table \<Rightarrow> failure_table" where
  "lf_upsert key row tbl = tbl(key := Some row)"

definition lf_remove :: "go_string \<Rightarrow> failure_table \<Rightarrow> failure_table" where
  "lf_remove key tbl = tbl(key := None)"

definition lf_record ::
  "(throttle_stmt \<Rightarrow> bool) \<Rightarrow> go_string \<Rightarrow> instant \<Rightarrow> instant \<Rightarrow> failure_table \<Rightarrow> bool \<times> failure_table" where
  "lf_record fails key at stale_before tbl =
     (if fails LfRecord then (False, tbl)
      else (True, lf_upsert key
        \<lparr>lf_failures = (case tbl key of
             None \<Rightarrow> 1
           | Some row \<Rightarrow> if lf_last row < stale_before then 1 else lf_failures row + 1),
         lf_last = at\<rparr> tbl))"

definition lf_delete :: "(throttle_stmt \<Rightarrow> bool) \<Rightarrow> go_string \<Rightarrow> failure_table \<Rightarrow> bool \<times> failure_table" where
  "lf_delete fails key tbl = (if fails LfDelete then (False, tbl) else (True, lf_remove key tbl))"

definition lf_prune :: "(throttle_stmt \<Rightarrow> bool) \<Rightarrow> instant \<Rightarrow> failure_table \<Rightarrow> bool \<times> failure_table" where
  "lf_prune fails cutoff tbl =
     (if fails LfPrune then (False, tbl)
      else (True, \<lambda>key. case tbl key of None \<Rightarrow> None
                         | Some row \<Rightarrow> if lf_last row < cutoff then None else Some row))"

interpretation counters: keyed_store "\<lambda>tbl key. tbl key" lf_upsert lf_remove "\<lambda>_. True"
  by unfold_locales (auto simp: lf_upsert_def lf_remove_def)

section \<open>The throttle\<close>

definition throttleKey :: "(go_string \<Rightarrow> go_string) \<Rightarrow> go_string \<Rightarrow> go_string" where
  "throttleKey hash username = ''sha256:'' @ hash username"

text \<open>The result of \<open>Check\<close>: the wait of a \<open>ThrottledError\<close>, or nil.\<close>

definition Check ::
  "(throttle_stmt \<Rightarrow> bool) \<Rightarrow> (go_string \<Rightarrow> go_string) \<Rightarrow> instant \<Rightarrow> go_string \<Rightarrow> failure_table
     \<Rightarrow> int option" where
  "Check fails hash now username tbl =
     (case lf_get fails (throttleKey hash username) tbl of
        Inl _ \<Rightarrow> None
      | Inr row \<Rightarrow>
          if now - lf_last row \<ge> loginResetAfter then None
          else
            let wait = lf_last row + sint (loginDelay (of_int (lf_failures row))) - now in
            if wait > 0 then Some wait else None)"

definition RecordFailure ::
  "(throttle_stmt \<Rightarrow> bool) \<Rightarrow> (go_string \<Rightarrow> go_string) \<Rightarrow> instant \<Rightarrow> go_string \<Rightarrow> failure_table
     \<Rightarrow> failure_table" where
  "RecordFailure fails hash now username tbl =
     (let stale_before = now - loginResetAfter in
      case lf_record fails (throttleKey hash username) now stale_before tbl of
        (False, tbl') \<Rightarrow> tbl'
      | (True, tbl') \<Rightarrow> snd (lf_prune fails stale_before tbl'))"

definition Reset ::
  "(throttle_stmt \<Rightarrow> bool) \<Rightarrow> (go_string \<Rightarrow> go_string) \<Rightarrow> go_string \<Rightarrow> failure_table \<Rightarrow> failure_table" where
  "Reset fails hash username tbl = snd (lf_delete fails (throttleKey hash username) tbl)"

section \<open>Lemmas\<close>

lemma throttleKey_inj: "inj hash \<Longrightarrow> throttleKey hash u = throttleKey hash v \<longleftrightarrow> u = v"
  by (simp add: throttleKey_def inj_eq)

lemma reset_pos: "0 < loginResetAfter"
  by (simp add: loginResetAfter_def)

lemma sint_over:
  assumes "0 \<le> f" "f < 2 ^ 63"
  shows "sint (of_int f - loginFreeAttempts) = f - 5"
proof -
  have "sint (word_of_int (f - 5) :: 64 word) = f - 5"
    using assms by (intro signed_take_bit_int_eq_self [THEN trans [OF sint_sbintrunc']]) auto
  then show ?thesis
    by (simp add: loginFreeAttempts_def)
qed

lemma loginDelay_small:
  "loginDelay 6 = 2000000000" "loginDelay 7 = 4000000000" "loginDelay 8 = 8000000000"
  "loginDelay 9 = 16000000000" "loginDelay 10 = 32000000000" "loginDelay 11 = 64000000000"
  "loginDelay 12 = 128000000000" "loginDelay 13 = 256000000000" "loginDelay 14 = 512000000000"
  "loginDelay 15 = 900000000000"
  by code_simp+

lemma ideal_delay_cap: "f > 15 \<Longrightarrow> ideal_delay f = 900000000000"
proof -
  assume f: "f > 15"
  then have "(2::int) ^ 10 \<le> 2 ^ nat (f - 6)"
    by (intro power_increasing) auto
  with f show ?thesis
    by (simp add: ideal_delay_def)
qed

lemma ideal_delay_nonneg: "0 \<le> ideal_delay f"
  by (simp add: ideal_delay_def)

lemma ideal_delay_le: "ideal_delay f \<le> 900000000000"
  by (simp add: ideal_delay_def)

lemma ideal_delay_mono: "f \<le> g \<Longrightarrow> ideal_delay f \<le> ideal_delay g"
proof -
  assume fg: "f \<le> g"
  have "(2::int) ^ nat (f - 6) \<le> 2 ^ nat (g - 6)"
    using fg by (intro power_increasing) auto
  then have "min (2000000000 * 2 ^ nat (f - 6)) 900000000000
      \<le> min (2000000000 * 2 ^ nat (g - 6)) (900000000000::int)"
    by (intro min.mono) auto
  with fg show ?thesis
    by (auto simp: ideal_delay_def)
qed

lemma delay_ideal:
  assumes "0 \<le> f" "f < 2 ^ 63"
  shows "sint (loginDelay (of_int f)) = ideal_delay f"
proof -
  consider "f \<le> 5" | "f > 15" | "f \<in> {6..15}"
    by fastforce
  then show ?thesis
  proof cases
    case 1
    then show ?thesis
      by (simp add: loginDelay_def sint_over [OF assms] ideal_delay_def)
  next
    case 2
    then show ?thesis
      by (simp add: loginDelay_def sint_over [OF assms] ideal_delay_cap loginMaxDelay_def)
  next
    case 3
    then have "f = 6 \<or> f = 7 \<or> f = 8 \<or> f = 9 \<or> f = 10 \<or> f = 11 \<or> f = 12 \<or> f = 13 \<or> f = 14 \<or> f = 15"
      unfolding atLeastAtMost_iff by presburger
    then show ?thesis
      by (auto simp: loginDelay_small ideal_delay_def)
  qed
qed

text \<open>Counters stay in the range where the delay is the ideal one.\<close>

definition counters_ok :: "failure_table \<Rightarrow> bool" where
  "counters_ok tbl \<longleftrightarrow> (\<forall>key row. tbl key = Some row \<longrightarrow> 0 \<le> lf_failures row \<and> lf_failures row < 2 ^ 63)"

lemma Check_eq:
  assumes "counters_ok tbl"
  shows "Check fails hash now u tbl =
    (if fails LfGet then None
     else case tbl (throttleKey hash u) of
       None \<Rightarrow> None
     | Some row \<Rightarrow>
         if now - lf_last row < loginResetAfter \<and> lf_last row + ideal_delay (lf_failures row) - now > 0
         then Some (lf_last row + ideal_delay (lf_failures row) - now) else None)"
  using assms by (auto simp: Check_def lf_get_def counters_ok_def delay_ideal Let_def split: option.split)

lemma RecordFailure_other:
  assumes "key \<noteq> throttleKey hash u"
  shows "RecordFailure fails hash now u tbl key \<in>
    {tbl key, (case tbl key of None \<Rightarrow> None
       | Some row \<Rightarrow> if lf_last row < now - loginResetAfter then None else Some row)}"
  using assms counters.upsert_frame
  by (auto simp: RecordFailure_def lf_record_def lf_prune_def Let_def split: option.split)

lemma RecordFailure_same:
  assumes "\<not> fails LfRecord"
  shows "RecordFailure fails hash now u tbl (throttleKey hash u) = Some
    \<lparr>lf_failures = (case tbl (throttleKey hash u) of
        None \<Rightarrow> 1
      | Some row \<Rightarrow> if lf_last row < now - loginResetAfter then 1 else lf_failures row + 1),
     lf_last = now\<rparr>"
  using assms counters.upsert_same reset_pos
  by (auto simp: RecordFailure_def lf_record_def lf_prune_def Let_def)

section \<open>Properties\<close>

text \<open>The shift never overflows.  For every count that the 64-bit counter can hold, the delay computed
  on machine words is the ideal one: zero up to five failures, then two seconds doubling with each
  failure, capped at fifteen minutes; so it is monotone and bounded.\<close>

theorem loginDelay_ideal:
  assumes "0 \<le> f" and "f < 2 ^ 63"
  shows "sint (loginDelay (of_int f)) = ideal_delay f"
  using assms by (rule delay_ideal)

lemma loginDelay_ideal_witness: "sint (loginDelay (of_int (2 ^ 62))) = 900000000000"
  using loginDelay_ideal [of "2 ^ 62"] by (simp add: ideal_delay_cap)

text \<open>C19: the throttle is a delay, never a lock.  A refusal names a positive wait of at most fifteen
  minutes, and an attempt made after exactly that wait, with no failure in between, is let through;
  \<open>Check\<close> itself changes nothing.\<close>

theorem throttle_is_a_delay:
  assumes "counters_ok tbl" and "Check fails hash now u tbl = Some wait"
    and "\<forall>row. tbl (throttleKey hash u) = Some row \<longrightarrow> lf_last row \<le> now"
  shows "0 < wait \<and> wait \<le> 900000000000 \<and> Check fails hash (now + wait) u tbl = None"
proof -
  obtain row where row: "tbl (throttleKey hash u) = Some row"
    and wait: "wait = lf_last row + ideal_delay (lf_failures row) - now" "0 < wait"
    using assms(2) by (auto simp: Check_eq [OF assms(1)] split: option.splits if_splits)
  have "lf_last row \<le> now"
    using assms(3) row by blast
  then have "wait \<le> 900000000000"
    using wait ideal_delay_le [of "lf_failures row"] by simp
  moreover have "Check fails hash (now + wait) u tbl = None"
    using row wait by (simp add: Check_eq [OF assms(1)])
  ultimately show ?thesis
    using wait by blast
qed

definition example_counters :: failure_table where
  "example_counters = (\<lambda>_. None)(''sha256:eve'' := Some \<lparr>lf_failures = 8, lf_last = 100\<rparr>)"

lemma example_counters_ok: "counters_ok example_counters"
  by (auto simp: counters_ok_def example_counters_def)

lemma throttle_is_a_delay_witness:
  "Check (\<lambda>_. False) id (101 + 7999999999) ''eve'' example_counters = None"
proof -
  have "Check (\<lambda>_. False) id 101 ''eve'' example_counters = Some 7999999999"
    unfolding Check_eq [OF example_counters_ok]
    by (simp add: throttleKey_def example_counters_def ideal_delay_def loginResetAfter_def)
  moreover have "\<forall>row. example_counters (throttleKey id ''eve'') = Some row \<longrightarrow> lf_last row \<le> 101"
    by (simp add: example_counters_def throttleKey_def)
  ultimately show ?thesis
    using throttle_is_a_delay [OF example_counters_ok] by blast
qed

text \<open>accounts are isolated.  A failed login of one user, with its pruning of stale rows and whatever
  database faults it meets, never changes what any other user's \<open>Check\<close> answers, then or later.\<close>

theorem throttle_accounts_isolated:
  assumes "inj hash" and "u \<noteq> v" and "now \<le> later"
  shows "Check fails' hash later v (RecordFailure fails hash now u tbl) = Check fails' hash later v tbl"
proof -
  have "throttleKey hash v \<noteq> throttleKey hash u"
    using assms(1,2) throttleKey_inj by metis
  from RecordFailure_other [OF this, of fails now tbl] show ?thesis
    using assms(3) by (auto simp: Check_def lf_get_def split: option.splits if_splits)
qed

lemma throttle_accounts_isolated_witness:
  "Check (\<lambda>_. False) id 300 ''eve'' (RecordFailure (\<lambda>_. False) id 200 ''bob'' example_counters)
     = Check (\<lambda>_. False) id 300 ''eve'' example_counters"
  by (rule throttle_accounts_isolated) simp_all

text \<open>C18: failures are counted.  After \<open>n\<close> failed logins of a user at increasing times that are less than a
  day apart, with no faults, starting from no counter, a \<open>Check\<close> at the time of the last failure
  imposes exactly the ideal delay of \<open>n\<close> failures.\<close>

theorem failures_counted:
  assumes "ats \<noteq> []" and "length ats < 2 ^ 63" and "tbl (throttleKey hash u) = None"
    and "successively (\<lambda>a b. a \<le> b \<and> b - a < loginResetAfter) ats"
  shows "Check (\<lambda>_. False) hash (last ats) u (fold (\<lambda>t. RecordFailure (\<lambda>_. False) hash t u) ats tbl)
    = (if length ats \<le> 5 then None else Some (ideal_delay (int (length ats))))"
proof -
  have "\<exists>row. fold (\<lambda>t. RecordFailure (\<lambda>_. False) hash t u) ats tbl (throttleKey hash u) = Some row
      \<and> lf_failures row = int (length ats) \<and> lf_last row = last ats"
    using assms(1,4)
  proof (induction ats rule: rev_induct)
    case (snoc t ts)
    show ?case
    proof (cases "ts = []")
      case True
      then show ?thesis
        using assms(3) by (simp add: RecordFailure_same)
    next
      case False
      then have "last ts \<le> t" "t - last ts < loginResetAfter"
          "successively (\<lambda>a b. a \<le> b \<and> b - a < loginResetAfter) ts"
        using snoc.prems(2) by (auto simp: successively_append_iff)
      with False snoc.IH show ?thesis
        by (auto simp: RecordFailure_same)
    qed
  qed simp
  moreover have "sint (loginDelay (of_int (int (length ats)))) = ideal_delay (int (length ats))"
    using assms(2) by (intro delay_ideal) simp_all
  moreover have "ideal_delay (int (length ats)) > 0 \<longleftrightarrow> length ats > 5"
    by (auto simp: ideal_delay_def)
  ultimately show ?thesis
    by (auto simp: Check_def lf_get_def Let_def loginResetAfter_def)
qed

lemma failures_counted_witness:
  "Check (\<lambda>_. False) id 9 ''eve'' (fold (\<lambda>t. RecordFailure (\<lambda>_. False) id t ''eve'') [1, 2, 2, 5, 9, 9] (\<lambda>_. None))
     = Some (ideal_delay 6)"
  using failures_counted [of "[1, 2, 2, 5, 9, 9]" "\<lambda>_. None" id "''eve''"]
  by (simp add: loginResetAfter_def)

end
