(* ===== verification/Digits.thy ===== *)
theory Digits
  imports Prelude
begin

text \<open>
  Numbers and times as text, as Go's \<open>strconv\<close>, \<open>fmt\<close> and \<open>time\<close> packages print and read them.
\<close>

section \<open>Digits\<close>

definition digit_char :: "nat \<Rightarrow> char" where
  "digit_char d = (if d < 10 then char_of (48 + d) else char_of (87 + d))"

definition dec_val :: "char \<Rightarrow> nat option" where
  "dec_val c = (let n = of_char c :: nat in if 48 \<le> n \<and> n \<le> 57 then Some (n - 48) else None)"

definition hex_val :: "char \<Rightarrow> nat option" where
  "hex_val c =
     (let n = of_char c :: nat in
      if 48 \<le> n \<and> n \<le> 57 then Some (n - 48)
      else if 97 \<le> n \<and> n \<le> 102 then Some (n - 87)
      else if 65 \<le> n \<and> n \<le> 70 then Some (n - 55)
      else None)"

fun show_base :: "nat \<Rightarrow> nat \<Rightarrow> go_string" where
  "show_base b n =
     (if n < b \<or> b < 2 then [digit_char n] else show_base b (n div b) @ [digit_char (n mod b)])"

declare show_base.simps [simp del]

section \<open>Decimal integers\<close>

text \<open>\<open>%d\<close> of a signed integer.\<close>

definition show_int :: "int \<Rightarrow> go_string" where
  "show_int i = (if i < 0 then CHR ''-'' # show_base 10 (nat (- i)) else show_base 10 (nat i))"

fun parse_dec :: "nat \<Rightarrow> go_string \<Rightarrow> nat option" where
  "parse_dec acc [] = Some acc"
| "parse_dec acc (c # s) = (case dec_val c of None \<Rightarrow> None | Some d \<Rightarrow> parse_dec (10 * acc + d) s)"

text \<open>\<open>strconv.Atoi\<close> on 64 bits: an optional sign, then digits, in range.\<close>

definition Atoi :: "go_string \<Rightarrow> int option" where
  "Atoi s =
     (let (neg, ds) = (case s of
            [] \<Rightarrow> (False, [])
          | c # r \<Rightarrow> if c = CHR ''-'' then (True, r) else if c = CHR ''+'' then (False, r) else (False, s)) in
      if ds = [] then None
      else case parse_dec 0 ds of
        None \<Rightarrow> None
      | Some n \<Rightarrow>
          if neg then (if n \<le> 2 ^ 63 then Some (- int n) else None)
          else (if n < 2 ^ 63 then Some (int n) else None))"

section \<open>Times\<close>

text \<open>An instant counts nanoseconds from Go's zero time, 1 January of year 1, UTC.\<close>

definition civil_date :: "int \<Rightarrow> int \<times> int \<times> int" where
  "civil_date days =
     (let z = days + 306; era = z div 146097; doe = z mod 146097;
          yoe = (doe - doe div 1460 + doe div 36524 - doe div 146096) div 365;
          doy = doe - (365 * yoe + yoe div 4 - yoe div 100);
          mp = (5 * doy + 2) div 153;
          m = (if mp < 10 then mp + 3 else mp - 9) in
      (yoe + era * 400 + (if m \<le> 2 then 1 else 0), m, doy - (153 * mp + 2) div 5 + 1))"

definition pad_int :: "nat \<Rightarrow> int \<Rightarrow> go_string" where
  "pad_int w i =
     (let ds = show_base 10 (nat (abs i)) in
      (if i < 0 then ''-'' else []) @ replicate (w - length ds) (CHR ''0'') @ ds)"

definition second_ns :: int where "second_ns = 1000000000"

text \<open>Reading an unbounded result as Go's \<open>int64\<close>, and \<open>AddDate(0, 0, d)\<close>: \<open>time.Date\<close> computes the seconds
  modulo \<open>2 ^ 64\<close> and keeps the nanoseconds.\<close>

definition wrap64 :: "int \<Rightarrow> int" where
  "wrap64 i = (i + 2 ^ 63) mod 2 ^ 64 - 2 ^ 63"

lemma wrap64_id: "- (2 ^ 63) \<le> i \<Longrightarrow> i < 2 ^ 63 \<Longrightarrow> wrap64 i = i"
  by (simp add: wrap64_def)

definition add_days :: "int \<Rightarrow> instant \<Rightarrow> instant" where
  "add_days d t = wrap64 (t div second_ns + 86400 * d) * second_ns + t mod second_ns"

lemma add_days_exact:
  assumes "- (2 ^ 63) \<le> t div second_ns + 86400 * d" "t div second_ns + 86400 * d < 2 ^ 63"
  shows "add_days d t = t + d * (86400 * second_ns)"
proof -
  have "t = t div second_ns * second_ns + t mod second_ns"
    by simp
  then show ?thesis
    unfolding add_days_def wrap64_id [OF assms] by (simp only: algebra_simps)
qed

text \<open>\<open>Format(time.RFC3339)\<close> and \<open>Format(time.RFC3339Nano)\<close> in UTC: the latter drops trailing zeros of the fraction.\<close>

definition show_seconds :: "instant \<Rightarrow> go_string" where
  "show_seconds t =
     (let s = t div second_ns; sod = s mod 86400 in
      case civil_date (s div 86400) of (y, m, d) \<Rightarrow>
        pad_int 4 y @ ''-'' @ pad_int 2 m @ ''-'' @ pad_int 2 d @ ''T''
          @ pad_int 2 (sod div 3600) @ '':'' @ pad_int 2 (sod div 60 mod 60) @ '':'' @ pad_int 2 (sod mod 60))"

definition RFC3339 :: "instant \<Rightarrow> go_string" where
  "RFC3339 t = show_seconds t @ ''Z''"

definition RFC3339Nano :: "instant \<Rightarrow> go_string" where
  "RFC3339Nano t =
     (let frac = t mod second_ns in
      show_seconds t
        @ (if frac = 0 then [] else CHR ''.'' # trim_right (CHR ''0'') (pad_int 9 frac)) @ ''Z'')"

section \<open>Lemmas\<close>

lemma hex_digit [simp]: "d < 16 \<Longrightarrow> hex_val (digit_char d) = Some d"
  by (simp add: hex_val_def digit_char_def Let_def)

lemma dec_digit [simp]: "d < 10 \<Longrightarrow> dec_val (digit_char d) = Some d"
  by (simp add: dec_val_def digit_char_def Let_def)

lemma hex_val_seps [simp]: "hex_val CHR '':'' = None" "hex_val CHR ''.'' = None" "hex_val CHR ''%'' = None"
  and dec_val_seps [simp]: "dec_val CHR '':'' = None" "dec_val CHR ''.'' = None" "dec_val CHR ''%'' = None"
  by (simp_all add: hex_val_def dec_val_def)

lemma show_base_chars: "2 \<le> b \<Longrightarrow> c \<in> set (show_base b n) \<Longrightarrow> \<exists>d<b. c = digit_char d"
proof (induction b n rule: show_base.induct)
  case (1 b n)
  show ?case
  proof (cases "n < b")
    case True
    then have "show_base b n = [digit_char n]"
      by (simp add: show_base.simps [of b n])
    with True 1 show ?thesis
      by auto
  next
    case False
    with 1 have "show_base b n = show_base b (n div b) @ [digit_char (n mod b)]"
      by (simp add: show_base.simps [of b n])
    with False 1 show ?thesis
      by (auto intro: exI [of _ "n mod b"])
  qed
qed

lemma show_hex_val: "c \<in> set (show_base 16 n) \<Longrightarrow> hex_val c \<noteq> None"
  using show_base_chars [of 16 c n] by auto

lemma show_dec_val: "c \<in> set (show_base 10 n) \<Longrightarrow> dec_val c \<noteq> None"
  using show_base_chars [of 10 c n] by auto

lemma show_base_not_Nil [simp]: "show_base b n \<noteq> []"
  by (subst show_base.simps) simp

lemma parse_dec_append:
  "parse_dec acc (xs @ ys) = (case parse_dec acc xs of None \<Rightarrow> None | Some a \<Rightarrow> parse_dec a ys)"
  by (induction acc xs rule: parse_dec.induct) (auto split: option.split)

lemma parse_dec_show [simp]: "parse_dec 0 (show_base 10 n) = Some n"
proof (induction n rule: less_induct)
  case (less n)
  show ?case
  proof (cases "n < 10")
    case True
    then show ?thesis
      by (simp add: show_base.simps [of 10 n])
  next
    case False
    then have "show_base 10 n = show_base 10 (n div 10) @ [digit_char (n mod 10)]"
      by (simp add: show_base.simps [of 10 n])
    moreover have "parse_dec 0 (show_base 10 (n div 10)) = Some (n div 10)"
      using False by (intro less.IH) simp
    ultimately show ?thesis
      by (simp add: parse_dec_append)
  qed
qed

lemma show_base_no_sign: "c \<in> set (show_base 10 n) \<Longrightarrow> c \<noteq> CHR ''-'' \<and> c \<noteq> CHR ''+'' \<and> c \<noteq> CHR ''|''"
  using show_dec_val [of c n] by (auto simp: dec_val_def)

lemma show_base_inj: "show_base 10 m = show_base 10 n \<longleftrightarrow> m = n"
  by (metis option.inject parse_dec_show)

lemma Atoi_show_int:
  assumes "- (2 ^ 63) \<le> i" "i < 2 ^ 63"
  shows "Atoi (show_int i) = Some i"
proof (cases "i < 0")
  case True
  with assms have "nat (- i) \<le> 2 ^ 63"
    by (simp add: nat_le_iff)
  with True show ?thesis
    by (simp add: Atoi_def show_int_def)
next
  case False
  obtain c r where s: "show_base 10 (nat i) = c # r"
    by (cases "show_base 10 (nat i)") auto
  then have "c \<noteq> CHR ''-''" "c \<noteq> CHR ''+''"
    using show_base_no_sign [of c "nat i"] by auto
  moreover have "nat i < 2 ^ 63"
    using assms False by (simp add: nat_less_iff)
  moreover have "parse_dec 0 (c # r) = Some (nat i)"
    using parse_dec_show [of "nat i"] s by (simp only:)
  ultimately show ?thesis
    using False s by (simp add: Atoi_def show_int_def del: parse_dec.simps)
qed

text \<open>Fields that printed numbers and times never contain.\<close>

lemma show_int_no_bar: "CHR ''|'' \<notin> set (show_int i)"
  using show_base_no_sign [of "CHR ''|''"] by (auto simp: show_int_def)

lemma show_int_inj: "show_int i = show_int j \<longleftrightarrow> i = j"
proof
  assume eq: "show_int i = show_int j"
  have sign: "CHR ''-'' # xs \<noteq> show_base 10 n" "show_base 10 n \<noteq> CHR ''-'' # xs" for xs n
    using show_base_no_sign [of "CHR ''-''" n] by (metis list.set_intros(1))+
  show "i = j"
  proof (cases "i < 0")
    case True
    with eq sign have "j < 0"
      by (simp add: show_int_def split: if_splits)
    with True eq show ?thesis
      by (simp add: show_int_def show_base_inj)
  next
    case False
    with eq sign have "\<not> j < 0"
      by (simp add: show_int_def split: if_splits)
    with False eq show ?thesis
      by (simp add: show_int_def show_base_inj)
  qed
qed simp

lemma pad_int_no_bar: "CHR ''|'' \<notin> set (pad_int w i)"
  using show_base_no_sign [of "CHR ''|''"] by (auto simp: pad_int_def Let_def)

lemma RFC3339Nano_no_bar: "CHR ''|'' \<notin> set (RFC3339Nano t)"
proof -
  have "set (trim_right c s) \<subseteq> set s" for c s
    by (auto simp: trim_right_def trim_left_def dest: set_dropWhileD)
  then have "CHR ''|'' \<notin> set (trim_right (CHR ''0'') (pad_int 9 f))" for f
    using pad_int_no_bar by blast
  moreover have "CHR ''|'' \<notin> set (show_seconds t)"
    by (cases "civil_date (t div second_ns div 86400)") (simp add: show_seconds_def Let_def pad_int_no_bar)
  ultimately show ?thesis
    by (simp add: RFC3339Nano_def Let_def)
qed

end
