(* ===== verification/NetAddr.thy ===== *)
theory NetAddr
  imports Digits
begin

text \<open>
  What the sources use of Go's \<open>net\<close>, \<open>net/netip\<close> and \<open>strings\<close> packages: parsing
  and printing of IP addresses, CIDR ranges, \<open>SplitHostPort\<close> and \<open>TrimSpace\<close>.

  A \<open>net.IP\<close> is its bytes, 4 or 16 of them.  The last section shows that printing
  a 16-byte address and parsing the text gives the address back.
\<close>

unbundle bit_operations_syntax

type_synonym ip_addr = "8 word list"

section \<open>White space\<close>

text \<open>The UTF-8 encodings of the characters \<open>unicode.IsSpace\<close> accepts.\<close>

definition space_seqs :: "go_string list" where
  "space_seqs =
     [[CHR 0x09], [CHR 0x0A], [CHR 0x0B], [CHR 0x0C], [CHR 0x0D], [CHR 0x20],
      [CHR 0xC2, CHR 0x85], [CHR 0xC2, CHR 0xA0], [CHR 0xE1, CHR 0x9A, CHR 0x80]]
     @ map (\<lambda>b. [CHR 0xE2, CHR 0x80, char_of b]) [128..<139]
     @ [[CHR 0xE2, CHR 0x80, CHR 0xA8], [CHR 0xE2, CHR 0x80, CHR 0xA9], [CHR 0xE2, CHR 0x80, CHR 0xAF],
        [CHR 0xE2, CHR 0x81, CHR 0x9F], [CHR 0xE3, CHR 0x80, CHR 0x80]]"

fun drop_seqs :: "nat \<Rightarrow> go_string list \<Rightarrow> go_string \<Rightarrow> go_string" where
  "drop_seqs 0 ps s = s"
| "drop_seqs (Suc n) ps s =
     (case find (\<lambda>p. p \<noteq> [] \<and> has_prefix s p) ps of
        None \<Rightarrow> s
      | Some p \<Rightarrow> drop_seqs n ps (drop (length p) s))"

definition TrimSpace :: "go_string \<Rightarrow> go_string" where
  "TrimSpace s =
     (let l = drop_seqs (length s) space_seqs s in
      rev (drop_seqs (length l) (map rev space_seqs) (rev l)))"

section \<open>Parsing addresses\<close>

text \<open>\<open>parseIPv4Fields\<close>: the byte before the current one, the value and digits of the current octet,
  the octets done.\<close>

fun v4_loop :: "char option \<Rightarrow> nat \<Rightarrow> nat \<Rightarrow> ip_addr \<Rightarrow> go_string \<Rightarrow> ip_addr option" where
  "v4_loop prev val dl fs [] = (if length fs < 3 then None else Some (fs @ [of_nat val]))"
| "v4_loop prev val dl fs (c # cs) =
     (case dec_val c of
        Some d \<Rightarrow>
          if dl = 1 \<and> val = 0 then None
          else if val * 10 + d > 255 then None
          else v4_loop (Some c) (val * 10 + d) (Suc dl) fs cs
      | None \<Rightarrow>
          if c = CHR ''.'' then
            (if prev = None \<or> cs = [] \<or> prev = Some CHR ''.'' then None
             else if length fs = 3 then None
             else v4_loop (Some c) 0 0 (fs @ [of_nat val]) cs)
          else None)"

definition parseIPv4 :: "go_string \<Rightarrow> ip_addr option" where
  "parseIPv4 s = v4_loop None 0 0 [] s"

text \<open>The hexadecimal digits at the front of a string: their number, their value and the rest.\<close>

fun hex_run :: "nat \<Rightarrow> nat \<Rightarrow> go_string \<Rightarrow> (nat \<times> nat \<times> go_string) option" where
  "hex_run off acc [] = Some (off, acc, [])"
| "hex_run off acc (c # cs) =
     (case hex_val c of
        None \<Rightarrow> Some (off, acc, c # cs)
      | Some d \<Rightarrow>
          if off > 3 then None
          else if acc * 16 + d > 65535 then None
          else hex_run (Suc off) (acc * 16 + d) cs)"

definition group_bytes :: "nat \<Rightarrow> ip_addr" where
  "group_bytes g = [of_nat (g div 256), of_nat (g mod 256)]"

text \<open>The loop of \<open>parseIPv6\<close>: the bytes so far, where the ellipsis was, the rest.\<close>

fun v6_loop ::
  "nat \<Rightarrow> ip_addr \<Rightarrow> nat option \<Rightarrow> go_string \<Rightarrow> (ip_addr \<times> nat option \<times> go_string) option" where
  "v6_loop 0 bs el s = Some (bs, el, s)"
| "v6_loop (Suc n) bs el s =
     (case hex_run 0 0 s of
        None \<Rightarrow> None
      | Some (off, acc, r) \<Rightarrow>
          if off = 0 then None
          else if r \<noteq> [] \<and> hd r = CHR ''.'' then
            (if el = None \<and> length bs \<noteq> 12 then None
             else if length bs + 4 > 16 then None
             else map_option (\<lambda>f. (bs @ f, el, [])) (parseIPv4 s))
          else
            let bs = bs @ group_bytes acc in
            case r of
              [] \<Rightarrow> Some (bs, el, [])
            | c # r1 \<Rightarrow>
                if c \<noteq> CHR '':'' \<or> r1 = [] then None
                else if hd r1 = CHR '':'' then
                  (if el \<noteq> None then None
                   else if tl r1 = [] then Some (bs, Some (length bs), [])
                   else v6_loop n bs (Some (length bs)) (tl r1))
                else v6_loop n bs el r1)"

definition v6_fill :: "ip_addr \<Rightarrow> nat option \<Rightarrow> ip_addr option" where
  "v6_fill bs el =
     (if length bs < 16 then
        (case el of None \<Rightarrow> None
         | Some e \<Rightarrow> Some (take e bs @ replicate (16 - length bs) 0 @ drop e bs))
      else if el \<noteq> None then None else Some bs)"

definition parseIPv6 :: "go_string \<Rightarrow> ip_addr option" where
  "parseIPv6 s =
     (let (el, s) = (if has_prefix s ''::'' then (Some 0, drop 2 s) else (None, s)) in
      if el \<noteq> None \<and> s = [] then Some (replicate 16 0)
      else case v6_loop 8 [] el s of
             None \<Rightarrow> None
           | Some (bs, el, r) \<Rightarrow> if r \<noteq> [] then None else v6_fill bs el)"

text \<open>\<open>netip.ParseAddr\<close> without a zone: 4 bytes or 16.\<close>

definition ParseAddr :: "go_string \<Rightarrow> ip_addr option" where
  "ParseAddr s =
     (case find (\<lambda>c. c \<in> set ''.:%'') s of
        None \<Rightarrow> None
      | Some c \<Rightarrow>
          if c = CHR ''.'' then parseIPv4 s
          else if c = CHR '':'' \<and> CHR ''%'' \<notin> set s then parseIPv6 s
          else None)"

definition v4InV6Prefix :: ip_addr where
  "v4InV6Prefix = replicate 10 0 @ [0xFF, 0xFF]"

definition As16 :: "ip_addr \<Rightarrow> ip_addr" where
  "As16 ip = (if length ip = 4 then v4InV6Prefix @ ip else ip)"

definition ParseIP :: "go_string \<Rightarrow> ip_addr option" where
  "ParseIP s = map_option As16 (ParseAddr s)"

definition To4 :: "ip_addr \<Rightarrow> ip_addr option" where
  "To4 ip =
     (if length ip = 4 then Some ip
      else if length ip = 16 \<and> take 12 ip = v4InV6Prefix then Some (drop 12 ip)
      else None)"

section \<open>Printing addresses\<close>

fun groups_of :: "ip_addr \<Rightarrow> nat list" where
  "groups_of (a # b # bs) = (unat a * 256 + unat b) # groups_of bs"
| "groups_of _ = []"

definition zero_run :: "nat list \<Rightarrow> nat \<Rightarrow> nat" where
  "zero_run gs i = length (takeWhile (\<lambda>g. g = 0) (drop i gs))"

text \<open>The first longest run of at least two zero groups, as start and length.\<close>

definition best_run :: "nat list \<Rightarrow> (nat \<times> nat) option" where
  "best_run gs =
     fold (\<lambda>i best.
        let l = zero_run gs i in
        if l \<ge> 2 \<and> (case best of None \<Rightarrow> True | Some (_, k) \<Rightarrow> l > k) then Some (i, l) else best)
       [0..<length gs] None"

definition show_v6 :: "ip_addr \<Rightarrow> go_string" where
  "show_v6 ip =
     (let gs = groups_of ip; str = (\<lambda>hs. join_str '':'' (map (show_base 16) hs)) in
      case best_run gs of
        None \<Rightarrow> str gs
      | Some (i, l) \<Rightarrow> str (take i gs) @ ''::'' @ str (drop (i + l) gs))"

definition IP_String :: "ip_addr \<Rightarrow> go_string" where
  "IP_String ip =
     (case To4 ip of
        Some v4 \<Rightarrow> join_str ''.'' (map (\<lambda>b. show_base 10 (unat b)) v4)
      | None \<Rightarrow> show_v6 ip)"

section \<open>Networks\<close>

definition CIDRMask :: "nat \<Rightarrow> nat \<Rightarrow> ip_addr" where
  "CIDRMask ones bits =
     map (\<lambda>i. if 8 * i + 8 \<le> ones then 0xFF else if ones \<le> 8 * i then 0
              else NOT (drop_bit (ones - 8 * i) 0xFF)) [0..<bits div 8]"

text \<open>\<open>IP.Mask\<close> for an address and a mask of the lengths the code passes.\<close>

definition IP_Mask :: "ip_addr \<Rightarrow> ip_addr \<Rightarrow> ip_addr option" where
  "IP_Mask ip m =
     (let m = (if length m = 16 \<and> length ip = 4 \<and> take 12 m = replicate 12 0xFF then drop 12 m else m);
          ip = (if length m = 4 \<and> length ip = 16 \<and> take 12 ip = v4InV6Prefix then drop 12 ip else ip) in
      if length ip = length m then Some (map2 (AND) ip m) else None)"

record ip_net =
  net_ip :: ip_addr
  net_mask :: ip_addr

definition networkNumberAndMask :: "ip_net \<Rightarrow> (ip_addr \<times> ip_addr) option" where
  "networkNumberAndMask n =
     (let ip = (case To4 (net_ip n) of Some v4 \<Rightarrow> v4 | None \<Rightarrow> net_ip n); m = net_mask n in
      if length ip \<noteq> 4 \<and> length ip \<noteq> 16 then None
      else if length m = 4 then (if length ip = 4 then Some (ip, m) else None)
      else if length m = 16 then Some (ip, if length ip = 4 then drop 12 m else m)
      else None)"

definition Contains :: "ip_net \<Rightarrow> ip_addr \<Rightarrow> bool" where
  "Contains n ip =
     (let ip = (case To4 ip of Some v4 \<Rightarrow> v4 | None \<Rightarrow> ip) in
      case networkNumberAndMask n of
        None \<Rightarrow> ip = []
      | Some (nn, m) \<Rightarrow> length ip = length nn \<and> map2 (AND) nn m = map2 (AND) ip m)"

text \<open>\<open>dtoi\<close> on a whole string: digits only, below 0xFFFFFF.\<close>

fun dtoi :: "nat \<Rightarrow> go_string \<Rightarrow> nat option" where
  "dtoi n [] = Some n"
| "dtoi n (c # cs) =
     (case dec_val c of None \<Rightarrow> None
      | Some d \<Rightarrow> if n * 10 + d \<ge> 0xFFFFFF then None else dtoi (n * 10 + d) cs)"

definition ParseCIDR :: "go_string \<Rightarrow> ip_net option" where
  "ParseCIDR s =
     (case split2 CHR ''/'' s of
        [addr, bits] \<Rightarrow>
          (case ParseAddr addr of
             None \<Rightarrow> None
           | Some ip \<Rightarrow>
               (case (if bits = [] then None else dtoi 0 bits) of
                  None \<Rightarrow> None
                | Some n \<Rightarrow>
                    if n > 8 * length ip then None
                    else
                      let m = CIDRMask n (8 * length ip) in
                      map_option (\<lambda>a. \<lparr>net_ip = a, net_mask = m\<rparr>) (IP_Mask (As16 ip) m)))
      | _ \<Rightarrow> None)"

section \<open>Host and port\<close>

text \<open>\<open>net.SplitHostPort\<close>: the host, or \<open>None\<close> for an error.\<close>

definition SplitHostPort :: "go_string \<Rightarrow> go_string option" where
  "SplitHostPort s =
     (if CHR '':'' \<notin> set s then None
      else
        let i = length s - 1 - length (takeWhile (\<lambda>c. c \<noteq> CHR '':'') (rev s)) in
        if hd s = CHR ''['' then
          (case index_str s '']'' of
             None \<Rightarrow> None
           | Some e \<Rightarrow>
               if e + 1 = length s \<or> e + 1 \<noteq> i then None
               else if CHR ''['' \<in> set (drop 1 s) \<or> CHR '']'' \<in> set (drop (e + 1) s) then None
               else Some (drop 1 (take e s)))
        else
          let host = take i s in
          if CHR '':'' \<in> set host \<or> CHR ''['' \<in> set s \<or> CHR '']'' \<in> set s then None
          else Some host)"

section \<open>Round trip\<close>

lemma show_hex_cases:
  "n < 65536 \<Longrightarrow> show_base 16 n = map digit_char
     (if n < 16 then [n] else if n < 256 then [n div 16, n mod 16]
      else if n < 4096 then [n div 256, n div 16 mod 16, n mod 16]
      else [n div 4096, n div 256 mod 16, n div 16 mod 16, n mod 16])"
  by (simp add: show_base.simps [of 16 n] show_base.simps [of 16 "n div 16"] show_base.simps [of 16 "n div 256"]
      show_base.simps [of 16 "n div 4096"] div_mult2_eq [symmetric] div_less_iff_less_mult)

lemma show_dec_cases:
  "n < 256 \<Longrightarrow> show_base 10 n = map digit_char
     (if n < 10 then [n] else if n < 100 then [n div 10, n mod 10] else [n div 100, n div 10 mod 10, n mod 10])"
  by (simp add: show_base.simps [of 10 n] show_base.simps [of 10 "n div 10"] show_base.simps [of 10 "n div 100"]
      div_mult2_eq [symmetric] div_less_iff_less_mult)

lemma hex_run_digit:
  "d < 16 \<Longrightarrow> off \<le> 3 \<Longrightarrow> acc * 16 + d \<le> 65535 \<Longrightarrow>
     hex_run off acc (digit_char d # s) = hex_run (Suc off) (acc * 16 + d) s"
  by simp

lemma hex_run_stop: "r = [] \<or> hex_val (hd r) = None \<Longrightarrow> hex_run off acc r = Some (off, acc, r)"
  by (cases r) auto

lemma hex_run_show:
  assumes "n < 65536" "r = [] \<or> hex_val (hd r) = None"
  shows "\<exists>off > 0. hex_run 0 0 (show_base 16 n @ r) = Some (off, n, r)"
proof -
  have e: "n div 256 * 16 + n div 16 mod 16 = n div 16" "n div 4096 * 16 + n div 256 mod 16 = n div 256"
    "n div 16 * 16 + n mod 16 = n"
    using div_mult_mod_eq [of "n div 16" 16] div_mult_mod_eq [of "n div 256" 16]
    by (simp_all add: div_mult2_eq [symmetric])
  have b: "n div 4096 < 16" "n < 4096 \<Longrightarrow> n div 256 < 16" "n < 256 \<Longrightarrow> n div 16 < 16"
    using assms(1) by simp_all
  have le: "n div 16 \<le> 65535" "n div 256 \<le> 65535" "n \<le> 65535"
    using assms(1) by simp_all
  consider "n < 16" | "16 \<le> n" "n < 256" | "256 \<le> n" "n < 4096" | "4096 \<le> n"
    by linarith
  then show ?thesis
    by cases (use assms b le in \<open>simp_all add: show_hex_cases hex_run_digit e hex_run_stop del: hex_run.simps\<close>)
qed

lemma group_bytes_pair: "group_bytes (unat a * 256 + unat b) = [a, b]"
proof -
  have "unat b < 256"
    using unsigned_less [of b] by simp
  then show ?thesis
    by (simp add: group_bytes_def)
qed

definition bytes_of :: "nat list \<Rightarrow> ip_addr" where
  "bytes_of gs = concat (map group_bytes gs)"

lemma bytes_of_simps [simp]:
  "bytes_of [] = []" "bytes_of (g # gs) = group_bytes g @ bytes_of gs" "bytes_of (gs @ hs) = bytes_of gs @ bytes_of hs"
  "length (bytes_of gs) = 2 * length gs" "bytes_of (replicate l 0) = replicate (2 * l) 0"
  by (simp_all add: bytes_of_def length_concat group_bytes_def comp_def sum_list_triv
      ) (induction l; simp)+

lemma bytes_of_groups: "even (length ip) \<Longrightarrow> bytes_of (groups_of ip) = ip"
  by (induction ip rule: groups_of.induct) (auto simp: group_bytes_pair)

lemma length_groups: "length (groups_of ip) = length ip div 2"
  by (induction ip rule: groups_of.induct) auto

lemma groups_bound: "g \<in> set (groups_of ip) \<Longrightarrow> g < 65536"
proof (induction ip rule: groups_of.induct)
  case (1 a b bs)
  have "unat a < 256" "unat b < 256"
    using unsigned_less [of a] unsigned_less [of b] by simp_all
  with 1 show ?case
    by auto
qed auto

text \<open>The groups of a run, as printed and as parsed.\<close>

abbreviation show_groups :: "nat list \<Rightarrow> go_string" where
  "show_groups gs \<equiv> join_str '':'' (map (show_base 16) gs)"

lemma join_str_Cons: "join_str sep (s # ss) = s @ (if ss = [] then [] else sep @ join_str sep ss)"
  by (cases ss) auto

lemma hd_show_groups:
  assumes "gs \<noteq> []"
  shows "show_groups gs \<noteq> []" "hd (show_groups gs) \<noteq> CHR '':''"
proof -
  obtain g gs' where gs: "gs = g # gs'"
    using assms by (cases gs) auto
  have "hd (show_base 16 g) \<in> set (show_base 16 g)"
    by simp
  from show_hex_val [OF this] gs show "show_groups gs \<noteq> []" "hd (show_groups gs) \<noteq> CHR '':''"
    by (auto simp: join_str_Cons)
qed

lemma v6_loop_last:
  "g < 65536 \<Longrightarrow> v6_loop (Suc n) bs el (show_base 16 g) = Some (bs @ group_bytes g, el, [])"
  using hex_run_show [of g "[]"] by (auto simp: Let_def)

lemma v6_loop_group:
  assumes "g < 65536" "s \<noteq> []" "hd s \<noteq> CHR '':''"
  shows "v6_loop (Suc n) bs el (show_base 16 g @ CHR '':'' # s) = v6_loop n (bs @ group_bytes g) el s"
  using assms hex_run_show [of g "CHR '':'' # s"] by (auto simp: Let_def)

lemma v6_loop_ellipsis:
  assumes "g < 65536"
  shows "v6_loop (Suc n) bs None (show_base 16 g @ CHR '':'' # CHR '':'' # s) =
    (if s = [] then Some (bs @ group_bytes g, Some (length bs + 2), [])
     else v6_loop n (bs @ group_bytes g) (Some (length bs + 2)) s)"
  using assms hex_run_show [of g "CHR '':'' # CHR '':'' # s"] by (auto simp: Let_def group_bytes_def)

lemma v6_loop_groups:
  "gs \<noteq> [] \<Longrightarrow> list_all (\<lambda>g. g < 65536) gs \<Longrightarrow> length gs \<le> n \<Longrightarrow>
    v6_loop n bs el (show_groups gs) = Some (bs @ bytes_of gs, el, [])"
proof (induction gs arbitrary: n bs)
  case (Cons g gs)
  obtain m where n: "n = Suc m"
    using Cons.prems(3) by (cases n) auto
  show ?case
  proof (cases "gs = []")
    case True
    with Cons.prems n show ?thesis
      by (simp add: v6_loop_last del: v6_loop.simps)
  next
    case False
    with Cons n show ?thesis
      using hd_show_groups [OF False] by (simp add: join_str_Cons v6_loop_group del: v6_loop.simps)
  qed
qed simp

lemma v6_loop_run:
  "gs \<noteq> [] \<Longrightarrow> list_all (\<lambda>g. g < 65536) (gs @ hs) \<Longrightarrow> length gs + length hs \<le> n \<Longrightarrow>
    v6_loop n bs None (show_groups gs @ ''::'' @ show_groups hs)
      = Some (bs @ bytes_of gs @ bytes_of hs, Some (length bs + 2 * length gs), [])"
proof (induction gs arbitrary: n bs)
  case (Cons g gs)
  obtain m where n: "n = Suc m"
    using Cons.prems(3) by (cases n) auto
  show ?case
  proof (cases "gs = []")
    case True
    show ?thesis
    proof (cases "hs = []")
      case True
      with \<open>gs = []\<close> Cons.prems n show ?thesis
        by (simp add: v6_loop_ellipsis del: v6_loop.simps)
    next
      case False
      with \<open>gs = []\<close> Cons.prems n show ?thesis
        using hd_show_groups [OF False] by (simp add: v6_loop_ellipsis v6_loop_groups del: v6_loop.simps)
    qed
  next
    case False
    then have "show_groups gs @ ''::'' @ show_groups hs \<noteq> []"
      and "hd (show_groups gs @ ''::'' @ show_groups hs) \<noteq> CHR '':''"
      using hd_show_groups [OF False] by simp_all
    with False Cons n show ?thesis
      by (simp add: join_str_Cons v6_loop_group group_bytes_def del: v6_loop.simps)
  qed
qed simp

text \<open>What the printer chooses to compress.\<close>

definition run_ok :: "nat list \<Rightarrow> (nat \<times> nat) option \<Rightarrow> bool" where
  "run_ok gs best \<longleftrightarrow>
     (case best of None \<Rightarrow> True
      | Some (i, l) \<Rightarrow> 2 \<le> l \<and> i + l \<le> length gs \<and> take l (drop i gs) = replicate l 0)"

lemma zero_run_take: "take (zero_run gs i) (drop i gs) = replicate (zero_run gs i) 0"
proof -
  have "take (zero_run gs i) (drop i gs) = takeWhile (\<lambda>g. g = 0) (drop i gs)"
    by (simp add: zero_run_def takeWhile_eq_take [symmetric])
  moreover have "takeWhile (\<lambda>g. g = 0) xs = replicate (length (takeWhile (\<lambda>g. g = 0) xs)) 0" for xs :: "nat list"
    by (induction xs) auto
  ultimately show ?thesis
    by (simp add: zero_run_def)
qed

lemma zero_run_le: "i \<le> length gs \<Longrightarrow> i + zero_run gs i \<le> length gs"
  using length_takeWhile_le [of "\<lambda>g. g = 0" "drop i gs"] by (simp add: zero_run_def)

lemma best_run_ok: "run_ok gs (best_run gs)"
  unfolding best_run_def
proof (rule fold_invariant [where Q = "\<lambda>i. i < length gs"])
  show "run_ok gs (let l = zero_run gs i in
      if 2 \<le> l \<and> (case best of None \<Rightarrow> True | Some (_, k) \<Rightarrow> k < l) then Some (i, l) else best)"
    if "i < length gs" "run_ok gs best" for i best
    using that zero_run_take [of gs i] zero_run_le [of i gs] by (simp add: run_ok_def Let_def)
qed (simp_all add: run_ok_def)

lemma take_run_drop:
  assumes "take l (drop i gs) = replicate l 0" "i + l \<le> length gs"
  shows "gs = take i gs @ replicate l 0 @ drop (i + l) gs"
proof -
  have "drop i gs = replicate l 0 @ drop (i + l) gs"
    using assms(1) append_take_drop_id [of l "drop i gs"] by (simp add: add.commute)
  then show ?thesis
    by (metis append_take_drop_id)
qed

lemma v6_chars:
  assumes "c \<in> set (show_v6 ip)"
  shows "c = CHR '':'' \<or> hex_val c \<noteq> None"
proof -
  have g: "c \<in> set (show_groups gs) \<Longrightarrow> c = CHR '':'' \<or> hex_val c \<noteq> None" for gs
    by (induction gs) (use show_hex_val in \<open>auto simp: join_str_Cons split: if_splits\<close>)
  show ?thesis
    using assms g by (auto simp: show_v6_def Let_def split: option.splits)
qed

lemma parse_show_v6:
  assumes "length ip = 16"
  shows "parseIPv6 (show_v6 ip) = Some ip"
proof -
  define gs where "gs = groups_of ip"
  have len: "length gs = 8" and b: "bytes_of gs = ip"
    using assms by (simp_all add: gs_def length_groups bytes_of_groups)
  have all: "list_all (\<lambda>g. g < 65536) gs"
    using groups_bound by (auto simp: gs_def list_all_iff)
  have no_pre: "\<not> has_prefix (show_groups hs @ s) ''::''" if "hs \<noteq> []" for hs s
    using hd_show_groups [OF that] by (cases "show_groups hs") auto
  show ?thesis
  proof (cases "best_run gs")
    case None
    then have "show_v6 ip = show_groups gs"
      by (simp add: show_v6_def gs_def [symmetric] Let_def)
    moreover have "gs \<noteq> []"
      using len by auto
    ultimately show ?thesis
      using v6_loop_groups [of gs 8 "[]" None] all len no_pre [of gs "[]"] b assms
      by (simp add: parseIPv6_def v6_fill_def del: has_prefix_Cons)
  next
    case (Some r)
    obtain i l where r: "r = (i, l)"
      by (cases r) auto
    have ok: "2 \<le> l" "i + l \<le> 8" "take l (drop i gs) = replicate l 0"
      using best_run_ok [of gs] Some r len by (simp_all add: run_ok_def)
    define as bs where "as = take i gs" and "bs = drop (i + l) gs"
    have split: "gs = as @ replicate l 0 @ bs"
      using take_run_drop [OF ok(3)] ok(2) len by (simp add: as_def bs_def)
    have lens: "length as = i" "length bs = 8 - (i + l)"
      using ok(2) len by (simp_all add: as_def bs_def)
    have str: "show_v6 ip = show_groups as @ ''::'' @ show_groups bs"
      using Some r by (simp add: show_v6_def gs_def [symmetric] Let_def as_def bs_def)
    have ip: "ip = bytes_of as @ replicate (2 * l) 0 @ bytes_of bs"
      using b split by (metis bytes_of_simps(3,5))
    have fill: "v6_fill (bytes_of as @ bytes_of bs) (Some (2 * i)) = Some ip"
    proof -
      have "length (bytes_of as @ bytes_of bs) < 16" "16 - length (bytes_of as @ bytes_of bs) = 2 * l"
        using lens ok(1,2) by simp_all
      then show ?thesis
        using lens by (simp add: v6_fill_def ip)
    qed
    have all2: "list_all (\<lambda>g. g < 65536) (as @ bs)"
      using all split by simp
    show ?thesis
    proof (cases "as = []")
      case True
      then have i: "i = 0"
        using lens by simp
      show ?thesis
      proof (cases "bs = []")
        case True
        then have "ip = replicate 16 0"
          using \<open>as = []\<close> i ok(2) lens ip by simp
        with \<open>as = []\<close> \<open>bs = []\<close> str show ?thesis
          by (simp add: parseIPv6_def)
      next
        case False
        then show ?thesis
          using v6_loop_groups [OF False, of 8 "[]" "Some 0"] all2 hd_show_groups [OF False] lens True i fill str
          by (simp add: parseIPv6_def del: v6_loop.simps)
      qed
    next
      case False
      then show ?thesis
        using v6_loop_run [OF False all2, of 8 "[]"] no_pre [OF False, of "''::'' @ show_groups bs"] fill lens ok str
        by (simp add: parseIPv6_def del: has_prefix_Cons v6_loop.simps)
    qed
  qed
qed

lemma v4_loop_digit:
  "d < 10 \<Longrightarrow> dl \<noteq> 1 \<or> val \<noteq> 0 \<Longrightarrow> val * 10 + d \<le> 255 \<Longrightarrow>
    v4_loop prev val dl fs (digit_char d # s) = v4_loop (Some (digit_char d)) (val * 10 + d) (Suc dl) fs s"
  by auto

lemma v4_loop_show:
  assumes "n < 256"
  shows "\<exists>dl d. d < 10 \<and> v4_loop prev 0 0 fs (show_base 10 n @ s) = v4_loop (Some (digit_char d)) n dl fs s"
proof -
  have e: "n div 100 * 10 + n div 10 mod 10 = n div 10" "n div 10 * 10 + n mod 10 = n"
    using div_mult_mod_eq [of "n div 10" 10] by (simp_all add: div_mult2_eq [symmetric])
  have b: "n div 100 < 10" "n < 100 \<Longrightarrow> n div 10 < 10" "n div 10 \<le> 255" "n \<le> 255"
    using assms by simp_all
  consider "n < 10" | "10 \<le> n" "n < 100" | "100 \<le> n"
    by linarith
  then show ?thesis
  proof cases
    case 1
    then have "v4_loop prev 0 0 fs (show_base 10 n @ s) = v4_loop (Some (digit_char n)) n 1 fs s"
      by (simp add: show_dec_cases v4_loop_digit del: v4_loop.simps)
    with 1 show ?thesis
      by blast
  next
    case 2
    then have "n div 10 \<noteq> 0" "show_base 10 n = [digit_char (n div 10), digit_char (n mod 10)]"
      by (simp_all add: div_eq_0_iff show_dec_cases)
    then have "v4_loop prev 0 0 fs (show_base 10 n @ s) = v4_loop (Some (digit_char (n mod 10))) n (Suc (Suc 0)) fs s"
      using 2 b by (simp add: v4_loop_digit e del: v4_loop.simps)
    then show ?thesis
      by (meson mod_less_divisor zero_less_numeral)
  next
    case 3
    then have "n div 100 \<noteq> 0"
      "show_base 10 n = [digit_char (n div 100), digit_char (n div 10 mod 10), digit_char (n mod 10)]"
      using assms by (simp_all add: div_eq_0_iff show_dec_cases)
    then have "v4_loop prev 0 0 fs (show_base 10 n @ s) = v4_loop (Some (digit_char (n mod 10))) n (Suc (Suc (Suc 0))) fs s"
      using b by (simp add: v4_loop_digit e del: v4_loop.simps)
    then show ?thesis
      by (meson mod_less_divisor zero_less_numeral)
  qed
qed

lemma digit_not_sep: "d < 10 \<Longrightarrow> digit_char d \<noteq> CHR ''.''"
  using dec_digit [of d] dec_val_seps(2) by fastforce

lemma length4:
  assumes "length xs = 4"
  obtains a b c d where "xs = [a, b, c, d]"
proof -
  have "length xs = Suc (Suc (Suc (Suc 0)))"
    using assms by simp
  then show ?thesis
    by (auto simp: length_Suc_conv intro: that)
qed

lemma parse_show_v4:
  assumes "length ip = 4"
  shows "parseIPv4 (join_str ''.'' (map (\<lambda>b. show_base 10 (unat b)) ip)) = Some ip"
proof -
  obtain a b c d where ip: "ip = [a, b, c, d]"
    using assms by (rule length4)
  have lt: "unat x < 256" for x :: "8 word"
    using unsigned_less [of x] by simp
  have oct: "v4_loop prev 0 0 fs (show_base 10 (unat x) @ CHR ''.'' # s) = v4_loop (Some CHR ''.'') 0 0 (fs @ [x]) s"
    if "s \<noteq> []" "length fs < 3" for prev fs x s
    using v4_loop_show [OF lt [of x], of prev fs "CHR ''.'' # s"] that digit_not_sep by auto
  have last: "v4_loop prev 0 0 [a, b, c] (show_base 10 (unat d)) = Some [a, b, c, d]" for prev
    using v4_loop_show [OF lt [of d], of prev "[a, b, c]" "[]"] by auto
  show ?thesis
    by (simp add: ip parseIPv4_def oct last del: v4_loop.simps)
qed

lemma show_v6_colon: "length ip = 16 \<Longrightarrow> CHR '':'' \<in> set (show_v6 ip)"
proof -
  assume "length ip = 16"
  then have "Suc 0 < length (groups_of ip)"
    by (simp add: length_groups)
  then obtain g h gs where "groups_of ip = g # h # gs"
    by (cases "groups_of ip"; cases "tl (groups_of ip)") auto
  then show ?thesis
    by (auto simp: show_v6_def Let_def join_str_Cons split: option.splits)
qed

lemma ParseAddr_show_v6:
  assumes "length ip = 16"
  shows "ParseAddr (show_v6 ip) = Some ip"
proof -
  have no: "CHR ''.'' \<notin> set (show_v6 ip)" "CHR ''%'' \<notin> set (show_v6 ip)"
    using v6_chars [of _ ip] by force+
  then have "find (\<lambda>c. c \<in> set ''.:%'') (show_v6 ip) = Some CHR '':''"
    using show_v6_colon [OF assms] by (intro find_unique) auto
  with no show ?thesis
    by (simp add: ParseAddr_def parse_show_v6 [OF assms])
qed

lemma ParseAddr_show_v4:
  assumes "length ip = 4"
  shows "ParseAddr (join_str ''.'' (map (\<lambda>b. show_base 10 (unat b)) ip)) = Some ip"
proof -
  let ?s = "join_str ''.'' (map (\<lambda>b. show_base 10 (unat b)) ip)"
  obtain a b c d where ip: "ip = [a, b, c, d]"
    using assms by (rule length4)
  have ch: "x = CHR ''.'' \<or> dec_val x \<noteq> None" if "x \<in> set ?s" for x
    using that show_dec_val by (auto simp: ip)
  have "find (\<lambda>c. c \<in> set ''.:%'') ?s = Some CHR ''.''"
  proof (rule find_unique)
    show "CHR ''.'' \<in> set ?s"
      by (simp add: ip)
    show "x = CHR ''.''" if "x \<in> set ?s" "x \<in> set ''.:%''" for x
      using ch [OF that(1)] that(2) by auto
  qed simp
  then show ?thesis
    by (simp add: ParseAddr_def parse_show_v4 [OF assms])
qed

lemma To4_Some_length: "To4 ip = Some v4 \<Longrightarrow> length v4 = 4 \<and> As16 v4 = As16 ip"
  by (auto simp: To4_def As16_def split: if_splits) (metis append_take_drop_id)

lemma v4_loop_length: "v4_loop prev val dl fs s = Some r \<Longrightarrow> length fs \<le> 3 \<Longrightarrow> length r = 4"
  by (induction prev val dl fs s rule: v4_loop.induct) (auto split: option.splits if_splits)

lemma parseIPv4_length: "parseIPv4 s = Some ip \<Longrightarrow> length ip = 4"
  using v4_loop_length by (simp add: parseIPv4_def)

lemma v6_loop_length:
  "v6_loop n bs el s = Some (bs', el', r) \<Longrightarrow> length bs + 2 * n \<le> 16 \<Longrightarrow> length bs' \<le> 16"
  by (induction n bs el s rule: v6_loop.induct)
    (auto simp: Let_def group_bytes_def dest: parseIPv4_length split: option.splits if_splits list.splits prod.splits)

lemma v6_fill_length: "v6_fill bs el = Some ip \<Longrightarrow> length bs \<le> 16 \<Longrightarrow> length ip = 16"
  by (auto simp: v6_fill_def split: if_splits option.splits)

lemma parseIPv6_length:
  assumes "parseIPv6 s = Some ip"
  shows "length ip = 16"
proof -
  have "ip = replicate 16 0 \<or> (\<exists>el s' bs el'. v6_loop 8 [] el s' = Some (bs, el', []) \<and> v6_fill bs el' = Some ip)"
    using assms unfolding parseIPv6_def Let_def by (auto split: option.splits if_splits prod.splits)
  then show ?thesis
    using v6_loop_length [of 8 "[]"] v6_fill_length by fastforce
qed

lemma ParseAddr_length:
  assumes "ParseAddr s = Some ip"
  shows "length ip = 4 \<or> length ip = 16"
  using assms unfolding ParseAddr_def
  by (auto split: option.splits if_splits dest: parseIPv4_length parseIPv6_length)

lemma ParseIP_length:
  assumes "ParseIP s = Some ip"
  shows "length ip = 16"
proof -
  obtain a where a: "ParseAddr s = Some a" "ip = As16 a"
    using assms by (auto simp: ParseIP_def)
  show ?thesis
    using ParseAddr_length [OF a(1)] a(2) by (auto simp: As16_def v4InV6Prefix_def)
qed

text \<open>Parsing a printed address gives it back, in its 16-byte form.\<close>

lemma ParseIP_String:
  assumes "length ip = 4 \<or> length ip = 16"
  shows "ParseIP (IP_String ip) = Some (As16 ip)"
proof (cases "To4 ip")
  case None
  then have "length ip = 16"
    using assms by (auto simp: To4_def)
  with None show ?thesis
    by (simp add: ParseIP_def IP_String_def ParseAddr_show_v6 As16_def)
next
  case (Some v4)
  from To4_Some_length [OF Some] Some show ?thesis
    by (simp add: ParseIP_def IP_String_def ParseAddr_show_v4)
qed

end
