(* ===== verification/RateLimiter.thy ===== *)
theory RateLimiter
  imports Prelude
begin

text \<open>
  The bounded set of token buckets behind the rate limits
  (\<open>keyedRateLimiter\<close> of \<open>src/internal/middleware/middleware.go\<close>): a map from keys
  to elements of a recency list, swept lazily and evicted at a cap.

  The list holds its elements under handles, as Go's \<open>*list.Element\<close>; the map is
  an association list from keys to handles.  A bucket is opaque, \<open>fresh\<close> is the
  one \<open>rate.NewLimiter\<close> returns.  The abstract model is the recency list alone,
  and the code refines it.
\<close>

definition limiterIdleTTL :: int where "limiterIdleTTL = 2 * 60 * 1000000000"
definition limiterSweepInterval :: int where "limiterSweepInterval = 60 * 1000000000"
definition defaultLimiterMaxEntries :: int where "defaultLimiterMaxEntries = 100000"

record 'b limiter_entry =
  le_key :: go_string
  le_lim :: 'b
  le_seen :: instant

record 'b rate_limiter =
  rl_entries :: "(go_string \<times> nat) list"
  rl_order :: "(nat \<times> 'b limiter_entry) list"
  rl_next :: nat
  rl_burst :: int
  rl_max :: int
  rl_lastSweep :: instant

definition newKeyedRateLimiterWith :: "int \<Rightarrow> int \<Rightarrow> instant \<Rightarrow> 'b rate_limiter" where
  "newKeyedRateLimiterWith perMinute maxEntries now =
     (let maxEntries = (if maxEntries < 1 then 1 else maxEntries) in
      \<lparr>rl_entries = [], rl_order = [], rl_next = 0, rl_burst = perMinute, rl_max = maxEntries,
       rl_lastSweep = now\<rparr>)"

definition removeLocked :: "nat \<times> 'b limiter_entry \<Rightarrow> 'b rate_limiter \<Rightarrow> 'b rate_limiter" where
  "removeLocked el l =
     l\<lparr>rl_order := filter (\<lambda>x. fst x \<noteq> fst el) (rl_order l),
       rl_entries := filter (\<lambda>x. fst x \<noteq> le_key (snd el)) (rl_entries l)\<rparr>"

text \<open>The loop from the back of the list; every iteration removes an element, so \<open>length\<close> steps do.\<close>

fun sweep_loop :: "nat \<Rightarrow> instant \<Rightarrow> 'b rate_limiter \<Rightarrow> 'b rate_limiter" where
  "sweep_loop 0 now l = l"
| "sweep_loop (Suc n) now l =
     (if rl_order l = [] then l
      else let el = last (rl_order l) in
        if now - le_seen (snd el) < limiterIdleTTL then l
        else sweep_loop n now (removeLocked el l))"

definition sweepLocked :: "instant \<Rightarrow> 'b rate_limiter \<Rightarrow> 'b rate_limiter" where
  "sweepLocked now l = sweep_loop (length (rl_order l)) now (l\<lparr>rl_lastSweep := now\<rparr>)"

definition evictOldestLocked :: "'b rate_limiter \<Rightarrow> 'b rate_limiter" where
  "evictOldestLocked l = (if rl_order l = [] then l else removeLocked (last (rl_order l)) l)"

definition make_room :: "instant \<Rightarrow> 'b rate_limiter \<Rightarrow> 'b rate_limiter" where
  "make_room now l =
     (if int (length (rl_entries l)) \<ge> rl_max l then
        (let l = sweepLocked now l in
         if int (length (rl_entries l)) \<ge> rl_max l then evictOldestLocked l else l)
      else l)"

definition get :: "'b \<Rightarrow> instant \<Rightarrow> go_string \<Rightarrow> 'b rate_limiter \<Rightarrow> 'b \<times> 'b rate_limiter" where
  "get fresh now key l =
     (let l = (if now - rl_lastSweep l \<ge> limiterSweepInterval then sweepLocked now l else l) in
      case map_of (rl_entries l) key of
        Some h \<Rightarrow>
          (let e = the (map_of (rl_order l) h) in
           (le_lim e, l\<lparr>rl_order := (h, e\<lparr>le_seen := now\<rparr>) # filter (\<lambda>x. fst x \<noteq> h) (rl_order l)\<rparr>))
      | None \<Rightarrow>
          (let l = make_room now l; h = rl_next l in
           (fresh, l\<lparr>rl_order := (h, \<lparr>le_key = key, le_lim = fresh, le_seen = now\<rparr>) # rl_order l,
                     rl_entries := (key, h) # rl_entries l, rl_next := Suc h\<rparr>)))"

section \<open>The abstract recency list\<close>

definition lru_sweep :: "instant \<Rightarrow> 'b limiter_entry list \<Rightarrow> 'b limiter_entry list" where
  "lru_sweep now es = rev (dropWhile (\<lambda>e. limiterIdleTTL \<le> now - le_seen e) (rev es))"

definition lru_room :: "int \<Rightarrow> instant \<Rightarrow> 'b limiter_entry list \<Rightarrow> 'b limiter_entry list" where
  "lru_room cap now es =
     (if int (length es) \<ge> cap then
        (let es = lru_sweep now es in if int (length es) \<ge> cap then butlast es else es)
      else es)"

definition lru_get ::
  "int \<Rightarrow> bool \<Rightarrow> 'b \<Rightarrow> instant \<Rightarrow> go_string \<Rightarrow> 'b limiter_entry list \<Rightarrow> 'b \<times> 'b limiter_entry list" where
  "lru_get cap sweep fresh now key es =
     (let es = (if sweep then lru_sweep now es else es) in
      case find (\<lambda>e. le_key e = key) es of
        Some e \<Rightarrow> (le_lim e, e\<lparr>le_seen := now\<rparr> # filter (\<lambda>x. le_key x \<noteq> key) es)
      | None \<Rightarrow> (fresh, \<lparr>le_key = key, le_lim = fresh, le_seen = now\<rparr> # lru_room cap now es))"

section \<open>Well-formedness and refinement\<close>

definition entries_of :: "'b rate_limiter \<Rightarrow> 'b limiter_entry list" where
  "entries_of l = map snd (rl_order l)"

text \<open>Map and list hold the same elements, keys and handles are unique, and handles are old.\<close>

definition limiter_wf :: "'b rate_limiter \<Rightarrow> bool" where
  "limiter_wf l \<longleftrightarrow>
     distinct (map fst (rl_order l)) \<and> distinct (map (\<lambda>x. le_key (snd x)) (rl_order l))
     \<and> distinct (map fst (rl_entries l))
     \<and> set (rl_entries l) = (\<lambda>x. (le_key (snd x), fst x)) ` set (rl_order l)
     \<and> list_all (\<lambda>x. fst x < rl_next l) (rl_order l) \<and> 1 \<le> rl_max l"

lemma handle_key_unique:
  assumes "limiter_wf l" "x \<in> set (rl_order l)" "y \<in> set (rl_order l)"
  shows "fst x = fst y \<longleftrightarrow> x = y" "le_key (snd x) = le_key (snd y) \<longleftrightarrow> x = y"
  using assms by (auto simp: limiter_wf_def distinct_map dest: inj_onD)

lemma entries_length:
  assumes "limiter_wf l"
  shows "length (rl_entries l) = length (rl_order l)"
proof -
  have "distinct (rl_entries l)" "distinct (rl_order l)"
    using assms by (auto simp: limiter_wf_def distinct_map)
  moreover have "card (set (rl_entries l)) = card (set (rl_order l))"
    using assms handle_key_unique(1) [OF assms]
    by (auto simp: limiter_wf_def intro!: card_image inj_onI)
  ultimately show ?thesis
    using distinct_card by metis
qed

lemma lookup_entry:
  assumes "limiter_wf l"
  shows "map_of (rl_entries l) k = Some h \<longleftrightarrow> (\<exists>e. (h, e) \<in> set (rl_order l) \<and> le_key e = k)"
proof -
  have "map_of (rl_entries l) k = Some h \<longleftrightarrow> (k, h) \<in> set (rl_entries l)"
    using assms by (simp add: limiter_wf_def map_of_eq_Some_iff)
  with assms show ?thesis
    by (force simp: limiter_wf_def)
qed

lemma filter_handle:
  assumes "limiter_wf l" "el \<in> set (rl_order l)"
  shows "map snd (filter (\<lambda>x. fst x \<noteq> fst el) (rl_order l))
    = filter (\<lambda>e. le_key e \<noteq> le_key (snd el)) (map snd (rl_order l))"
proof -
  have "filter (\<lambda>x. fst x \<noteq> fst el) (rl_order l)
      = filter (\<lambda>x. le_key (snd x) \<noteq> le_key (snd el)) (rl_order l)"
    using handle_key_unique [OF assms(1) _ assms(2)] by (intro filter_cong) auto
  then show ?thesis
    by (simp add: filter_map comp_def)
qed

lemma removeLocked_entries:
  assumes "limiter_wf l" "el \<in> set (rl_order l)"
  shows "entries_of (removeLocked el l) = filter (\<lambda>x. le_key x \<noteq> le_key (snd el)) (entries_of l)"
  using filter_handle [OF assms] by (simp add: entries_of_def removeLocked_def)

lemma removeLocked_wf:
  assumes "limiter_wf l" "el \<in> set (rl_order l)"
  shows "limiter_wf (removeLocked el l)"
proof -
  have "{x \<in> set (rl_entries l). fst x \<noteq> le_key (snd el)}
      = (\<lambda>x. (le_key (snd x), fst x)) ` {x \<in> set (rl_order l). fst x \<noteq> fst el}"
    using assms handle_key_unique [OF assms(1) _ assms(2)] by (auto simp: limiter_wf_def)
  with assms(1) show ?thesis
    by (auto simp: limiter_wf_def removeLocked_def distinct_map_filter list_all_iff)
qed

lemma entries_split:
  "rl_order l \<noteq> [] \<Longrightarrow> entries_of l = butlast (entries_of l) @ [snd (last (rl_order l))]"
  by (cases "rl_order l" rule: rev_cases) (auto simp: entries_of_def)

lemma last_removed:
  assumes "limiter_wf l" "rl_order l \<noteq> []"
  shows "entries_of (removeLocked (last (rl_order l)) l) = butlast (entries_of l)"
proof -
  define es where "es = butlast (entries_of l)"
  have entries: "entries_of l = es @ [snd (last (rl_order l))]"
    using entries_split [OF assms(2)] by (simp add: es_def)
  have "distinct (map le_key (entries_of l))"
    using assms(1) by (simp add: limiter_wf_def entries_of_def comp_def)
  then have "le_key (snd (last (rl_order l))) \<notin> le_key ` set es"
    unfolding entries by simp
  then have "filter (\<lambda>x. le_key x \<noteq> le_key (snd (last (rl_order l)))) es = es"
    by (intro filter_True) (metis image_eqI)
  then show ?thesis
    using removeLocked_entries [OF assms(1), of "last (rl_order l)"] assms(2)
    by (simp add: entries)
qed

lemma removeLocked_fields [simp]:
  "rl_max (removeLocked el l) = rl_max l" "rl_lastSweep (removeLocked el l) = rl_lastSweep l"
  by (simp_all add: removeLocked_def)

lemma lru_sweep_snoc:
  "lru_sweep now (es @ [e]) = (if now - le_seen e < limiterIdleTTL then es @ [e] else lru_sweep now es)"
  by (simp add: lru_sweep_def)

lemma sweep_loop_spec:
  assumes "limiter_wf l" "length (rl_order l) \<le> n"
  shows "limiter_wf (sweep_loop n now l)" "entries_of (sweep_loop n now l) = lru_sweep now (entries_of l)"
    "rl_max (sweep_loop n now l) = rl_max l"
proof -
  have "limiter_wf (sweep_loop n now l) \<and> entries_of (sweep_loop n now l) = lru_sweep now (entries_of l)
      \<and> rl_max (sweep_loop n now l) = rl_max l"
    using assms
  proof (induction n arbitrary: l)
    case (Suc n)
    show ?case
    proof (cases "rl_order l = []")
      case True
      with Suc.prems show ?thesis
        by (simp add: entries_of_def lru_sweep_def)
    next
      case False
      let ?el = "last (rl_order l)"
      have split: "entries_of l = butlast (entries_of l) @ [snd ?el]"
        by (rule entries_split [OF False])
      have "length (rl_order (removeLocked ?el l)) \<le> n"
        using Suc.prems last_removed [OF Suc.prems(1) False] False
        by (metis Suc_le_mono Suc_pred' entries_of_def length_butlast length_greater_0_conv length_map
            diff_Suc_1 le_diff_conv Suc_eq_plus1)
      with Suc.IH [of "removeLocked ?el l"] removeLocked_wf [OF Suc.prems(1)] False
        last_removed [OF Suc.prems(1) False]
      have "limiter_wf (sweep_loop n now (removeLocked ?el l))
          \<and> entries_of (sweep_loop n now (removeLocked ?el l)) = lru_sweep now (butlast (entries_of l))
          \<and> rl_max (sweep_loop n now (removeLocked ?el l)) = rl_max l"
        by simp
      moreover have "lru_sweep now (entries_of l) = (if now - le_seen (snd ?el) < limiterIdleTTL
          then entries_of l else lru_sweep now (butlast (entries_of l)))"
        using lru_sweep_snoc [of now "butlast (entries_of l)" "snd ?el"] split by simp
      ultimately show ?thesis
        using False Suc.prems(1) by (simp add: Let_def)
    qed
  qed (simp add: entries_of_def lru_sweep_def)
  then show "limiter_wf (sweep_loop n now l)" "entries_of (sweep_loop n now l) = lru_sweep now (entries_of l)"
    "rl_max (sweep_loop n now l) = rl_max l"
    by blast+
qed

lemma set_lastSweep [simp]:
  "limiter_wf (l\<lparr>rl_lastSweep := t\<rparr>) = limiter_wf l" "entries_of (l\<lparr>rl_lastSweep := t\<rparr>) = entries_of l"
  by (simp_all add: limiter_wf_def entries_of_def)

lemma sweepLocked_spec:
  assumes "limiter_wf l"
  shows "limiter_wf (sweepLocked now l)" "entries_of (sweepLocked now l) = lru_sweep now (entries_of l)"
    "rl_max (sweepLocked now l) = rl_max l"
  using sweep_loop_spec [of "l\<lparr>rl_lastSweep := now\<rparr>" "length (rl_order l)" now] assms
  by (simp_all add: sweepLocked_def)

lemma evict_spec:
  assumes "limiter_wf l"
  shows "limiter_wf (evictOldestLocked l)" "entries_of (evictOldestLocked l) = butlast (entries_of l)"
    "rl_max (evictOldestLocked l) = rl_max l"
  using assms removeLocked_wf [OF assms, of "last (rl_order l)"] last_removed [OF assms]
  by (auto simp: evictOldestLocked_def entries_of_def)

lemma entries_of_length: "limiter_wf l \<Longrightarrow> length (rl_entries l) = length (entries_of l)"
  by (simp add: entries_length entries_of_def)

lemma make_room_spec:
  assumes "limiter_wf l"
  shows "limiter_wf (make_room now l)" "entries_of (make_room now l) = lru_room (rl_max l) now (entries_of l)"
    "rl_max (make_room now l) = rl_max l"
proof -
  note sw = sweepLocked_spec [OF assms, of now]
  note ev = evict_spec [OF sw(1)]
  show "limiter_wf (make_room now l)" "entries_of (make_room now l) = lru_room (rl_max l) now (entries_of l)"
    "rl_max (make_room now l) = rl_max l"
    using assms sw ev entries_of_length [OF assms] entries_of_length [OF sw(1)]
    by (auto simp: make_room_def lru_room_def Let_def)
qed

lemma lru_room_subset: "set (lru_room cap now es) \<subseteq> set es"
proof -
  have "set (lru_sweep now es) \<subseteq> set es"
    unfolding lru_sweep_def using set_dropWhileD by fastforce
  then show ?thesis
    by (auto simp: lru_room_def Let_def dest: in_set_butlastD)
qed

lemma find_by_key:
  assumes "distinct (map le_key es)" "e \<in> set es"
  shows "find (\<lambda>x. le_key x = le_key e) es = Some e"
  using assms by (induction es) auto

lemma insert_wf:
  assumes "limiter_wf l" "map_of (rl_entries l) key = None"
  shows "limiter_wf (l\<lparr>rl_order := (rl_next l, \<lparr>le_key = key, le_lim = b, le_seen = now\<rparr>) # rl_order l,
    rl_entries := (key, rl_next l) # rl_entries l, rl_next := Suc (rl_next l)\<rparr>)"
proof -
  have "key \<notin> fst ` set (rl_entries l)"
    using assms(2) by (simp add: map_of_eq_None_iff)
  moreover from this have "key \<notin> (\<lambda>x. le_key (snd x)) ` set (rl_order l)"
    using assms(1) by (force simp: limiter_wf_def)
  moreover have "rl_next l \<notin> fst ` set (rl_order l)"
    using assms(1) by (auto simp: limiter_wf_def list_all_iff)
  ultimately show ?thesis
    using assms(1) by (auto simp: limiter_wf_def list_all_iff)
qed

lemma touch_wf:
  assumes "limiter_wf l" "(h, e) \<in> set (rl_order l)"
  shows "limiter_wf (l\<lparr>rl_order := (h, e\<lparr>le_seen := now\<rparr>) # filter (\<lambda>x. fst x \<noteq> h) (rl_order l)\<rparr>)"
    "entries_of (l\<lparr>rl_order := (h, e\<lparr>le_seen := now\<rparr>) # filter (\<lambda>x. fst x \<noteq> h) (rl_order l)\<rparr>)
      = e\<lparr>le_seen := now\<rparr> # filter (\<lambda>x. le_key x \<noteq> le_key e) (entries_of l)"
proof -
  show "entries_of (l\<lparr>rl_order := (h, e\<lparr>le_seen := now\<rparr>) # filter (\<lambda>x. fst x \<noteq> h) (rl_order l)\<rparr>)
      = e\<lparr>le_seen := now\<rparr> # filter (\<lambda>x. le_key x \<noteq> le_key e) (entries_of l)"
    using filter_handle [OF assms] by (simp add: entries_of_def)
  let ?kept = "filter (\<lambda>x. fst x \<noteq> h) (rl_order l)"
  have only: "x = (h, e)" if "x \<in> set (rl_order l)" "fst x = h \<or> le_key (snd x) = le_key e" for x
    using that handle_key_unique [OF assms(1) that(1) assms(2)] by auto
  have keys: "le_key e \<notin> (\<lambda>x. le_key (snd x)) ` set ?kept"
  proof
    assume "le_key e \<in> (\<lambda>x. le_key (snd x)) ` set ?kept"
    then obtain x where "x \<in> set (rl_order l)" "fst x \<noteq> h" "le_key (snd x) = le_key e"
      by auto
    with only [of x] show False
      by simp
  qed
  have "x \<in> set (rl_order l) \<longleftrightarrow> x \<in> insert (h, e) (set ?kept)" for x
    using assms(2) only [of x] by auto
  then have eq: "set (rl_order l) = insert (h, e) (set ?kept)"
    by blast
  then have "(\<lambda>x. (le_key (snd x), fst x)) ` set (rl_order l)
      = insert (le_key e, h) ((\<lambda>x. (le_key (snd x), fst x)) ` set ?kept)"
    by (simp only: eq image_insert fst_conv snd_conv)
  moreover have "distinct (map (\<lambda>x. le_key (snd x)) ?kept)" "distinct (map fst ?kept)"
      "list_all (\<lambda>x. fst x < rl_next l) ?kept" "h < rl_next l"
    using assms by (auto simp: limiter_wf_def distinct_map_filter list_all_iff)
  ultimately show "limiter_wf (l\<lparr>rl_order := (h, e\<lparr>le_seen := now\<rparr>) # filter (\<lambda>x. fst x \<noteq> h) (rl_order l)\<rparr>)"
    using assms(1) keys by (auto simp: limiter_wf_def)
qed

lemma lookup_None:
  "limiter_wf l \<Longrightarrow> map_of (rl_entries l) k = None \<longleftrightarrow> k \<notin> le_key ` set (entries_of l)"
  by (force simp: map_of_eq_None_iff limiter_wf_def entries_of_def image_image)

lemma get_spec:
  assumes "limiter_wf l" "get fresh now key l = (b, l')"
  shows "limiter_wf l' \<and> rl_max l' = rl_max l \<and> (b, entries_of l') =
    lru_get (rl_max l) (now - rl_lastSweep l \<ge> limiterSweepInterval) fresh now key (entries_of l)"
proof -
  define l1 where "l1 = (if now - rl_lastSweep l \<ge> limiterSweepInterval then sweepLocked now l else l)"
  have l1: "limiter_wf l1" "rl_max l1 = rl_max l"
    "entries_of l1 = (if now - rl_lastSweep l \<ge> limiterSweepInterval
       then lru_sweep now (entries_of l) else entries_of l)"
    using sweepLocked_spec [OF assms(1)] assms(1) by (auto simp: l1_def)
  have keys: "distinct (map le_key (entries_of l1))"
    using l1(1) by (simp add: limiter_wf_def entries_of_def comp_def)
  show ?thesis
  proof (cases "map_of (rl_entries l1) key")
    case None
    then have absent: "key \<notin> le_key ` set (entries_of l1)"
      using lookup_None [OF l1(1)] by blast
    then have "find (\<lambda>e. le_key e = key) (entries_of l1) = None"
      by (auto simp: find_None_iff)
    moreover note room = make_room_spec [OF l1(1), of now]
    have "key \<notin> le_key ` set (entries_of (make_room now l1))"
      using absent lru_room_subset [of "rl_max l1" now "entries_of l1"] room(2) by auto
    then have "map_of (rl_entries (make_room now l1)) key = None"
      using lookup_None [OF room(1)] by blast
    from insert_wf [OF room(1) this, of fresh now] calculation None assms(2) l1 room(2,3)
    show ?thesis
      by (auto simp: get_def l1_def [symmetric] lru_get_def Let_def entries_of_def)
  next
    case (Some h)
    then obtain e where e: "(h, e) \<in> set (rl_order l1)" "le_key e = key"
      using lookup_entry [OF l1(1)] by blast
    then have "map_of (rl_order l1) h = Some e"
      using l1(1) by (simp add: limiter_wf_def)
    moreover have "e \<in> set (entries_of l1)"
      using e(1) by (force simp: entries_of_def)
    then have "find (\<lambda>x. le_key x = key) (entries_of l1) = Some e"
      using find_by_key [OF keys] e(2) by metis
    ultimately show ?thesis
      using Some assms(2) l1 touch_wf [OF l1(1) e(1), of now] e(2)
      by (auto simp: get_def l1_def [symmetric] lru_get_def Let_def)
  qed
qed

lemma get_spec_pair:
  assumes "limiter_wf l"
  shows "limiter_wf (snd (get b now key l))" "rl_max (snd (get b now key l)) = rl_max l"
    "(fst (get b now key l), entries_of (snd (get b now key l)))
       = lru_get (rl_max l) (now - rl_lastSweep l \<ge> limiterSweepInterval) b now key (entries_of l)"
  using get_spec [OF assms, of b now key "fst (get b now key l)" "snd (get b now key l)"] by simp_all

section \<open>Runs of requests\<close>

text \<open>A request: the bucket that would be created, its instant and its key.\<close>

fun limiter_step :: "'b \<times> instant \<times> go_string \<Rightarrow> 'b rate_limiter \<Rightarrow> 'b rate_limiter" where
  "limiter_step (b, now, key) l = snd (get b now key l)"

definition limiter_inv :: "'b rate_limiter \<Rightarrow> bool" where
  "limiter_inv l \<longleftrightarrow> limiter_wf l \<and> int (length (entries_of l)) \<le> rl_max l"

lemma lru_sweep_prefix: "prefix (lru_sweep now es) es"
  unfolding lru_sweep_def by (metis prefixI rev_append rev_rev_ident takeWhile_dropWhile_id)

lemma lru_sweep_length: "length (lru_sweep now es) \<le> length es"
  using lru_sweep_prefix prefix_length_le by blast

lemma lru_room_length: "1 \<le> cap \<Longrightarrow> int (length es) \<le> cap \<Longrightarrow> int (length (lru_room cap now es)) < cap"
  using lru_sweep_length [of now es] by (auto simp: lru_room_def Let_def)

lemma lru_get_length:
  assumes "1 \<le> cap" "int (length es) \<le> cap"
  shows "int (length (snd (lru_get cap sweep fresh now key es))) \<le> cap"
proof -
  define es1 where "es1 = (if sweep then lru_sweep now es else es)"
  have len: "int (length es1) \<le> cap"
    using assms(2) lru_sweep_length [of now es] by (auto simp: es1_def)
  show ?thesis
  proof (cases "find (\<lambda>e. le_key e = key) es1")
    case None
    then show ?thesis
      using lru_room_length [OF assms(1) len, of now] by (simp add: lru_get_def es1_def [symmetric] Let_def)
  next
    case (Some e)
    then have "e \<in> set es1" "le_key e = key"
      by (auto simp: find_Some_iff)
    then have "length (filter (\<lambda>x. le_key x \<noteq> key) es1) < length es1"
      by (intro length_filter_less) auto
    with Some len show ?thesis
      by (simp add: lru_get_def es1_def [symmetric] Let_def)
  qed
qed

lemma limiter_step_inv: "limiter_inv l \<Longrightarrow> limiter_inv (limiter_step r l)"
proof -
  assume inv: "limiter_inv l"
  obtain b now key where r: "r = (b, now, key)"
    by (cases r) auto
  obtain x l' where g: "get b now key l = (x, l')"
    by fastforce
  from get_spec [OF _ g] inv have "limiter_wf l'" "rl_max l' = rl_max l"
    "entries_of l' = snd (lru_get (rl_max l) (now - rl_lastSweep l \<ge> limiterSweepInterval) b now key (entries_of l))"
    by (auto simp: limiter_inv_def dest: arg_cong [of _ _ snd])
  with inv r g show ?thesis
    using lru_get_length [of "rl_max l" "entries_of l"] by (simp add: limiter_inv_def limiter_wf_def)
qed

interpretation limiter_run: step_system limiter_step limiter_inv
  by unfold_locales (rule limiter_step_inv)

lemma limiter_step_max: "limiter_inv l \<Longrightarrow> rl_max (limiter_step r l) = rl_max l"
  by (cases r) (simp add: limiter_inv_def get_spec_pair)

lemma new_limiter_inv: "limiter_inv (newKeyedRateLimiterWith perMinute maxEntries now)"
  by (simp add: limiter_inv_def limiter_wf_def entries_of_def newKeyedRateLimiterWith_def Let_def)

text \<open>The entry of an active key, with only keys of \<open>S\<close> more recent than it.\<close>

definition holds_bucket ::
  "go_string \<Rightarrow> 'b \<Rightarrow> instant \<Rightarrow> go_string set \<Rightarrow> 'b limiter_entry list \<Rightarrow> bool" where
  "holds_bucket key lim t S es \<longleftrightarrow>
     distinct (map le_key es) \<and>
     (\<exists>pre e post. es = pre @ e # post \<and> le_key e = key \<and> le_lim e = lim \<and> le_seen e = t
        \<and> le_key ` set pre \<subseteq> S)"

lemma sweep_keeps:
  assumes "now - le_seen e < limiterIdleTTL"
  shows "\<exists>post'. lru_sweep now (pre @ e # post) = pre @ e # post' \<and> prefix post' post"
proof -
  have "lru_sweep now (pre @ e # post) = pre @ e # lru_sweep now post"
    using assms by (simp add: lru_sweep_def dropWhile_append3)
  then show ?thesis
    using lru_sweep_prefix by blast
qed

lemma holds_sweep:
  assumes "holds_bucket key lim t S es" "now - t < limiterIdleTTL"
  shows "holds_bucket key lim t S (lru_sweep now es)"
proof -
  obtain pre e post where es: "es = pre @ e # post" "le_key e = key" "le_lim e = lim" "le_seen e = t"
      "le_key ` set pre \<subseteq> S" "distinct (map le_key es)"
    using assms(1) unfolding holds_bucket_def by blast
  obtain post' where sw: "lru_sweep now es = pre @ e # post'" "prefix post' post"
    using sweep_keeps [of now e pre post] es(1,4) assms(2) by auto
  then have "distinct (map le_key (lru_sweep now es))"
    using es(1,6) by (auto simp: prefix_def)
  with sw es show ?thesis
    unfolding holds_bucket_def by blast
qed

lemma holds_room:
  assumes "holds_bucket key lim t S es" "now - t < limiterIdleTTL"
    and "finite S" "int (card S) < cap" "k \<in> S" "k \<notin> le_key ` set es"
  shows "holds_bucket key lim t (S - {k}) (lru_room cap now es)"
proof -
  have keep: "holds_bucket key lim t (S - {k}) xs" if h: "holds_bucket key lim t S xs" "set xs \<subseteq> set es" for xs
  proof -
    obtain pre e post where xs: "xs = pre @ e # post" "le_key e = key" "le_lim e = lim" "le_seen e = t"
        "le_key ` set pre \<subseteq> S" "distinct (map le_key xs)"
      using h(1) unfolding holds_bucket_def by blast
    moreover have "k \<notin> le_key ` set pre"
      using h(2) assms(6) xs(1) by auto
    ultimately show ?thesis
      unfolding holds_bucket_def by blast
  qed
  have last: "holds_bucket key lim t (S - {k}) (butlast xs)"
    if h: "holds_bucket key lim t (S - {k}) xs" "cap \<le> int (length xs)" for xs
  proof -
    obtain pre e post where xs: "xs = pre @ e # post" "le_key e = key" "le_lim e = lim" "le_seen e = t"
        "le_key ` set pre \<subseteq> S - {k}" "distinct (map le_key xs)"
      using h(1) unfolding holds_bucket_def by blast
    have "length pre = card (le_key ` set pre)"
      using xs(1,6) by (metis card_image distinct_append distinct_card distinct_map length_map list.set_map map_append)
    also have "\<dots> \<le> card (S - {k})"
      using xs(5) assms(3) by (intro card_mono) auto
    also have "\<dots> < card S"
      using assms(3,5) by (intro psubset_card_mono) auto
    finally have "post \<noteq> []"
      using h(2) assms(4) xs(1) by auto
    then have "butlast xs = pre @ e # butlast post"
      by (simp add: xs(1) butlast_append)
    moreover have "distinct (map le_key (butlast xs))"
      using xs(6) by (simp add: map_butlast distinct_butlast)
    ultimately show ?thesis
      using xs unfolding holds_bucket_def by blast
  qed
  have "holds_bucket key lim t (S - {k}) (lru_sweep now es)"
    using holds_sweep [OF assms(1,2)] lru_sweep_prefix [of now es] set_mono_prefix
    by (intro keep) auto
  moreover have "holds_bucket key lim t (S - {k}) es"
    using assms(1) by (intro keep) auto
  ultimately show ?thesis
    using last by (simp add: lru_room_def Let_def)
qed

lemma holds_get:
  assumes "holds_bucket key lim t S es" "now - t < limiterIdleTTL"
    and "finite S" "int (card S) < cap" "k \<in> S" "k \<noteq> key"
  shows "holds_bucket key lim t S (snd (lru_get cap sweep b now k es))"
proof -
  define es1 where "es1 = (if sweep then lru_sweep now es else es)"
  have h: "holds_bucket key lim t S es1"
    using assms holds_sweep by (auto simp: es1_def)
  show ?thesis
  proof (cases "find (\<lambda>e. le_key e = k) es1")
    case None
    then have "k \<notin> le_key ` set es1"
      by (auto simp: find_None_iff)
    with holds_room [OF h assms(2-5)] have "holds_bucket key lim t (S - {k}) (lru_room cap now es1)" .
    moreover have "k \<notin> le_key ` set (lru_room cap now es1)"
      using \<open>k \<notin> le_key ` set es1\<close> lru_room_subset [of cap now es1] by auto
    ultimately have "holds_bucket key lim t S (\<lparr>le_key = k, le_lim = b, le_seen = now\<rparr> # lru_room cap now es1)"
      using assms(5) unfolding holds_bucket_def
      by (clarsimp, intro exI [of _ "\<lparr>le_key = k, le_lim = b, le_seen = now\<rparr> # _"] exI conjI) auto
    with None show ?thesis
      by (simp add: lru_get_def es1_def [symmetric] Let_def)
  next
    case (Some e')
    then have e': "le_key e' = k"
      by (auto simp: find_Some_iff)
    obtain pre e post where es1: "es1 = pre @ e # post" "le_key e = key" "le_lim e = lim" "le_seen e = t"
        "le_key ` set pre \<subseteq> S" "distinct (map le_key es1)"
      using h unfolding holds_bucket_def by blast
    have "e'\<lparr>le_seen := now\<rparr> # filter (\<lambda>x. le_key x \<noteq> k) es1
        = (e'\<lparr>le_seen := now\<rparr> # filter (\<lambda>x. le_key x \<noteq> k) pre) @ e # filter (\<lambda>x. le_key x \<noteq> k) post"
      using es1(1,2) assms(6) by simp
    moreover have "le_key ` set (e'\<lparr>le_seen := now\<rparr> # filter (\<lambda>x. le_key x \<noteq> k) pre) \<subseteq> S"
      using es1(5) e' assms(5) by auto
    moreover have "distinct (map le_key (e'\<lparr>le_seen := now\<rparr> # filter (\<lambda>x. le_key x \<noteq> k) es1))"
      using es1(6) e' by (auto simp: distinct_map_filter)
    ultimately have "holds_bucket key lim t S (e'\<lparr>le_seen := now\<rparr> # filter (\<lambda>x. le_key x \<noteq> k) es1)"
      unfolding holds_bucket_def using es1(2,3,4) by metis
    with Some show ?thesis
      by (simp add: lru_get_def es1_def [symmetric] Let_def)
  qed
qed

lemma holds_first:
  assumes "(lim, es') = lru_get cap sweep b t key es" "distinct (map le_key es')"
  shows "holds_bucket key lim t S es'"
proof -
  define es1 where "es1 = (if sweep then lru_sweep t es else es)"
  have "\<exists>e post. es' = [] @ e # post \<and> le_key e = key \<and> le_lim e = lim \<and> le_seen e = t"
    using assms(1) by (cases "find (\<lambda>e. le_key e = key) es1")
      (auto simp: lru_get_def es1_def [symmetric] Let_def find_Some_iff)
  with assms(2) show ?thesis
    unfolding holds_bucket_def by (metis empty_subsetI image_empty list.set(1))
qed

lemma holds_last:
  assumes "holds_bucket key lim t S es" "now - t < limiterIdleTTL"
  shows "fst (lru_get cap sweep b now key es) = lim"
proof -
  define es1 where "es1 = (if sweep then lru_sweep now es else es)"
  have "holds_bucket key lim t S es1"
    using assms holds_sweep by (auto simp: es1_def)
  then obtain pre e post where "es1 = pre @ e # post" "le_key e = key" "le_lim e = lim" "distinct (map le_key es1)"
    unfolding holds_bucket_def by blast
  then have "find (\<lambda>e. le_key e = key) es1 = Some e" "le_lim e = lim"
    using find_by_key [of es1 e] by simp_all
  then show ?thesis
    by (simp add: lru_get_def es1_def [symmetric] Let_def)
qed

lemma holds_run:
  assumes "limiter_inv l" "holds_bucket key lim t S (entries_of l)" "finite S" "int (card S) < rl_max l"
    and "list_all (\<lambda>(_, now, k). k \<in> S \<and> k \<noteq> key \<and> now - t < limiterIdleTTL) reqs"
  shows "holds_bucket key lim t S (entries_of (fold limiter_step reqs l)) \<and> limiter_inv (fold limiter_step reqs l)"
  using assms
proof (induction reqs arbitrary: l)
  case (Cons r reqs)
  obtain b now k where r: "r = (b, now, k)"
    by (cases r) auto
  have wf: "limiter_wf l"
    using Cons.prems(1) by (simp add: limiter_inv_def)
  have "entries_of (limiter_step r l)
      = snd (lru_get (rl_max l) (now - rl_lastSweep l \<ge> limiterSweepInterval) b now k (entries_of l))"
    using get_spec_pair(3) [OF wf, of b now k] r by (metis limiter_step.simps snd_conv)
  then have "holds_bucket key lim t S (entries_of (limiter_step r l))"
    using Cons.prems r by (simp add: holds_get)
  moreover have "rl_max (limiter_step r l) = rl_max l" "limiter_inv (limiter_step r l)"
    using Cons.prems(1) by (rule limiter_step_max, rule limiter_step_inv)
  ultimately show ?case
    using Cons.IH [of "limiter_step r l"] Cons.prems(3,4,5) by simp
qed simp

section \<open>Properties\<close>

text \<open>C16: the memory of the rate limiter is bounded and its two structures agree.  Under any sequence of
  requests, with any keys and clock readings, the map holds at most \<open>maxEntries\<close> keys, exactly one
  per element of the recency list, and finds for each key the element that carries it.\<close>

theorem limiter_bounded:
  "let l = fold limiter_step reqs (newKeyedRateLimiterWith perMinute maxEntries t0) in
    int (length (rl_entries l)) \<le> max 1 maxEntries
    \<and> length (rl_entries l) = length (rl_order l) \<and> distinct (map fst (rl_entries l))
    \<and> (map_of (rl_entries l) k = Some h \<longleftrightarrow> (\<exists>e. (h, e) \<in> set (rl_order l) \<and> le_key e = k))"
proof -
  define l where "l = fold limiter_step reqs (newKeyedRateLimiterWith perMinute maxEntries t0)"
  have inv: "limiter_inv l"
    unfolding l_def by (rule limiter_run.run_inv [OF new_limiter_inv])
  then have wf: "limiter_wf l"
    by (simp add: limiter_inv_def)
  have "rl_max (fold limiter_step reqs l0) = rl_max l0" if "limiter_inv l0" for l0 :: "'a rate_limiter"
    using that by (induction reqs arbitrary: l0) (simp_all add: limiter_step_max limiter_step_inv)
  from this [OF new_limiter_inv, of perMinute maxEntries t0] have "rl_max l = max 1 maxEntries"
    by (simp add: l_def newKeyedRateLimiterWith_def Let_def)
  with inv wf show ?thesis
    unfolding l_def [symmetric] Let_def
    using entries_of_length [OF wf] entries_length [OF wf] lookup_entry [OF wf, of k h]
    by (simp add: limiter_inv_def limiter_wf_def)
qed

text \<open>C15: refinement.  One \<open>get\<close> on the map and list is one step of the abstract recency list: same bucket,
  same remaining entries in the same order.\<close>

theorem limiter_refines_lru:
  assumes "limiter_wf l"
  shows "(fst (get b now key l), entries_of (snd (get b now key l)))
       = lru_get (rl_max l) (now - rl_lastSweep l \<ge> limiterSweepInterval) b now key (entries_of l)
    \<and> limiter_wf (snd (get b now key l))"
  using get_spec_pair [OF assms] by simp

lemma limiter_refines_lru_witness:
  "(fst (get (7::nat) 5 ''a'' (newKeyedRateLimiterWith 300 1 0)),
    entries_of (snd (get 7 5 ''a'' (newKeyedRateLimiterWith 300 1 0))))
   = lru_get (rl_max (newKeyedRateLimiterWith 300 1 0 :: nat rate_limiter))
       (5 - rl_lastSweep (newKeyedRateLimiterWith 300 1 0 :: nat rate_limiter) \<ge> limiterSweepInterval)
       7 5 ''a'' (entries_of (newKeyedRateLimiterWith 300 1 0))"
  by (rule limiter_refines_lru [THEN conjunct1]) (use new_limiter_inv in \<open>auto simp: limiter_inv_def\<close>)

text \<open>C17: an active client keeps its bucket.  While fewer than \<open>maxEntries\<close> other keys are seen and less than
  the idle time passes, the next request with a key gets the very bucket it used before: no sweep
  and no eviction resets it.\<close>

theorem active_bucket_survives:
  assumes "limiter_inv l" and "get b t key l = (lim, l0)"
    and "list_all (\<lambda>(_, now, k). k \<noteq> key \<and> now - t < limiterIdleTTL) reqs"
    and "int (card ((\<lambda>(_, _, k). k) ` set reqs)) < rl_max l" and "later - t < limiterIdleTTL"
  shows "fst (get b' later key (fold limiter_step reqs l0)) = lim"
proof -
  define S where "S = (\<lambda>(_, _, k). k) ` set reqs"
  have l0: "limiter_inv l0" "rl_max l0 = rl_max l"
    using limiter_step_inv [OF assms(1), of "(b, t, key)"] limiter_step_max [OF assms(1), of "(b, t, key)"]
      assms(2) by simp_all
  have wf: "limiter_wf l" "limiter_wf l0"
    using assms(1) l0(1) by (simp_all add: limiter_inv_def)
  have "(lim, entries_of l0) = lru_get (rl_max l) (t - rl_lastSweep l \<ge> limiterSweepInterval) b t key (entries_of l)"
    using get_spec_pair(3) [OF wf(1), of b t key] assms(2) by simp
  then have "holds_bucket key lim t S (entries_of l0)"
    using wf(2) by (intro holds_first) (simp_all add: limiter_wf_def entries_of_def comp_def)
  moreover have "list_all (\<lambda>(_, now, k). k \<in> S \<and> k \<noteq> key \<and> now - t < limiterIdleTTL) reqs"
    using assms(3) by (force simp: S_def list_all_iff)
  ultimately have "holds_bucket key lim t S (entries_of (fold limiter_step reqs l0))"
    and "limiter_inv (fold limiter_step reqs l0)"
    using holds_run [of l0 key lim t S reqs] l0 assms(4) by (simp_all add: S_def)
  moreover from this(2) have "limiter_wf (fold limiter_step reqs l0)"
    by (simp add: limiter_inv_def)
  note get_spec_pair(3) [OF this, of b' later key]
  ultimately show ?thesis
    using holds_last [OF _ assms(5)] by (metis fst_conv)
qed

lemma active_bucket_survives_witness:
  "fst (get 9 7 ''a'' (fold limiter_step [(8, 6, ''b''), (8, 6, ''b'')]
     (snd (get (7::nat) 5 ''a'' (newKeyedRateLimiterWith 300 2 0))))) = 7"
proof -
  let ?l = "newKeyedRateLimiterWith 300 2 0 :: nat rate_limiter"
  have "get 7 5 ''a'' ?l = (7, snd (get 7 5 ''a'' ?l))"
    by code_simp
  moreover have "(\<lambda>(_, _, k). k) ` set [(8::nat, 6::int, ''b''), (8, 6, ''b'')] = {''b''}"
    by simp
  moreover have "rl_max ?l = 2"
    by code_simp
  ultimately show ?thesis
    using new_limiter_inv [of 300 2 0]
    by (intro active_bucket_survives [where l = ?l and b = 7 and t = 5]) (auto simp: limiterIdleTTL_def)
qed

end
