(* ===== verification/ClientIP.thy ===== *)
theory ClientIP
  imports NetAddr RateLimiter
begin

text \<open>
  Whose request it is: the client address behind trusted proxies
  (\<open>src/internal/middleware/clientip.go\<close>, \<open>src/config/trusted_proxy.go\<close>), the bucket an
  address belongs to, and the per-client rate limit that uses it
  (\<open>RateLimitMiddleware\<close> of \<open>src/internal/middleware/middleware.go\<close>).

  A request carries the address of its TCP peer and the two forwarded headers.
  The token bucket (\<open>golang.org/x/time/rate\<close>) is opaque; \<open>allow\<close> is its answer.
\<close>

section \<open>The trusted proxies\<close>

fun LoadTrustedProxies :: "go_string list \<Rightarrow> (go_string + ip_net list)" where
  "LoadTrustedProxies [] = Inr []"
| "LoadTrustedProxies (entry # raw) =
     (let entry = TrimSpace entry in
      if entry = [] then LoadTrustedProxies raw
      else case ParseCIDR entry of
        Some n \<Rightarrow> (case LoadTrustedProxies raw of Inl e \<Rightarrow> Inl e | Inr ns \<Rightarrow> Inr (n # ns))
      | None \<Rightarrow>
          (case ParseIP entry of
             None \<Rightarrow> Inl entry
           | Some ip \<Rightarrow>
               let (ip, bits) = (case To4 ip of Some v4 \<Rightarrow> (v4, 32) | None \<Rightarrow> (ip, 128)) in
               case LoadTrustedProxies raw of
                 Inl e \<Rightarrow> Inl e
               | Inr ns \<Rightarrow> Inr (\<lparr>net_ip = ip, net_mask = CIDRMask bits bits\<rparr> # ns)))"

text \<open>A resolver pointer: \<open>None\<close> is nil.\<close>

type_synonym resolver = "ip_net list option"

definition NewClientIPResolver :: "ip_net list \<Rightarrow> resolver" where
  "NewClientIPResolver nets = Some nets"

text \<open>What \<open>NewMiddleware\<close> builds from the configured list: nothing is trusted if any entry is bad.\<close>

definition configured_resolver :: "go_string list \<Rightarrow> resolver" where
  "configured_resolver raw =
     NewClientIPResolver (case LoadTrustedProxies raw of Inl _ \<Rightarrow> [] | Inr ns \<Rightarrow> ns)"

definition trusts :: "resolver \<Rightarrow> ip_addr \<Rightarrow> bool" where
  "trusts c ip \<longleftrightarrow> (case c of None \<Rightarrow> False | Some nets \<Rightarrow> list_ex (\<lambda>n. Contains n ip) nets)"

section \<open>The client's address\<close>

definition parseHost :: "go_string \<Rightarrow> ip_addr option" where
  "parseHost s = ParseIP (takeWhile (\<lambda>c. c \<noteq> CHR ''%'') (TrimSpace s))"

record net_request =
  nr_RemoteAddr :: go_string
  nr_forwarded :: "go_string list"
  nr_realIP :: go_string
  nr_path :: go_string

datatype hop_result = HopUnreadable | HopFound ip_addr | NoHops

text \<open>The walk from the proxy side; the list is the chain reversed.\<close>

fun walk_hops :: "resolver \<Rightarrow> go_string list \<Rightarrow> hop_result" where
  "walk_hops c [] = NoHops"
| "walk_hops c (h # hs) =
     (case parseHost h of
        None \<Rightarrow> HopUnreadable
      | Some ip \<Rightarrow>
          if \<not> trusts c ip then HopFound ip
          else if hs = [] then HopFound ip
          else walk_hops c hs)"

definition ClientIP :: "resolver \<Rightarrow> net_request \<Rightarrow> go_string" where
  "ClientIP c r =
     (let host = (case SplitHostPort (nr_RemoteAddr r) of Some h \<Rightarrow> h | None \<Rightarrow> nr_RemoteAddr r) in
      case parseHost host of
        None \<Rightarrow> host
      | Some peer \<Rightarrow>
          if \<not> trusts c peer then IP_String peer
          else
            case walk_hops c (rev (concat (map (split_on CHR '','') (nr_forwarded r)))) of
              HopUnreadable \<Rightarrow> IP_String peer
            | HopFound ip \<Rightarrow> IP_String ip
            | NoHops \<Rightarrow>
                (case parseHost (nr_realIP r) of
                   Some ip \<Rightarrow> IP_String ip
                 | None \<Rightarrow> IP_String peer))"

text \<open>The published resolver is an atomic pointer; \<open>published\<close> is its value.\<close>

definition SetClientIPResolver :: "resolver \<Rightarrow> resolver \<Rightarrow> resolver" where
  "SetClientIPResolver c published = c"

definition ExtractClientIP :: "resolver \<Rightarrow> net_request \<Rightarrow> go_string" where
  "ExtractClientIP published r = ClientIP published r"

section \<open>The bucket of an address\<close>

definition rateLimitKey :: "go_string \<Rightarrow> go_string" where
  "rateLimitKey ip =
     (case ParseIP ip of
        None \<Rightarrow> ip
      | Some parsed \<Rightarrow>
          (case To4 parsed of
             Some v4 \<Rightarrow> IP_String v4
           | None \<Rightarrow>
               (case IP_Mask parsed (CIDRMask 64 128) of
                  Some m \<Rightarrow> IP_String m | None \<Rightarrow> ''<nil>'') @ ''/64''))"

section \<open>The per-client rate limit\<close>

record 'b rate_state =
  rs_default :: "'b rate_limiter"
  rs_auth :: "'b rate_limiter"

definition configured_limit :: "int \<Rightarrow> int \<Rightarrow> int" where
  "configured_limit preset configured = (if configured \<le> 0 then preset else configured)"

definition new_rate_state :: "int \<Rightarrow> int \<Rightarrow> instant \<Rightarrow> 'b rate_state" where
  "new_rate_state default_conf auth_conf now =
     \<lparr>rs_default = newKeyedRateLimiterWith (configured_limit 300 default_conf) defaultLimiterMaxEntries now,
      rs_auth = newKeyedRateLimiterWith (configured_limit 5 auth_conf) defaultLimiterMaxEntries now\<rparr>"

definition isAuthEndpoint :: "go_string \<Rightarrow> bool" where
  "isAuthEndpoint path \<longleftrightarrow>
     has_suffix path ''/users/login'' \<or> has_suffix path ''/users/refresh'' \<or> has_suffix path ''/oauth2/token''"

datatype limit_reply = Served int | TooManyRequests int

text \<open>The reply carries the \<open>X-RateLimit-Limit\<close> header; \<open>Served\<close> calls the next handler.\<close>

definition RateLimitMiddleware ::
  "('b \<Rightarrow> bool) \<Rightarrow> 'b \<Rightarrow> instant \<Rightarrow> resolver \<Rightarrow> net_request \<Rightarrow> 'b rate_state \<Rightarrow> limit_reply \<times> 'b rate_state" where
  "RateLimitMiddleware allow fresh now c r st =
     (let key = rateLimitKey (ClientIP c r) in
      if isAuthEndpoint (nr_path r) then
        (let (lim, l) = get fresh now key (rs_auth st) in
         (if allow lim then Served (rl_burst (rs_auth st)) else TooManyRequests (rl_burst (rs_auth st)),
          st\<lparr>rs_auth := l\<rparr>))
      else
        (let (lim, l) = get fresh now key (rs_default st) in
         (if allow lim then Served (rl_burst (rs_default st)) else TooManyRequests (rl_burst (rs_default st)),
          st\<lparr>rs_default := l\<rparr>)))"

section \<open>Lemmas\<close>

definition peer_trusted :: "resolver \<Rightarrow> net_request \<Rightarrow> bool" where
  "peer_trusted c r \<longleftrightarrow>
     (case parseHost (case SplitHostPort (nr_RemoteAddr r) of Some h \<Rightarrow> h | None \<Rightarrow> nr_RemoteAddr r) of
        None \<Rightarrow> False | Some peer \<Rightarrow> trusts c peer)"

definition hop_trusted :: "resolver \<Rightarrow> go_string \<Rightarrow> bool" where
  "hop_trusted c h \<longleftrightarrow> (case parseHost h of None \<Rightarrow> False | Some ip \<Rightarrow> trusts c ip)"

lemma untrusted_peer_ignores_headers:
  "\<not> peer_trusted c r \<Longrightarrow> ClientIP c (r\<lparr>nr_forwarded := fs, nr_realIP := x\<rparr>) = ClientIP c r"
  by (auto simp: ClientIP_def peer_trusted_def Let_def split: option.splits)

lemma nil_resolver_trusts_nothing: "\<not> peer_trusted None r" "\<not> hop_trusted None h"
  by (auto simp: peer_trusted_def hop_trusted_def trusts_def split: option.splits)

lemma walk_stops:
  "list_ex (\<lambda>h. \<not> hop_trusted c h) hs \<Longrightarrow> walk_hops c (hs @ junk) = walk_hops c hs"
  by (induction hs) (auto simp: hop_trusted_def split: option.splits)

lemma bad_entry_trusts_nothing: "LoadTrustedProxies raw = Inl e \<Longrightarrow> \<not> peer_trusted (configured_resolver raw) r"
  by (auto simp: configured_resolver_def NewClientIPResolver_def peer_trusted_def trusts_def split: option.splits)

lemma and_ones: "length xs = n \<Longrightarrow> map2 (AND) xs (replicate n 0xFF) = (xs :: ip_addr)"
proof (induction xs arbitrary: n)
  case (Cons a xs)
  have "(0xFF :: 8 word) = - 1"
    by simp
  then have "a AND 0xFF = a"
    by (metis and.right_neutral)
  with Cons show ?case
    by (cases n) auto
qed simp

lemma and_zeros: "length xs = n \<Longrightarrow> map2 (AND) xs (replicate n 0) = replicate n (0 :: 8 word)"
  by (induction xs arbitrary: n) auto

lemma Mask_64:
  assumes "length ip = 16"
  shows "IP_Mask ip (CIDRMask 64 128) = Some (take 8 ip @ replicate 8 0)"
proof -
  have m: "CIDRMask 64 128 = replicate 8 0xFF @ replicate 8 0"
    by code_simp
  have "map2 (AND) (take 8 ip @ drop 8 ip) (replicate 8 0xFF @ replicate 8 0) = take 8 ip @ replicate 8 0"
    using assms and_ones [of "take 8 ip" 8] and_zeros [of "drop 8 ip" 8] by (simp del: append_take_drop_id)
  then show ?thesis
    using assms by (simp add: IP_Mask_def m)
qed

lemma rateLimitKey_v4:
  assumes "length ip = 16" "To4 ip = Some v4"
  shows "rateLimitKey (IP_String ip) = IP_String v4"
proof -
  have "ParseIP (IP_String ip) = Some ip"
    using ParseIP_String [of ip] assms(1) by (simp add: As16_def)
  with assms(2) show ?thesis
    by (simp add: rateLimitKey_def)
qed

lemma rateLimitKey_v6:
  assumes "length ip = 16" "To4 ip = None"
  shows "rateLimitKey (IP_String ip) = IP_String (take 8 ip @ replicate 8 0) @ ''/64''"
proof -
  have "ParseIP (IP_String ip) = Some ip"
    using ParseIP_String [of ip] assms(1) by (simp add: As16_def)
  with assms show ?thesis
    by (simp add: rateLimitKey_def Mask_64)
qed

lemma IP_String_inj:
  assumes "IP_String a = IP_String b" "length a = length b" "length a = 4 \<or> length a = 16"
  shows "a = b"
proof -
  have "As16 a = As16 b"
    using ParseIP_String [of a] ParseIP_String [of b] assms by simp
  with assms(2,3) show ?thesis
    by (auto simp: As16_def)
qed

lemma IP_String_no_slash: "length v4 = 4 \<Longrightarrow> CHR ''/'' \<notin> set (IP_String v4)"
proof -
  assume "length v4 = 4"
  then obtain a b c d where "v4 = [a, b, c, d]"
    by (rule length4)
  moreover have "CHR ''/'' \<notin> set (show_base 10 n)" for n
    using show_dec_val [of "CHR ''/''" n] by (auto simp: dec_val_def)
  ultimately show ?thesis
    by (simp add: IP_String_def To4_def join_str_Cons)
qed

text \<open>Two addresses in one block: the same IPv4 address, or IPv6 addresses of one /64.\<close>

definition same_block :: "ip_addr \<Rightarrow> ip_addr \<Rightarrow> bool" where
  "same_block a b \<longleftrightarrow>
     (case (To4 a, To4 b) of
        (Some x, Some y) \<Rightarrow> x = y
      | (None, None) \<Rightarrow> take 8 a = take 8 b
      | _ \<Rightarrow> False)"

lemma rateLimitKey_blocks:
  assumes "length a = 16" "length b = 16"
  shows "rateLimitKey (IP_String a) = rateLimitKey (IP_String b) \<longleftrightarrow> same_block a b"
proof (cases "To4 a"; cases "To4 b")
  assume n: "To4 a = None" "To4 b = None"
  have "IP_String (take 8 a @ replicate 8 0) = IP_String (take 8 b @ replicate 8 0) \<longleftrightarrow> take 8 a = take 8 b"
    using IP_String_inj [of "take 8 a @ replicate 8 0" "take 8 b @ replicate 8 0"] assms by auto
  with n show ?thesis
    using assms by (simp add: rateLimitKey_v6 same_block_def)
next
  fix x y
  assume s: "To4 a = Some x" "To4 b = Some y"
  have "IP_String x = IP_String y \<longleftrightarrow> x = y"
    using IP_String_inj [of x y] To4_Some_length [OF s(1)] To4_Some_length [OF s(2)] by auto
  with s show ?thesis
    using assms by (simp add: rateLimitKey_v4 same_block_def)
next
  fix x
  assume s: "To4 a = Some x" "To4 b = None"
  then show ?thesis
    using assms IP_String_no_slash [of x] To4_Some_length [OF s(1)]
    by (auto simp: rateLimitKey_v4 rateLimitKey_v6 same_block_def)
next
  fix y
  assume s: "To4 a = None" "To4 b = Some y"
  have "CHR ''/'' \<in> set (rateLimitKey (IP_String a))" "CHR ''/'' \<notin> set (rateLimitKey (IP_String b))"
    using assms s IP_String_no_slash [of y] To4_Some_length [OF s(2)]
    by (simp_all add: rateLimitKey_v4 rateLimitKey_v6)
  with s show ?thesis
    by (auto simp: same_block_def)
qed

section \<open>The address of a connection\<close>

text \<open>What \<open>net/http\<close> writes into \<open>RemoteAddr\<close> (\<open>net.JoinHostPort\<close>).\<close>

definition remote_addr :: "ip_addr \<Rightarrow> go_string \<Rightarrow> go_string" where
  "remote_addr ip port =
     (let h = IP_String ip in
      if CHR '':'' \<in> set h then ''['' @ h @ '']:'' @ port else h @ '':'' @ port)"

lemma IP_String_chars:
  assumes "length ip = 16" "c \<in> set (IP_String ip)"
  shows "c = CHR '':'' \<or> c = CHR ''.'' \<or> hex_val c \<noteq> None"
proof (cases "To4 ip")
  case None
  then show ?thesis
    using v6_chars assms by (auto simp: IP_String_def)
next
  case (Some v4)
  then obtain x y z w where v4: "v4 = [x, y, z, w]"
    using To4_Some_length length4 by metis
  have "hex_val d \<noteq> None" if "d \<in> set (show_base 10 n)" for d n
    using show_base_chars [of 10 d n] that by force
  then show ?thesis
    using assms(2) Some v4 by (auto simp: IP_String_def join_str_Cons)
qed

lemma IP_String_not_Nil: "length ip = 16 \<Longrightarrow> IP_String ip \<noteq> []"
  using ParseIP_String [of ip] by (auto simp: ParseIP_def ParseAddr_def)

definition addr_char :: "char \<Rightarrow> bool" where
  "addr_char c \<longleftrightarrow> c = CHR '':'' \<or> c = CHR ''.'' \<or> hex_val c \<noteq> None"

lemma drop_seqs_id:
  assumes "list_all (\<lambda>p. p \<noteq> [] \<and> \<not> addr_char (hd p)) ps" "s = [] \<or> addr_char (hd s)"
  shows "drop_seqs n ps s = s"
proof (cases n)
  case (Suc m)
  have "\<not> has_prefix s p" if "p \<in> set ps" for p
  proof -
    have "p \<noteq> []" "\<not> addr_char (hd p)"
      using that assms(1) by (auto simp: list_all_iff)
    with assms(2) show ?thesis
      by (cases p; cases s) auto
  qed
  then have "find (\<lambda>p. p \<noteq> [] \<and> has_prefix s p) ps = None"
    by (auto simp: find_None_iff)
  with Suc show ?thesis
    by simp
qed simp

lemma space_seqs_heads:
  "list_all (\<lambda>p. p \<noteq> [] \<and> \<not> addr_char (hd p)) space_seqs"
  "list_all (\<lambda>p. p \<noteq> [] \<and> \<not> addr_char (hd p)) (map rev space_seqs)"
  by code_simp+

lemma list_all_hd: "list_all P s \<Longrightarrow> s = [] \<or> P (hd s)"
  by (cases s) simp_all

lemma TrimSpace_addr:
  assumes "list_all addr_char s"
  shows "TrimSpace s = s"
proof -
  have "s = [] \<or> addr_char (hd s)" "rev s = [] \<or> addr_char (hd (rev s))"
    using list_all_hd [of addr_char s] list_all_hd [of addr_char "rev s"] assms by simp_all
  then show ?thesis
    by (simp only: TrimSpace_def Let_def drop_seqs_id [OF space_seqs_heads(1)] drop_seqs_id [OF space_seqs_heads(2)]
        rev_rev_ident)
qed

lemma parseHost_String:
  assumes "length ip = 16"
  shows "parseHost (IP_String ip) = Some ip"
proof -
  have ch: "list_all addr_char (IP_String ip)"
    using IP_String_chars [OF assms] by (auto simp: list_all_iff addr_char_def)
  have "\<not> addr_char CHR ''%''"
    by (simp add: addr_char_def)
  then have tw: "takeWhile (\<lambda>c. c \<noteq> CHR ''%'') (IP_String ip) = IP_String ip"
    using ch unfolding takeWhile_eq_all_conv list_all_iff by blast
  have "ParseIP (IP_String ip) = Some ip"
    using ParseIP_String [of ip] assms by (simp add: As16_def)
  then show ?thesis
    by (simp only: parseHost_def TrimSpace_addr [OF ch] tw)
qed

definition port_ok :: "go_string \<Rightarrow> bool" where
  "port_ok p \<longleftrightarrow> list_all (\<lambda>c. dec_val c \<noteq> None) p"

lemma last_colon:
  "CHR '':'' \<notin> set p \<Longrightarrow>
    length (h @ CHR '':'' # p) - 1 - length (takeWhile (\<lambda>c. c \<noteq> CHR '':'') (rev (h @ CHR '':'' # p))) = length h"
proof -
  assume "CHR '':'' \<notin> set p"
  then have "takeWhile (\<lambda>c. c \<noteq> CHR '':'') (rev p @ CHR '':'' # rev h) = rev p"
    by (subst takeWhile_append2) auto
  then show ?thesis
    by simp
qed

lemma SplitHostPort_remote:
  assumes "length ip = 16" "port_ok port"
  shows "SplitHostPort (remote_addr ip port) = Some (IP_String ip)"
proof -
  let ?h = "IP_String ip"
  have ch: "CHR ''['' \<notin> set ?h" "CHR '']'' \<notin> set ?h"
    using IP_String_chars [OF assms(1)] by (force simp: hex_val_def)+
  have p: "CHR '':'' \<notin> set port" "CHR ''['' \<notin> set port" "CHR '']'' \<notin> set port"
    using assms(2) by (auto simp: port_ok_def list_all_iff dec_val_def)
  show ?thesis
  proof (cases "CHR '':'' \<in> set ?h")
    case True
    have "index_str ((CHR ''['' # ?h) @ CHR '']'' # CHR '':'' # port) '']'' = Some (Suc (length ?h))"
      using index_str_one [of "CHR '']''" "CHR ''['' # ?h" "CHR '':'' # port"] ch by simp
    moreover have "length ((CHR ''['' # ?h @ '']'') @ CHR '':'' # port) - 1
        - length (takeWhile (\<lambda>c. c \<noteq> CHR '':'') (rev ((CHR ''['' # ?h @ '']'') @ CHR '':'' # port))) = length ?h + 2"
      using last_colon [OF p(1), of "CHR ''['' # ?h @ '']''"] by (simp del: rev.simps)
    ultimately show ?thesis
      using True ch p by (simp add: remote_addr_def SplitHostPort_def Let_def)
  next
    case False
    moreover have "hd (?h @ CHR '':'' # port) \<noteq> CHR ''[''"
      using ch IP_String_not_Nil [OF assms(1)] by (cases ?h) auto
    ultimately show ?thesis
      using ch p last_colon [OF p(1), of ?h] by (simp add: remote_addr_def SplitHostPort_def Let_def)
  qed
qed

lemma ClientIP_untrusted:
  assumes "length ip = 16" "port_ok port" "\<not> trusts c ip"
  shows "ClientIP c (r\<lparr>nr_RemoteAddr := remote_addr ip port\<rparr>) = IP_String ip"
  using assms by (simp add: ClientIP_def SplitHostPort_remote parseHost_String)

lemma forged_hops_ignored:
  assumes "list_ex (\<lambda>h. \<not> hop_trusted c h) (split_on CHR '','' chain)"
  shows "ClientIP c (r\<lparr>nr_forwarded := forged @ [chain], nr_realIP := x\<rparr>)
        = ClientIP c (r\<lparr>nr_forwarded := [chain], nr_realIP := y\<rparr>)
    \<and> ClientIP c (r\<lparr>nr_forwarded := [f @ '','' @ chain], nr_realIP := x\<rparr>)
        = ClientIP c (r\<lparr>nr_forwarded := [chain], nr_realIP := y\<rparr>)"
proof (cases "peer_trusted c r")
  case False
  then show ?thesis
    by (simp add: untrusted_peer_ignores_headers)
next
  case True
  let ?hs = "rev (split_on CHR '','' chain)"
  have ex: "list_ex (\<lambda>h. \<not> hop_trusted c h) ?hs"
    using assms by simp
  have "walk_hops c hs \<noteq> NoHops" if "hs \<noteq> []" for hs
    using that by (induction hs) (auto split: option.splits)
  then have some: "walk_hops c ?hs \<noteq> NoHops"
    by simp
  have split: "split_on CHR '','' (f @ CHR '','' # chain) = split_on CHR '','' f @ split_on CHR '','' chain"
    by (induction f) (auto split: list.splits)
  have "walk_hops c (rev (concat (map (split_on CHR '','') (forged @ [chain])))) = walk_hops c ?hs"
    "walk_hops c (rev (concat (map (split_on CHR '','') [f @ CHR '','' # chain]))) = walk_hops c ?hs"
    using walk_stops [OF ex] by (simp_all add: split)
  with some show ?thesis
    unfolding ClientIP_def by (auto simp: Let_def split: option.splits hop_result.splits)
qed

section \<open>Properties\<close>

text \<open>C14: forwarded headers cannot be forged.  A peer that is not a trusted proxy is known by its own
  address, whatever headers it sends.  From a trusted proxy, whatever stands before the part of the
  chain that holds an untrusted or unreadable hop changes nothing, whether it came as a header of its
  own or in the same header.\<close>

theorem forged_headers_ignored:
  assumes "length ip = 16" and "port_ok port"
  shows "(\<not> trusts c ip \<longrightarrow> ClientIP c (r\<lparr>nr_RemoteAddr := remote_addr ip port\<rparr>) = IP_String ip)
    \<and> (list_ex (\<lambda>h. \<not> hop_trusted c h) (split_on CHR '','' chain) \<longrightarrow>
        ClientIP c (r\<lparr>nr_forwarded := forged @ [chain], nr_realIP := x\<rparr>)
          = ClientIP c (r\<lparr>nr_forwarded := [chain], nr_realIP := y\<rparr>)
        \<and> ClientIP c (r\<lparr>nr_forwarded := [f @ '','' @ chain], nr_realIP := x\<rparr>)
          = ClientIP c (r\<lparr>nr_forwarded := [chain], nr_realIP := y\<rparr>))"
  using ClientIP_untrusted [OF assms] forged_hops_ignored [where c = c and chain = chain and r = r
    and forged = forged and x = x and y = y and f = f] by blast

lemma forged_headers_ignored_witness:
  "let c = Some [\<lparr>net_ip = [10, 0, 0, 0], net_mask = [255, 0, 0, 0]\<rparr>];
       r = \<lparr>nr_RemoteAddr = remote_addr (As16 [10, 0, 0, 2]) ''1'', nr_forwarded = [''9.9.9.9''],
            nr_realIP = ''8.8.8.8'', nr_path = []\<rparr>;
       client = As16 [198, 51, 100, 1] in
   ClientIP c (r\<lparr>nr_RemoteAddr := remote_addr client ''1''\<rparr>) = IP_String client
   \<and> ClientIP c (r\<lparr>nr_forwarded := [''9.9.9.9'', IP_String client], nr_realIP := ''8.8.8.8''\<rparr>)
     = ClientIP c (r\<lparr>nr_forwarded := [IP_String client], nr_realIP := []\<rparr>)"
proof -
  let ?c = "Some [\<lparr>net_ip = [10, 0, 0, 0], net_mask = [255, 0, 0, 0]\<rparr>]" and ?ip = "As16 [198, 51, 100, 1]"
  have len: "length ?ip = 16" and port: "port_ok ''1''"
    by (simp_all add: As16_def v4InV6Prefix_def port_ok_def dec_val_def)
  have out: "\<not> trusts ?c ?ip"
    by (simp add: trusts_def Contains_def networkNumberAndMask_def To4_def As16_def v4InV6Prefix_def)
  then have "\<not> hop_trusted ?c (IP_String ?ip)"
    by (simp add: hop_trusted_def parseHost_String [OF len])
  moreover have "CHR '','' \<notin> set (IP_String ?ip)"
    using IP_String_chars [OF len, of "CHR '',''"] by (auto simp: hex_val_def)
  ultimately have hop: "list_ex (\<lambda>h. \<not> hop_trusted ?c h) (split_on CHR '','' (IP_String ?ip))"
    by (simp add: split_on_no_sep)
  have "ClientIP ?c (r\<lparr>nr_RemoteAddr := remote_addr ?ip ''1''\<rparr>) = IP_String ?ip
    \<and> ClientIP ?c (r\<lparr>nr_forwarded := [''9.9.9.9''] @ [IP_String ?ip], nr_realIP := ''8.8.8.8''\<rparr>)
      = ClientIP ?c (r\<lparr>nr_forwarded := [IP_String ?ip], nr_realIP := []\<rparr>)" for r
    using forged_headers_ignored [OF len port, where c = ?c and r = r and chain = "IP_String ?ip"
        and forged = "[''9.9.9.9'']" and x = "''8.8.8.8''" and y = "[]"] out hop
    by blast
  from this [of "\<lparr>nr_RemoteAddr = remote_addr (As16 [10, 0, 0, 2]) ''1'', nr_forwarded = [''9.9.9.9''],
      nr_realIP = ''8.8.8.8'', nr_path = []\<rparr>"]
  show ?thesis
    unfolding Let_def by simp
qed

text \<open>The buckets are exactly the IPv4 addresses and the IPv6 /64 blocks: two addresses, printed as
  the resolver prints them, have the same key iff they lie in one block.\<close>

theorem rateLimitKey_classes:
  assumes "ParseIP s = Some a" "ParseIP t = Some b"
  shows "rateLimitKey (IP_String a) = rateLimitKey (IP_String b) \<longleftrightarrow> same_block a b"
  using assms by (intro rateLimitKey_blocks ParseIP_length)

lemma rateLimitKey_classes_witness:
  "rateLimitKey (IP_String [32, 1, 13, 184, 0, 1, 0, 2, 0, 10, 0, 0, 0, 0, 0, 13])
     = rateLimitKey (IP_String [32, 1, 13, 184, 0, 1, 0, 2, 0, 0, 0, 0, 0, 0, 0, 1])"
proof -
  let ?a = "[32, 1, 13, 184, 0, 1, 0, 2, 0, 10, 0, 0, 0, 0, 0, 13] :: ip_addr"
    and ?b = "[32, 1, 13, 184, 0, 1, 0, 2, 0, 0, 0, 0, 0, 0, 0, 1] :: ip_addr"
  have p: "ParseIP (IP_String ?a) = Some ?a" "ParseIP (IP_String ?b) = Some ?b"
    using ParseIP_String [of ?a] ParseIP_String [of ?b] by (simp_all add: As16_def)
  have "same_block ?a ?b"
    by (simp add: same_block_def To4_def v4InV6Prefix_def)
  with rateLimitKey_classes [OF p] show ?thesis
    by (rule iffD2)
qed

text \<open>C13: one client, one bucket.  A client that no proxy speaks for spends from the same bucket
  whatever address of its block, source port and forwarded headers it uses: the limiter takes the
  same step and gives the same answer.\<close>

theorem one_bucket_per_client:
  assumes "length a = 16" "length b = 16" "same_block a b" "\<not> trusts c a" "\<not> trusts c b"
    and "port_ok p" "port_ok q"
  shows "RateLimitMiddleware allow fresh now c
      \<lparr>nr_RemoteAddr = remote_addr a p, nr_forwarded = f, nr_realIP = x, nr_path = path\<rparr> st
    = RateLimitMiddleware allow fresh now c
      \<lparr>nr_RemoteAddr = remote_addr b q, nr_forwarded = g, nr_realIP = y, nr_path = path\<rparr> st"
proof -
  have "ClientIP c \<lparr>nr_RemoteAddr = remote_addr ip p, nr_forwarded = f, nr_realIP = x, nr_path = path\<rparr> = IP_String ip"
    if "length ip = 16" "port_ok p" "\<not> trusts c ip" for ip p f x
    using ClientIP_untrusted [OF that, of "\<lparr>nr_RemoteAddr = [], nr_forwarded = f, nr_realIP = x, nr_path = path\<rparr>"]
    by simp
  moreover have "rateLimitKey (IP_String a) = rateLimitKey (IP_String b)"
    using assms(1-3) by (simp add: rateLimitKey_blocks)
  ultimately show ?thesis
    using assms by (simp add: RateLimitMiddleware_def)
qed

lemma one_bucket_per_client_witness:
  "let a = [32, 1, 13, 184, 0, 1, 0, 2, 0, 10, 0, 0, 0, 0, 0, 13]; b = [32, 1, 13, 184, 0, 1, 0, 2, 0, 0, 0, 0, 0, 0, 0, 1];
     st = new_rate_state 60 2 0 in
   RateLimitMiddleware (\<lambda>n::nat. n < 3) 0 5 None
      \<lparr>nr_RemoteAddr = remote_addr a ''1'', nr_forwarded = [], nr_realIP = [], nr_path = ''/api/v1/users/login''\<rparr> st
    = RateLimitMiddleware (\<lambda>n. n < 3) 0 5 None
      \<lparr>nr_RemoteAddr = remote_addr b ''2'', nr_forwarded = [''1.1.1.1''], nr_realIP = [], nr_path = ''/api/v1/users/login''\<rparr> st"
proof -
  let ?a = "[32, 1, 13, 184, 0, 1, 0, 2, 0, 10, 0, 0, 0, 0, 0, 13] :: ip_addr"
    and ?b = "[32, 1, 13, 184, 0, 1, 0, 2, 0, 0, 0, 0, 0, 0, 0, 1] :: ip_addr"
  have "length ?a = 16" "length ?b = 16" "same_block ?a ?b" "\<not> trusts None ?a" "\<not> trusts None ?b"
    "port_ok ''1''" "port_ok ''2''"
    by (simp_all add: same_block_def To4_def v4InV6Prefix_def trusts_def port_ok_def dec_val_def)
  then show ?thesis
    unfolding Let_def by (rule one_bucket_per_client)
qed

end
