(* ===== verification/VaultRepository.thy ===== *)
theory VaultRepository
  imports Prelude
begin

text \<open>
  Vault rows and the rules for their names and tags (\<open>src/model/vault.go\<close>), the table
  \<open>vaults\<close> (\<open>src/internal/repositories/vault_repository.go\<close>) and the provisioning grants
  (\<open>src/model/vault_provisioning_grant.go\<close>,
  \<open>src/internal/repositories/vault_provisioning_grant_repository.go\<close>).

  Id and name are unique in the table, soft-deleted rows included.  The tag map
  is an association list; its JSON form is taken to keep it.
\<close>

section \<open>Names and tags\<close>

definition DefaultVaultName :: go_string where "DefaultVaultName = ''default''"

definition name_alnum :: "char \<Rightarrow> bool" where
  "name_alnum c \<longleftrightarrow> (let n = of_char c :: nat in 97 \<le> n \<and> n \<le> 122 \<or> 48 \<le> n \<and> n \<le> 57)"

text \<open>The regular expression: 3 to 63 lowercase alphanumerics or hyphens, none at either end.\<close>

definition ValidateVaultName :: "go_string \<Rightarrow> bool" where
  "ValidateVaultName s \<longleftrightarrow>
     3 \<le> length s \<and> length s \<le> 63 \<and> list_all (\<lambda>c. name_alnum c \<or> c = CHR ''-'') s
     \<and> name_alnum (hd s) \<and> name_alnum (last s)"

definition reservedVaultNames :: "go_string list" where
  "reservedVaultNames = [''login'', ''health'', ''refresh'', ''register'']"

datatype name_error = InvalidVaultName | ErrReservedVaultName

definition ValidateNewVaultName :: "go_string \<Rightarrow> name_error option" where
  "ValidateNewVaultName s =
     (if \<not> ValidateVaultName s then Some InvalidVaultName
      else if s \<in> set reservedVaultNames then Some ErrReservedVaultName
      else None)"

type_synonym tag_map = "(go_string \<times> go_string) list"

definition ValidateVaultTags :: "tag_map \<Rightarrow> bool" where
  "ValidateVaultTags tags \<longleftrightarrow>
     length tags \<le> 15
     \<and> list_all (\<lambda>(k, x). k \<noteq> [] \<and> x \<noteq> [] \<and> length k \<le> 256 \<and> length x \<le> 256) tags"

section \<open>Rows\<close>

record vault =
  v_id :: uuid
  v_name :: go_string
  v_enabled :: bool
  v_purge_protection :: bool
  v_retention_days :: int
  v_created_by :: uuid
  v_created :: instant
  v_deleted :: "instant option"
  v_scheduled :: "instant option"
  v_tags :: tag_map
  v_updated :: "instant option"
  v_updated_by :: "uuid option"

text \<open>\<open>Clone\<close> copies every field; values do not share.\<close>

definition Clone :: "vault \<Rightarrow> vault" where
  "Clone v =
     \<lparr>v_id = v_id v, v_name = v_name v, v_enabled = v_enabled v, v_purge_protection = v_purge_protection v,
      v_retention_days = v_retention_days v, v_created_by = v_created_by v, v_created = v_created v,
      v_deleted = v_deleted v, v_scheduled = v_scheduled v, v_tags = v_tags v, v_updated = v_updated v,
      v_updated_by = v_updated_by v\<rparr>"

lemma Clone_id [simp]: "Clone v = v"
  by (simp add: Clone_def)

record create_vault_request =
  cr_name :: go_string
  cr_enabled :: "bool option"
  cr_purge_protection :: "bool option"
  cr_retention_days :: "int option"
  cr_tags :: tag_map

record update_vault_request =
  ur_enabled :: "bool option"
  ur_purge_protection :: "bool option"
  ur_retention_days :: "int option"
  ur_tags :: "tag_map option"

section \<open>The table\<close>

type_synonym vault_table = "vault list"

datatype vault_row_stmt =
    VaultInsert | VaultReadName | VaultReadId | VaultCount | VaultList | VaultListDeleted
  | VaultUpdate | VaultSoftDelete | VaultRecover | VaultPurge

datatype repo_error = RepoDbError | RepoNotFound | RepoDuplicate

definition vault_create ::
  "(vault_row_stmt \<Rightarrow> bool) \<Rightarrow> vault \<Rightarrow> vault_table \<Rightarrow> repo_error option \<times> vault_table" where
  "vault_create fails v tbl =
     (if fails VaultInsert then (Some RepoDbError, tbl)
      else if v_id v \<in> v_id ` set tbl \<or> v_name v \<in> v_name ` set tbl then (Some RepoDuplicate, tbl)
      else (None, tbl @ [v\<lparr>v_deleted := None, v_scheduled := None, v_updated := None, v_updated_by := None\<rparr>]))"

definition ReadByName :: "(vault_row_stmt \<Rightarrow> bool) \<Rightarrow> go_string \<Rightarrow> vault_table \<Rightarrow> repo_error + vault" where
  "ReadByName fails name tbl =
     (if fails VaultReadName then Inl RepoDbError
      else case find (\<lambda>v. v_name v = name \<and> v_deleted v = None) tbl of
             None \<Rightarrow> Inl RepoNotFound | Some v \<Rightarrow> Inr v)"

definition ReadByID :: "(vault_row_stmt \<Rightarrow> bool) \<Rightarrow> uuid \<Rightarrow> vault_table \<Rightarrow> repo_error + vault" where
  "ReadByID fails i tbl =
     (if fails VaultReadId then Inl RepoDbError
      else case find (\<lambda>v. v_id v = i) tbl of None \<Rightarrow> Inl RepoNotFound | Some v \<Rightarrow> Inr v)"

definition CountByCreatedBy :: "(vault_row_stmt \<Rightarrow> bool) \<Rightarrow> uuid \<Rightarrow> vault_table \<Rightarrow> repo_error + int" where
  "CountByCreatedBy fails p tbl =
     (if fails VaultCount then Inl RepoDbError
      else Inr (int (length (filter (\<lambda>v. v_created_by v = p) tbl))))"

definition by_name :: "vault list \<Rightarrow> vault list" where
  "by_name vs = sort_key v_name vs"

definition vault_list :: "(vault_row_stmt \<Rightarrow> bool) \<Rightarrow> vault_table \<Rightarrow> repo_error + vault list" where
  "vault_list fails tbl =
     (if fails VaultList then Inl RepoDbError else Inr (by_name (filter (\<lambda>v. v_deleted v = None) tbl)))"

definition ListDeleted :: "(vault_row_stmt \<Rightarrow> bool) \<Rightarrow> vault_table \<Rightarrow> repo_error + vault list" where
  "ListDeleted fails tbl =
     (if fails VaultListDeleted then Inl RepoDbError
      else Inr (by_name (filter (\<lambda>v. v_deleted v \<noteq> None) tbl)))"

definition set_rows :: "(vault \<Rightarrow> bool) \<Rightarrow> (vault \<Rightarrow> vault) \<Rightarrow> vault_table \<Rightarrow> vault_table" where
  "set_rows P f tbl = map (\<lambda>v. if P v then f v else v) tbl"

text \<open>\<open>Update\<close> also stamps the caller's vault with the time of the update.\<close>

definition vault_update ::
  "(vault_row_stmt \<Rightarrow> bool) \<Rightarrow> instant \<Rightarrow> vault \<Rightarrow> vault_table \<Rightarrow> repo_error option \<times> vault \<times> vault_table" where
  "vault_update fails now v tbl =
     (let v = v\<lparr>v_updated := Some now\<rparr>;
          who = (case v_updated_by v of None \<Rightarrow> None | Some u \<Rightarrow> if u = uuid_nil then None else Some u) in
      if fails VaultUpdate then (Some RepoDbError, v, tbl)
      else (None, v, set_rows (\<lambda>x. v_id x = v_id v)
        (\<lambda>x. x\<lparr>v_enabled := v_enabled v, v_purge_protection := v_purge_protection v,
              v_retention_days := v_retention_days v, v_tags := v_tags v,
              v_updated := Some now, v_updated_by := who\<rparr>) tbl))"

definition vault_soft_delete ::
  "(vault_row_stmt \<Rightarrow> bool) \<Rightarrow> instant \<Rightarrow> uuid \<Rightarrow> vault_table \<Rightarrow> repo_error option \<times> vault_table" where
  "vault_soft_delete fails now i tbl =
     (if fails VaultSoftDelete then (Some RepoDbError, tbl)
      else (None, set_rows (\<lambda>v. v_id v = i \<and> v_deleted v = None) (\<lambda>v. v\<lparr>v_deleted := Some now\<rparr>) tbl))"

definition vault_recover ::
  "(vault_row_stmt \<Rightarrow> bool) \<Rightarrow> uuid \<Rightarrow> vault_table \<Rightarrow> repo_error option \<times> vault_table" where
  "vault_recover fails i tbl =
     (if fails VaultRecover then (Some RepoDbError, tbl)
      else (None, set_rows (\<lambda>v. v_id v = i \<and> v_deleted v \<noteq> None)
                    (\<lambda>v. v\<lparr>v_deleted := None, v_scheduled := None\<rparr>) tbl))"

definition vault_purge ::
  "(vault_row_stmt \<Rightarrow> bool) \<Rightarrow> uuid \<Rightarrow> vault_table \<Rightarrow> repo_error option \<times> vault_table" where
  "vault_purge fails i tbl =
     (if fails VaultPurge then (Some RepoDbError, tbl) else (None, filter (\<lambda>v. v_id v \<noteq> i) tbl))"

section \<open>Provisioning grants\<close>

record provisioning_grant =
  pg_id :: uuid
  pg_principal :: uuid
  pg_quota :: int
  pg_created :: instant
  pg_created_by :: uuid

datatype grant_error = ErrInvalidPrincipal | ErrInvalidQuota

definition grant_Validate :: "provisioning_grant \<Rightarrow> grant_error option" where
  "grant_Validate g =
     (if pg_principal g = uuid_nil then Some ErrInvalidPrincipal
      else if pg_quota g \<le> 0 then Some ErrInvalidQuota else None)"

text \<open>The table of grants by principal, which is unique in it.\<close>

type_synonym grant_table = "uuid \<Rightarrow> provisioning_grant option"

datatype grant_stmt = GrantUpsert | GrantGet | GrantDelete | GrantList | GrantLock | GrantQuota

definition grant_upsert ::
  "(grant_stmt \<Rightarrow> bool) \<Rightarrow> instant \<Rightarrow> provisioning_grant \<Rightarrow> grant_table \<Rightarrow> repo_error option \<times> grant_table" where
  "grant_upsert fails now g tbl =
     (let g = (if pg_created g = 0 then g\<lparr>pg_created := now\<rparr> else g) in
      if fails GrantUpsert then (Some RepoDbError, tbl)
      else (None, tbl(pg_principal g := Some (case tbl (pg_principal g) of
                        None \<Rightarrow> g | Some old \<Rightarrow> old\<lparr>pg_quota := pg_quota g\<rparr>))))"

definition GetByPrincipal ::
  "(grant_stmt \<Rightarrow> bool) \<Rightarrow> uuid \<Rightarrow> grant_table \<Rightarrow> repo_error + provisioning_grant" where
  "GetByPrincipal fails p tbl =
     (if fails GrantGet then Inl RepoDbError
      else case tbl p of None \<Rightarrow> Inl RepoNotFound | Some g \<Rightarrow> Inr g)"

definition grant_delete :: "(grant_stmt \<Rightarrow> bool) \<Rightarrow> uuid \<Rightarrow> grant_table \<Rightarrow> repo_error option \<times> grant_table" where
  "grant_delete fails p tbl =
     (if fails GrantDelete then (Some RepoDbError, tbl) else (None, tbl(p := None)))"

text \<open>The lock is a no-op update: it changes no column.\<close>

definition LockAndReadQuotaTx :: "(grant_stmt \<Rightarrow> bool) \<Rightarrow> uuid \<Rightarrow> grant_table \<Rightarrow> repo_error + int" where
  "LockAndReadQuotaTx fails p tbl =
     (if fails GrantLock then Inl RepoDbError
      else if fails GrantQuota then Inl RepoDbError
      else case tbl p of None \<Rightarrow> Inl RepoNotFound | Some g \<Rightarrow> Inr (pg_quota g))"

section \<open>Lemmas\<close>

definition vaults_wf :: "vault_table \<Rightarrow> bool" where
  "vaults_wf tbl \<longleftrightarrow> distinct (map v_id tbl) \<and> distinct (map v_name tbl)"

lemma vaults_wf_inj:
  assumes "vaults_wf tbl" "v \<in> set tbl" "w \<in> set tbl"
  shows "v_id v = v_id w \<longleftrightarrow> v = w" "v_name v = v_name w \<longleftrightarrow> v = w"
  using assms by (auto simp: vaults_wf_def distinct_map dest: inj_onD)

lemma set_rows_keys [simp]:
  "(\<And>v. v_id (f v) = v_id v) \<Longrightarrow> map v_id (set_rows P f tbl) = map v_id tbl"
  "(\<And>v. v_name (f v) = v_name v) \<Longrightarrow> map v_name (set_rows P f tbl) = map v_name tbl"
  by (simp_all add: set_rows_def comp_def if_distrib)

lemma vaults_wf_filter: "vaults_wf tbl \<Longrightarrow> vaults_wf (filter P tbl)"
  by (simp add: vaults_wf_def distinct_map_filter)

lemma vaults_wf_set_rows:
  "vaults_wf tbl \<Longrightarrow> (\<And>v. v_id (f v) = v_id v) \<Longrightarrow> (\<And>v. v_name (f v) = v_name v) \<Longrightarrow> vaults_wf (set_rows P f tbl)"
  by (simp add: vaults_wf_def)

lemma set_by_name [simp]: "set (by_name vs) = set vs"
  by (simp add: by_name_def)

end
