(* ===== verification/ItemLifecycle.thy ===== *)
theory ItemLifecycle
  imports Prelude
begin

text \<open>
  Soft deletion, recovery, purge and purge protection of secrets, keys and
  certificates, one by one and for a whole vault
  (\<open>src/internal/repositories/item_lifecycle.go\<close>, with the configurations of the three
  repositories).

  A table is its rows with the rows of its tag table and, for certificates, of
  its version table.  Columns the lifecycle does not touch are \<open>it_body\<close>.  The
  database may refuse any statement; a transaction that fails leaves the table
  as it was.  Log lines are left out.
\<close>

section \<open>Tables\<close>

datatype item_kind = Secrets | Keys | Certificates

record 'b item_row =
  it_id :: uuid
  it_vault :: uuid
  it_deleted :: "instant option"
  it_scheduled :: "instant option"
  it_protected :: bool
  it_body :: 'b

record 'b item_table =
  tb_rows :: "'b item_row list"
  tb_tags :: "(uuid \<times> go_string) list"
  tb_versions :: "(uuid \<times> go_string) list"

text \<open>Of \<open>itemLifecycleConfig\<close>: whether there is a version table to clear, and whether a missing row is the
  shared sentinel.\<close>

record lifecycle_config =
  cfg_kind :: item_kind
  cfg_versions :: bool
  cfg_sentinel :: bool

definition crud :: "item_kind \<Rightarrow> lifecycle_config" where
  "crud k = \<lparr>cfg_kind = k, cfg_versions = (k = Certificates), cfg_sentinel = (k = Secrets)\<rparr>"

datatype item_stmt =
    ItUpdate | ItStatus | ItBegin | ItTags | ItVersions | ItDelete | ItCommit | ItProtected

datatype item_error =
    ItemDbError | NotFoundOrDeleted | NotInDeletedState | ItemMissing | ErrNotFound
  | NotSoftDeleted | ErrPurgeProtected item_kind

type_synonym 'a item_result = "item_error option \<times> 'a"

text \<open>\<open>UPDATE ... WHERE\<close> with the number of rows affected.\<close>

definition update_rows :: "('b item_row \<Rightarrow> bool) \<Rightarrow> ('b item_row \<Rightarrow> 'b item_row) \<Rightarrow> 'b item_table \<Rightarrow> 'b item_table" where
  "update_rows P f t = t\<lparr>tb_rows := map (\<lambda>r. if P r then f r else r) (tb_rows t)\<rparr>"

definition rows_affected :: "('b item_row \<Rightarrow> bool) \<Rightarrow> 'b item_table \<Rightarrow> nat" where
  "rows_affected P t = length (filter P (tb_rows t))"

definition revive :: "'b item_row \<Rightarrow> 'b item_row" where
  "revive r = r\<lparr>it_deleted := None, it_scheduled := None\<rparr>"

section \<open>One item\<close>

definition softDeleteItem ::
  "(item_stmt \<Rightarrow> bool) \<Rightarrow> instant \<Rightarrow> uuid \<Rightarrow> 'b item_table \<Rightarrow> 'b item_table item_result" where
  "softDeleteItem fails now i t =
     (let P = (\<lambda>r. it_id r = i \<and> it_deleted r = None) in
      if fails ItUpdate then (Some ItemDbError, t)
      else if rows_affected P t = 0 then (Some NotFoundOrDeleted, t)
      else (None, update_rows P (\<lambda>r. r\<lparr>it_deleted := Some now\<rparr>) t))"

definition recoverItem :: "(item_stmt \<Rightarrow> bool) \<Rightarrow> uuid \<Rightarrow> 'b item_table \<Rightarrow> 'b item_table item_result" where
  "recoverItem fails i t =
     (let P = (\<lambda>r. it_id r = i \<and> it_deleted r \<noteq> None) in
      if fails ItUpdate then (Some ItemDbError, t)
      else if rows_affected P t = 0 then (Some NotInDeletedState, t)
      else (None, update_rows P revive t))"

definition deleteItemVersions ::
  "(item_stmt \<Rightarrow> bool) \<Rightarrow> lifecycle_config \<Rightarrow> uuid \<Rightarrow> 'b item_table \<Rightarrow> 'b item_table item_result" where
  "deleteItemVersions fails cfg i t =
     (if \<not> cfg_versions cfg then (None, t)
      else if fails ItVersions then (Some ItemDbError, t)
      else (None, t\<lparr>tb_versions := filter (\<lambda>v. fst v \<noteq> i) (tb_versions t)\<rparr>))"

text \<open>The transaction shared by purge and hard delete: tags, versions, the row.\<close>

definition delete_item_tx ::
  "(item_stmt \<Rightarrow> bool) \<Rightarrow> lifecycle_config \<Rightarrow> uuid \<Rightarrow> 'b item_table \<Rightarrow> 'b item_table item_result" where
  "delete_item_tx fails cfg i t =
     (if fails ItBegin \<or> fails ItTags then (Some ItemDbError, t)
      else
        case deleteItemVersions fails cfg i (t\<lparr>tb_tags := filter (\<lambda>x. fst x \<noteq> i) (tb_tags t)\<rparr>) of
          (Some e, _) \<Rightarrow> (Some e, t)
        | (None, t1) \<Rightarrow>
            if fails ItDelete then (Some ItemDbError, t)
            else if rows_affected (\<lambda>r. it_id r = i) t1 = 0 then (Some ItemMissing, t)
            else if fails ItCommit then (Some ItemDbError, t)
            else (None, t1\<lparr>tb_rows := filter (\<lambda>r. it_id r \<noteq> i) (tb_rows t1)\<rparr>))"

text \<open>\<open>purgeItem\<close> reads the status of the row before it begins the transaction.\<close>

definition purge_status ::
  "(item_stmt \<Rightarrow> bool) \<Rightarrow> lifecycle_config \<Rightarrow> uuid \<Rightarrow> 'b item_table \<Rightarrow> item_error option" where
  "purge_status fails cfg i t =
     (if fails ItStatus then Some ItemDbError
      else case find (\<lambda>r. it_id r = i) (tb_rows t) of
        None \<Rightarrow> Some ItemMissing
      | Some r \<Rightarrow>
          if it_deleted r = None then Some NotSoftDeleted
          else if it_protected r then Some (ErrPurgeProtected (cfg_kind cfg))
          else None)"

definition purgeItem ::
  "(item_stmt \<Rightarrow> bool) \<Rightarrow> lifecycle_config \<Rightarrow> uuid \<Rightarrow> 'b item_table \<Rightarrow> 'b item_table item_result" where
  "purgeItem fails cfg i t =
     (case purge_status fails cfg i t of
        Some e \<Rightarrow> (Some e, t)
      | None \<Rightarrow> delete_item_tx fails cfg i t)"

definition setPurgeProtectionItem ::
  "(item_stmt \<Rightarrow> bool) \<Rightarrow> lifecycle_config \<Rightarrow> uuid \<Rightarrow> bool \<Rightarrow> 'b item_table \<Rightarrow> 'b item_table item_result" where
  "setPurgeProtectionItem fails cfg i enabled t =
     (let P = (\<lambda>r. it_id r = i) in
      if fails ItUpdate then (Some ItemDbError, t)
      else if rows_affected P t = 0 then (Some (if cfg_sentinel cfg then ErrNotFound else ItemMissing), t)
      else (None, update_rows P (\<lambda>r. r\<lparr>it_protected := enabled\<rparr>) t))"

definition deleteItemWithTags ::
  "(item_stmt \<Rightarrow> bool) \<Rightarrow> lifecycle_config \<Rightarrow> uuid \<Rightarrow> 'b item_table \<Rightarrow> 'b item_table item_result" where
  "deleteItemWithTags fails cfg i t = delete_item_tx fails cfg i t"

section \<open>The contents of a vault\<close>

text \<open>\<open>stamp\<close> is the precision of the database: what it stores for an instant.\<close>

definition softDeleteVaultContents ::
  "(item_stmt \<Rightarrow> bool) \<Rightarrow> (instant \<Rightarrow> instant) \<Rightarrow> uuid \<Rightarrow> instant \<Rightarrow> 'b item_table \<Rightarrow> 'b item_table item_result" where
  "softDeleteVaultContents fails stamp v deletedAt t =
     (if fails ItUpdate then (Some ItemDbError, t)
      else (None, update_rows (\<lambda>r. it_vault r = v \<and> it_deleted r = None)
                    (\<lambda>r. r\<lparr>it_deleted := Some (stamp deletedAt)\<rparr>) t))"

definition recoverVaultContents ::
  "(item_stmt \<Rightarrow> bool) \<Rightarrow> (instant \<Rightarrow> instant) \<Rightarrow> uuid \<Rightarrow> instant \<Rightarrow> 'b item_table \<Rightarrow> 'b item_table item_result" where
  "recoverVaultContents fails stamp v deletedAt t =
     (if fails ItUpdate then (Some ItemDbError, t)
      else (None, update_rows (\<lambda>r. it_vault r = v \<and> it_deleted r = Some (stamp deletedAt)) revive t))"

definition ids_of_vault :: "uuid \<Rightarrow> 'b item_table \<Rightarrow> uuid set" where
  "ids_of_vault v t = it_id ` set (filter (\<lambda>r. it_vault r = v) (tb_rows t))"

text \<open>Three statements outside a transaction: what a failed one leaves is what the earlier ones did.\<close>

definition purgeVaultContents ::
  "(item_stmt \<Rightarrow> bool) \<Rightarrow> lifecycle_config \<Rightarrow> uuid \<Rightarrow> 'b item_table \<Rightarrow> 'b item_table item_result" where
  "purgeVaultContents fails cfg v t =
     (if fails ItTags then (Some ItemDbError, t)
      else
        let t1 = t\<lparr>tb_tags := filter (\<lambda>x. fst x \<notin> ids_of_vault v t) (tb_tags t)\<rparr> in
        if cfg_versions cfg \<and> fails ItVersions then (Some ItemDbError, t1)
        else
          let t2 = (if cfg_versions cfg
                    then t1\<lparr>tb_versions := filter (\<lambda>x. fst x \<notin> ids_of_vault v t) (tb_versions t1)\<rparr> else t1) in
          if fails ItDelete then (Some ItemDbError, t2)
          else (None, t2\<lparr>tb_rows := filter (\<lambda>r. it_vault r \<noteq> v) (tb_rows t2)\<rparr>))"

definition hasProtectedContent :: "(item_stmt \<Rightarrow> bool) \<Rightarrow> uuid \<Rightarrow> 'b item_table \<Rightarrow> item_error + bool" where
  "hasProtectedContent fails v t =
     (if fails ItProtected then Inl ItemDbError
      else Inr (list_ex (\<lambda>r. it_vault r = v \<and> it_protected r) (tb_rows t)))"

section \<open>Lemmas\<close>


named_theorems item_ops

lemmas [item_ops] = softDeleteItem_def recoverItem_def deleteItemVersions_def delete_item_tx_def purgeItem_def
  setPurgeProtectionItem_def deleteItemWithTags_def softDeleteVaultContents_def recoverVaultContents_def
  purgeVaultContents_def Let_def

lemma update_rows_simps [simp]:
  "tb_rows (update_rows P f t) = map (\<lambda>r. if P r then f r else r) (tb_rows t)"
  "tb_tags (update_rows P f t) = tb_tags t" "tb_versions (update_rows P f t) = tb_versions t"
  by (simp_all add: update_rows_def)

lemma update_rows_ids:
  "(\<And>r. it_id (f r) = it_id r) \<Longrightarrow> map it_id (tb_rows (update_rows P f t)) = map it_id (tb_rows t)"
  by (simp add: comp_def if_distrib)

lemma update_rows_same: "(\<And>r. r \<in> set (tb_rows t) \<Longrightarrow> P r \<Longrightarrow> f r = r) \<Longrightarrow> update_rows P f t = t"
  by (auto simp: update_rows_def map_idI intro!: item_table.equality)




definition one_item :: "bool \<Rightarrow> go_string item_table" where
  "one_item p = \<lparr>tb_rows = [\<lparr>it_id = 1, it_vault = 7, it_deleted = Some 5, it_scheduled = None, it_protected = p, it_body = []\<rparr>],
     tb_tags = [(1, ''prod'')], tb_versions = []\<rparr>"



text \<open>The status is read before the transaction begins: protection set in between does not stop the purge.\<close>

theorem purge_race:
  "purge_status (\<lambda>_. False) (crud Keys) 1 (one_item False) = None
   \<and> setPurgeProtectionItem (\<lambda>_. False) (crud Keys) 1 True (one_item False) = (None, one_item True)
   \<and> fst (delete_item_tx (\<lambda>_. False) (crud Keys) 1 (one_item True)) = None
   \<and> tb_rows (snd (delete_item_tx (\<lambda>_. False) (crud Keys) 1 (one_item True))) = []"
  by (simp add: item_ops purge_status_def one_item_def rows_affected_def crud_def update_rows_def)

end
