(* ===== verification/Vaults.thy ===== *)
theory Vaults
  imports VaultRepository ItemLifecycle RoleAssignments
begin

text \<open>
  The vault lifecycle (\<open>src/internal/services/vaults/vault_service.go\<close>) over the vault
  table, the cascade to the items of a vault (\<open>cascade_adapter.go\<close>), the policies, role
  assignments, webhook configurations and provisioning grants, the vault cache
  and the critical audit rows.

  The environment of a call names the clock, the precision of the database, the
  fresh ids, the dependencies that are wired, and which statements fail.
  A transaction that fails leaves the state as it was.  Log lines and the flush
  of the secret cache are left out.
\<close>

section \<open>State and environment\<close>

record vault_audit_row =
  var_outcome :: audit_outcome
  var_actor :: "uuid option"
  var_action :: go_string
  var_vault :: uuid
  var_name :: go_string

record vault_state =
  vs_vaults :: vault_table
  vs_items :: "item_kind \<Rightarrow> go_string item_table"
  vs_policies :: policy_table
  vs_roles :: role_table
  vs_webhooks :: "uuid list"
  vs_grants :: grant_table
  vs_cache :: "go_string \<Rightarrow> vault option"
  vs_audit :: "vault_audit_row list"

datatype vault_stmt =
    VRow vault_row_stmt | VItem item_kind item_stmt | VPol policy_stmt | VPolByVault
  | VRole authz_stmt | VRoleByVault | VWebhookByVault | VGrant grant_stmt
  | VBegin | VCommit | VAttempt | VResult

text \<open>\<open>ve_cache_hit\<close>: an entry of the cache, if there is one, has not expired.\<close>

record vault_env =
  ve_fails :: "vault_stmt \<Rightarrow> bool"
  ve_now :: instant
  ve_stamp :: "instant \<Rightarrow> instant"
  ve_fresh :: "nat \<Rightarrow> uuid"
  ve_cache_hit :: bool
  ve_tx :: bool
  ve_grant_locker :: bool
  ve_creator_granter :: bool
  ve_global_purge_protection :: bool

datatype vault_error =
    VErrName name_error | VErrTags | VErrPurgeProtectionNotPermitted | VErrNotWired
  | VErrTransaction | VErrRepo repo_error | VErrItems item_error
  | VErrPolicy policy_error | VErrRole role_error | VErrWebhook
  | VErrQuotaExceeded int int | VErrVaultNotFound | VErrDefaultVaultProtected
  | VErrVaultPurgeProtected | VErrContentsPurgeProtected | VErrGlobalPurgeProtection
  | VErrMissingDeletedAt

definition withTx ::
  "vault_env \<Rightarrow> (vault_state \<Rightarrow> vault_error option \<times> vault_state) \<Rightarrow> vault_state
     \<Rightarrow> vault_error option \<times> vault_state" where
  "withTx env fn st =
     (if ve_fails env VBegin then (Some VErrTransaction, st)
      else case fn st of
        (Some e, _) \<Rightarrow> (Some e, st)
      | (None, st') \<Rightarrow> if ve_fails env VCommit then (Some VErrTransaction, st) else (None, st'))"

definition audit_vault :: "uuid \<Rightarrow> go_string \<Rightarrow> vault \<Rightarrow> audit_outcome \<Rightarrow> vault_state \<Rightarrow> vault_state" where
  "audit_vault actor action v outcome st =
     st\<lparr>vs_audit := vs_audit st @
        [\<lparr>var_outcome = outcome, var_actor = (if actor = uuid_nil then None else Some actor),
          var_action = action, var_vault = v_id v, var_name = v_name v\<rparr>]\<rparr>"

definition runCriticalVault ::
  "vault_env \<Rightarrow> go_string \<Rightarrow> vault \<Rightarrow> uuid \<Rightarrow> (vault_state \<Rightarrow> vault_error option \<times> vault_state)
     \<Rightarrow> vault_state \<Rightarrow> vault_error critical_error option \<times> vault_state" where
  "runCriticalVault env action v actor op st =
     WithCritical (ve_fails env VAttempt) (ve_fails env VResult) (audit_vault actor action v) op st"

section \<open>The cascade\<close>

definition cascade_kinds :: "item_kind list" where
  "cascade_kinds = [Secrets, Keys, Certificates]"

fun cascade ::
  "(item_kind \<Rightarrow> go_string item_table \<Rightarrow> go_string item_table item_result) \<Rightarrow> item_kind list \<Rightarrow> (item_kind \<Rightarrow> go_string item_table)
     \<Rightarrow> (item_kind \<Rightarrow> go_string item_table) item_result" where
  "cascade f [] ts = (None, ts)"
| "cascade f (k # ks) ts =
     (case f k (ts k) of
        (Some e, t) \<Rightarrow> (Some e, ts(k := t))
      | (None, t) \<Rightarrow> cascade f ks (ts(k := t)))"

fun any_protected ::
  "vault_env \<Rightarrow> uuid \<Rightarrow> item_kind list \<Rightarrow> (item_kind \<Rightarrow> go_string item_table) \<Rightarrow> item_error + bool" where
  "any_protected env v [] ts = Inr False"
| "any_protected env v (k # ks) ts =
     (case hasProtectedContent (\<lambda>s. ve_fails env (VItem k s)) v (ts k) of
        Inl e \<Rightarrow> Inl e
      | Inr True \<Rightarrow> Inr True
      | Inr False \<Rightarrow> any_protected env v ks ts)"

definition on_items ::
  "(item_kind \<Rightarrow> go_string item_table \<Rightarrow> go_string item_table item_result) \<Rightarrow> vault_state \<Rightarrow> vault_error option \<times> vault_state" where
  "on_items f st =
     (case cascade f cascade_kinds (vs_items st) of
        (e, ts) \<Rightarrow> (map_option VErrItems e, st\<lparr>vs_items := ts\<rparr>))"

definition SoftDeleteContents :: "vault_env \<Rightarrow> uuid \<Rightarrow> instant \<Rightarrow> vault_state \<Rightarrow> vault_error option \<times> vault_state" where
  "SoftDeleteContents env v at =
     on_items (\<lambda>k. softDeleteVaultContents (\<lambda>s. ve_fails env (VItem k s)) (ve_stamp env) v at)"

definition RecoverContents :: "vault_env \<Rightarrow> uuid \<Rightarrow> instant \<Rightarrow> vault_state \<Rightarrow> vault_error option \<times> vault_state" where
  "RecoverContents env v at =
     on_items (\<lambda>k. recoverVaultContents (\<lambda>s. ve_fails env (VItem k s)) (ve_stamp env) v at)"

definition PurgeContents :: "vault_env \<Rightarrow> uuid \<Rightarrow> vault_state \<Rightarrow> vault_error option \<times> vault_state" where
  "PurgeContents env v =
     on_items (\<lambda>k. purgeVaultContents (\<lambda>s. ve_fails env (VItem k s)) (crud k) v)"

definition HasProtectedContent :: "vault_env \<Rightarrow> uuid \<Rightarrow> vault_state \<Rightarrow> item_error + bool" where
  "HasProtectedContent env v st = any_protected env v cascade_kinds (vs_items st)"

section \<open>Reading\<close>

definition Invalidate :: "go_string \<Rightarrow> vault_state \<Rightarrow> vault_state" where
  "Invalidate name st = st\<lparr>vs_cache := (vs_cache st)(name := None)\<rparr>"

definition getByName :: "vault_env \<Rightarrow> go_string \<Rightarrow> vault_state \<Rightarrow> (vault_error + vault) \<times> vault_state" where
  "getByName env name st =
     (case (if ve_cache_hit env then vs_cache st name else None) of
        Some v \<Rightarrow> (Inr (Clone v), st)
      | None \<Rightarrow>
          (case ReadByName (\<lambda>s. ve_fails env (VRow s)) name (vs_vaults st) of
             Inl RepoNotFound \<Rightarrow> (Inl VErrVaultNotFound, st)
           | Inl e \<Rightarrow> (Inl (VErrRepo e), st)
           | Inr v \<Rightarrow> (Inr v, st\<lparr>vs_cache := (vs_cache st)(name := Some (Clone v))\<rparr>)))"

definition GetVault :: "vault_env \<Rightarrow> go_string \<Rightarrow> vault_state \<Rightarrow> (vault_error + vault) \<times> vault_state" where
  "GetVault env name st = getByName env name st"

definition ListVaults :: "vault_env \<Rightarrow> bool \<Rightarrow> vault_state \<Rightarrow> vault_error + vault list" where
  "ListVaults env includeDeleted st =
     (case vault_list (\<lambda>s. ve_fails env (VRow s)) (vs_vaults st) of
        Inl e \<Rightarrow> Inl (VErrRepo e)
      | Inr vs \<Rightarrow>
          if includeDeleted then
            (case ListDeleted (\<lambda>s. ve_fails env (VRow s)) (vs_vaults st) of
               Inl e \<Rightarrow> Inl (VErrRepo e) | Inr ds \<Rightarrow> Inr (vs @ ds))
          else Inr vs)"

definition ListVaultsScoped ::
  "vault_env \<Rightarrow> uuid \<Rightarrow> bool \<Rightarrow> bool \<Rightarrow> vault_state \<Rightarrow> vault_error + vault list" where
  "ListVaultsScoped env p includeDeleted all st =
     (if all then ListVaults env includeDeleted st
      else case ListVaultIDsForPrincipal (\<lambda>s. ve_fails env (VPol s)) p (vs_policies st) of
        Inl e \<Rightarrow> Inl (VErrPolicy e)
      | Inr ids \<Rightarrow>
          if ids = [] then Inr []
          else case ListVaults env includeDeleted st of
            Inl e \<Rightarrow> Inl e
          | Inr vs \<Rightarrow> Inr (filter (\<lambda>v. v_id v \<in> set ids) vs))"

definition findDeleted :: "vault_env \<Rightarrow> go_string \<Rightarrow> vault_state \<Rightarrow> vault_error + vault" where
  "findDeleted env name st =
     (case ListDeleted (\<lambda>s. ve_fails env (VRow s)) (vs_vaults st) of
        Inl e \<Rightarrow> Inl (VErrRepo e)
      | Inr ds \<Rightarrow> (case find (\<lambda>v. v_name v = name) ds of None \<Rightarrow> Inl VErrVaultNotFound | Some v \<Rightarrow> Inr v))"

section \<open>Creating and updating\<close>

definition defaultRetentionDays :: int where "defaultRetentionDays = 90"

definition buildVault :: "vault_env \<Rightarrow> create_vault_request \<Rightarrow> uuid \<Rightarrow> vault" where
  "buildVault env req createdBy =
     \<lparr>v_id = ve_fresh env 0, v_name = cr_name req,
      v_enabled = (case cr_enabled req of None \<Rightarrow> True | Some b \<Rightarrow> b),
      v_purge_protection = (case cr_purge_protection req of None \<Rightarrow> False | Some b \<Rightarrow> b),
      v_retention_days = (case cr_retention_days req of None \<Rightarrow> defaultRetentionDays | Some d \<Rightarrow> d),
      v_created_by = createdBy, v_created = ve_now env, v_deleted = None, v_scheduled = None,
      v_tags = cr_tags req, v_updated = None, v_updated_by = None\<rparr>"

definition create_row :: "vault_env \<Rightarrow> vault \<Rightarrow> vault_state \<Rightarrow> vault_error option \<times> vault_state" where
  "create_row env v st =
     (case vault_create (\<lambda>s. ve_fails env (VRow s)) v (vs_vaults st) of
        (Some e, _) \<Rightarrow> (Some (VErrRepo e), st)
      | (None, tbl) \<Rightarrow> (None, st\<lparr>vs_vaults := tbl\<rparr>))"

definition CreateVault ::
  "vault_env \<Rightarrow> create_vault_request \<Rightarrow> uuid \<Rightarrow> vault_state \<Rightarrow> (vault_error + vault) \<times> vault_state" where
  "CreateVault env req createdBy st =
     (case ValidateNewVaultName (cr_name req) of
        Some e \<Rightarrow> (Inl (VErrName e), st)
      | None \<Rightarrow>
          if \<not> ValidateVaultTags (cr_tags req) then (Inl VErrTags, st)
          else
            let v = buildVault env req createdBy in
            case create_row env v st of
              (Some e, _) \<Rightarrow> (Inl e, st)
            | (None, st') \<Rightarrow> (Inr v, st'))"

text \<open>The check of the quota, inside the transaction that inserts the vault.\<close>

definition check_quota :: "vault_env \<Rightarrow> uuid \<Rightarrow> vault_state \<Rightarrow> vault_error option" where
  "check_quota env p st =
     (case LockAndReadQuotaTx (\<lambda>s. ve_fails env (VGrant s)) p (vs_grants st) of
        Inl e \<Rightarrow> Some (VErrRepo e)
      | Inr quota \<Rightarrow>
          (case CountByCreatedBy (\<lambda>s. ve_fails env (VRow s)) p (vs_vaults st) of
             Inl e \<Rightarrow> Some (VErrRepo e)
           | Inr count \<Rightarrow> if count \<ge> quota then Some (VErrQuotaExceeded count quota) else None))"

text \<open>The rights of the creator over its vault: \<open>vaults:manage\<close> and Key Vault Administrator.\<close>

definition creator_policy :: "vault_env \<Rightarrow> uuid \<Rightarrow> vault \<Rightarrow> access_policy" where
  "creator_policy env p v =
     \<lparr>pol_id = ve_fresh env 1, pol_principal = p, pol_principal_type = PrincipalTypeUser,
      pol_resource = PolicyResourceVaults, pol_operation = OpManage, pol_effect = PolicyEffectAllow,
      pol_vault = Some (v_id v), pol_assignment = None, pol_created = 0\<rparr>"

definition creator_role :: "vault_env \<Rightarrow> uuid \<Rightarrow> vault \<Rightarrow> role_assignment" where
  "creator_role env p v =
     \<lparr>ra_id = ve_fresh env 2, ra_principal = p, ra_principal_type = PrincipalTypeUser,
      ra_role = RoleKeyVaultAdministrator, ra_vault = v_id v, ra_created_by = p, ra_created = 0\<rparr>"

definition grant_creator :: "vault_env \<Rightarrow> uuid \<Rightarrow> vault \<Rightarrow> vault_state \<Rightarrow> vault_error option \<times> vault_state" where
  "grant_creator env p v st =
     (if \<not> ve_creator_granter env then (Some VErrNotWired, st)
      else case pol_create (\<lambda>s. ve_fails env (VPol s)) (ve_now env) (creator_policy env p v) (vs_policies st) of
        (Some e, _) \<Rightarrow> (Some (VErrPolicy e), st)
      | (None, ptbl) \<Rightarrow>
          (case role_create (\<lambda>s. ve_fails env (VRole s)) (ve_now env) (creator_role env p v) (vs_roles st) of
             (Some e, _) \<Rightarrow> (Some (VErrRole e), st)
           | (None, rtbl) \<Rightarrow> (None, st\<lparr>vs_policies := ptbl, vs_roles := rtbl\<rparr>)))"

definition CreateVaultProvisioned ::
  "vault_env \<Rightarrow> create_vault_request \<Rightarrow> uuid \<Rightarrow> bool \<Rightarrow> bool \<Rightarrow> vault_state
     \<Rightarrow> (vault_error + vault) \<times> vault_state" where
  "CreateVaultProvisioned env req createdBy quotaBounded grantCreatorRights st =
     (case ValidateNewVaultName (cr_name req) of
        Some e \<Rightarrow> (Inl (VErrName e), st)
      | None \<Rightarrow>
          if \<not> ValidateVaultTags (cr_tags req) then (Inl VErrTags, st)
          else if quotaBounded \<and> cr_purge_protection req = Some True
            then (Inl VErrPurgeProtectionNotPermitted, st)
          else if \<not> quotaBounded \<and> \<not> grantCreatorRights then CreateVault env req createdBy st
          else if \<not> ve_tx env then (Inl VErrNotWired, st)
          else if quotaBounded \<and> \<not> ve_grant_locker env then (Inl VErrNotWired, st)
          else
            let v = buildVault env req createdBy in
            case withTx env (\<lambda>st.
              case (if quotaBounded then check_quota env createdBy st else None) of
                Some e \<Rightarrow> (Some e, st)
              | None \<Rightarrow>
                  (case create_row env v st of
                     (Some e, st) \<Rightarrow> (Some e, st)
                   | (None, st) \<Rightarrow> grant_creator env createdBy v st)) st of
              (Some e, st') \<Rightarrow> (Inl e, st')
            | (None, st') \<Rightarrow> (Inr v, st'))"

definition apply_update :: "update_vault_request \<Rightarrow> uuid \<Rightarrow> vault \<Rightarrow> vault option" where
  "apply_update req updatedBy v =
     (let v = (case ur_enabled req of None \<Rightarrow> v | Some b \<Rightarrow> v\<lparr>v_enabled := b\<rparr>);
          v = (case ur_purge_protection req of None \<Rightarrow> v | Some b \<Rightarrow> v\<lparr>v_purge_protection := b\<rparr>);
          v = (case ur_retention_days req of None \<Rightarrow> v | Some d \<Rightarrow> v\<lparr>v_retention_days := d\<rparr>) in
      case ur_tags req of
        Some tags \<Rightarrow>
          if \<not> ValidateVaultTags tags then None
          else Some (let v = v\<lparr>v_tags := tags\<rparr> in
                     if updatedBy \<noteq> uuid_nil then v\<lparr>v_updated_by := Some updatedBy\<rparr> else v)
      | None \<Rightarrow> Some (if updatedBy \<noteq> uuid_nil then v\<lparr>v_updated_by := Some updatedBy\<rparr> else v))"

definition UpdateVault ::
  "vault_env \<Rightarrow> go_string \<Rightarrow> update_vault_request \<Rightarrow> uuid \<Rightarrow> vault_state \<Rightarrow> (vault_error + vault) \<times> vault_state" where
  "UpdateVault env name req updatedBy st =
     (case getByName env name st of
        (Inl e, st1) \<Rightarrow> (Inl e, st1)
      | (Inr v, st1) \<Rightarrow>
          (case apply_update req updatedBy v of
             None \<Rightarrow> (Inl VErrTags, st1)
           | Some v' \<Rightarrow>
               (case vault_update (\<lambda>s. ve_fails env (VRow s)) (ve_now env) v' (vs_vaults st1) of
                  (Some e, _) \<Rightarrow> (Inl (VErrRepo e), st1)
                | (None, v'', tbl) \<Rightarrow> (Inr v'', Invalidate name (st1\<lparr>vs_vaults := tbl\<rparr>)))))"

section \<open>Deleting, recovering, purging\<close>

text \<open>The vault row first, then its contents with the stamp the row really got.\<close>

definition soft_delete_rows ::
  "vault_env \<Rightarrow> vault \<Rightarrow> vault_state \<Rightarrow> vault_error option \<times> vault_state" where
  "soft_delete_rows env v st =
     (case vault_soft_delete (\<lambda>s. ve_fails env (VRow s)) (ve_stamp env (ve_now env)) (v_id v) (vs_vaults st) of
        (Some e, _) \<Rightarrow> (Some (VErrRepo e), st)
      | (None, tbl) \<Rightarrow>
          (let st = st\<lparr>vs_vaults := tbl\<rparr> in
           case ReadByID (\<lambda>s. ve_fails env (VRow s)) (v_id v) (vs_vaults st) of
             Inl e \<Rightarrow> (Some (VErrRepo e), st)
           | Inr deleted \<Rightarrow>
               (case v_deleted deleted of
                  None \<Rightarrow> (Some VErrMissingDeletedAt, st)
                | Some at \<Rightarrow> SoftDeleteContents env (v_id v) at st)))"

definition softDeleteVault ::
  "vault_env \<Rightarrow> vault \<Rightarrow> go_string \<Rightarrow> vault_state \<Rightarrow> vault_error option \<times> vault_state" where
  "softDeleteVault env v name st =
     (case (if ve_tx env then withTx env (soft_delete_rows env v) st else soft_delete_rows env v st) of
        (Some e, st') \<Rightarrow> (Some e, st')
      | (None, st') \<Rightarrow> (None, Invalidate name st'))"

definition DeleteVault ::
  "vault_env \<Rightarrow> go_string \<Rightarrow> uuid \<Rightarrow> vault_state \<Rightarrow> vault_error critical_error option \<times> vault_state" where
  "DeleteVault env name actor st =
     (if name = DefaultVaultName then (Some (OpError VErrDefaultVaultProtected), st)
      else case getByName env name st of
        (Inl e, st1) \<Rightarrow> (Some (OpError e), st1)
      | (Inr v, st1) \<Rightarrow> runCriticalVault env ''delete_vault'' v actor (softDeleteVault env v name) st1)"

definition recover_rows ::
  "vault_env \<Rightarrow> vault \<Rightarrow> instant \<Rightarrow> vault_state \<Rightarrow> vault_error option \<times> vault_state" where
  "recover_rows env v at st =
     (case vault_recover (\<lambda>s. ve_fails env (VRow s)) (v_id v) (vs_vaults st) of
        (Some e, _) \<Rightarrow> (Some (VErrRepo e), st)
      | (None, tbl) \<Rightarrow> RecoverContents env (v_id v) at (st\<lparr>vs_vaults := tbl\<rparr>))"

definition RecoverVault ::
  "vault_env \<Rightarrow> go_string \<Rightarrow> vault_state \<Rightarrow> vault_error option \<times> vault_state" where
  "RecoverVault env name st =
     (case findDeleted env name st of
        Inl e \<Rightarrow> (Some e, st)
      | Inr v \<Rightarrow>
          (case v_deleted v of
             None \<Rightarrow> (Some VErrMissingDeletedAt, st)
           | Some at \<Rightarrow>
               (case (if ve_tx env then withTx env (recover_rows env v at) st else recover_rows env v at st) of
                  (Some e, st') \<Rightarrow> (Some e, st')
                | (None, st') \<Rightarrow> (None, Invalidate name st'))))"

text \<open>Not a transaction: an error leaves what the earlier statements removed.\<close>

definition purgeVaultRows ::
  "vault_env \<Rightarrow> vault \<Rightarrow> go_string \<Rightarrow> vault_state \<Rightarrow> vault_error option \<times> vault_state" where
  "purgeVaultRows env v name st =
     (case vault_purge (\<lambda>s. ve_fails env (VRow s)) (v_id v) (vs_vaults st) of
        (Some e, _) \<Rightarrow> (Some (VErrRepo e), st)
      | (None, tbl) \<Rightarrow>
          (case PurgeContents env (v_id v) (Invalidate name (st\<lparr>vs_vaults := tbl\<rparr>)) of
             (Some e, st1) \<Rightarrow> (Some e, st1)
           | (None, st1) \<Rightarrow>
               (case pol_delete_by_vault (ve_fails env VPolByVault) (v_id v) (vs_policies st1) of
                  (Some e, _) \<Rightarrow> (Some (VErrPolicy e), st1)
                | (None, ptbl) \<Rightarrow>
                    (let st2 = st1\<lparr>vs_policies := ptbl\<rparr> in
                     case role_delete_by_vault (ve_fails env VRoleByVault) (v_id v) (vs_roles st2) of
                       (Some e, _) \<Rightarrow> (Some (VErrRole e), st2)
                     | (None, rtbl) \<Rightarrow>
                         (let st3 = st2\<lparr>vs_roles := rtbl\<rparr> in
                          if ve_fails env VWebhookByVault then (Some VErrWebhook, st3)
                          else (None, st3\<lparr>vs_webhooks := filter (\<lambda>w. w \<noteq> v_id v) (vs_webhooks st3)\<rparr>))))))"

definition purge_target ::
  "vault_env \<Rightarrow> go_string \<Rightarrow> vault_state \<Rightarrow> (vault_error + vault) \<times> vault_state" where
  "purge_target env name st =
     (case findDeleted env name st of
        Inr v \<Rightarrow> (Inr v, st)
      | Inl e \<Rightarrow> if e \<noteq> VErrVaultNotFound then (Inl e, st) else getByName env name st)"

definition PurgeVault ::
  "vault_env \<Rightarrow> go_string \<Rightarrow> uuid \<Rightarrow> vault_state \<Rightarrow> vault_error critical_error option \<times> vault_state" where
  "PurgeVault env name actor st =
     (if ve_global_purge_protection env then (Some (OpError VErrGlobalPurgeProtection), st)
      else if name = DefaultVaultName then (Some (OpError VErrDefaultVaultProtected), st)
      else case purge_target env name st of
        (Inl e, st1) \<Rightarrow> (Some (OpError e), st1)
      | (Inr v, st1) \<Rightarrow>
          if v_purge_protection v then (Some (OpError VErrVaultPurgeProtected), st1)
          else case HasProtectedContent env (v_id v) st1 of
            Inl e \<Rightarrow> (Some (OpError (VErrItems e)), st1)
          | Inr True \<Rightarrow> (Some (OpError VErrContentsPurgeProtected), st1)
          | Inr False \<Rightarrow> runCriticalVault env ''purge_vault'' v actor (purgeVaultRows env v name) st1)"

section \<open>Lemmas on the cascade\<close>

lemma cascade_kinds_all [simp]: "k \<in> set cascade_kinds" and cascade_kinds_distinct [simp]: "distinct cascade_kinds"
  by (cases k) (simp_all add: cascade_kinds_def)

lemma cascade_None:
  "cascade f ks ts = (None, ts') \<Longrightarrow> distinct ks \<Longrightarrow>
     ts' = (\<lambda>k. if k \<in> set ks then snd (f k (ts k)) else ts k) \<and> (\<forall>k\<in>set ks. fst (f k (ts k)) = None)"
proof (induction ks arbitrary: ts)
  case (Cons k ks)
  obtain t where f: "f k (ts k) = (None, t)" "cascade f ks (ts(k := t)) = (None, ts')"
    using Cons.prems(1) by (cases "f k (ts k)"; cases "fst (f k (ts k))") auto
  from Cons.prems(2) have k: "k \<notin> set ks"
    by simp
  then have same: "x \<in> set ks \<Longrightarrow> (ts(k := t)) x = ts x" for x
    by auto
  from Cons.IH [OF f(2)] Cons.prems(2)
  have "ts' = (\<lambda>x. if x \<in> set ks then snd (f x (ts x)) else (ts(k := t)) x)" "\<forall>x\<in>set ks. fst (f x (ts x)) = None"
    using same by (simp_all cong: if_cong)
  with f(1) k show ?case
    by auto
qed auto

lemma cascade_rel:
  assumes "\<And>k t. R k t (snd (f k t))" "\<And>k t. R k t t" "distinct ks"
  shows "R k (ts k) (snd (cascade f ks ts) k)"
  using assms(3)
proof (induction ks arbitrary: ts)
  case (Cons x ks)
  obtain e t where f: "f x (ts x) = (e, t)"
    by fastforce
  then have t: "R x (ts x) t"
    using assms(1) [of x "ts x"] by simp
  have out: "snd (cascade f ks' ts') k' = ts' k'" if "k' \<notin> set ks'" for ks' ts' k'
    using that by (induction ks' arbitrary: ts') (auto split: option.splits prod.splits)
  show ?case
  proof (cases "k = x")
    case True
    with f t Cons.prems show ?thesis
      by (cases e) (simp_all add: out)
  next
    case False
    moreover from this have "(ts(x := t)) k = ts k"
      by simp
    ultimately show ?thesis
      using f Cons.IH [of "ts(x := t)"] Cons.prems by (cases e) (simp_all add: assms(2) del: fun_upd_apply)
  qed
qed (simp add: assms(2))

lemma on_items_view [simp]:
  "vs_vaults (snd (on_items f st)) = vs_vaults st" "vs_policies (snd (on_items f st)) = vs_policies st"
  "vs_roles (snd (on_items f st)) = vs_roles st" "vs_webhooks (snd (on_items f st)) = vs_webhooks st"
  "vs_grants (snd (on_items f st)) = vs_grants st" "vs_cache (snd (on_items f st)) = vs_cache st"
  "vs_audit (snd (on_items f st)) = vs_audit st"
  by (simp_all add: on_items_def split: prod.split)

lemma on_items_None:
  assumes "on_items f st = (None, st')"
  shows "st' = st\<lparr>vs_items := (\<lambda>k. snd (f k (vs_items st k)))\<rparr>" "\<And>k. fst (f k (vs_items st k)) = None"
proof -
  obtain ts where c: "cascade f cascade_kinds (vs_items st) = (None, ts)" "st' = st\<lparr>vs_items := ts\<rparr>"
    using assms by (auto simp: on_items_def split: prod.splits)
  from cascade_None [OF c(1)] c(2)
  show "st' = st\<lparr>vs_items := (\<lambda>k. snd (f k (vs_items st k)))\<rparr>" "fst (f k (vs_items st k)) = None" for k
    by simp_all
qed

lemma on_items_rel:
  "(\<And>k t. R k t (snd (f k t))) \<Longrightarrow> (\<And>k t. R k t t) \<Longrightarrow> R k (vs_items st k) (vs_items (snd (on_items f st)) k)"
  using cascade_rel [of R f cascade_kinds k "vs_items st"]
  by (cases "cascade f cascade_kinds (vs_items st)") (simp add: on_items_def)

section \<open>Transactions\<close>

lemma withTx_cases:
  obtains (failed) e where "withTx env fn st = (Some e, st)"
  | (committed) st' where "withTx env fn st = (None, st')" "fn st = (None, st')"
  by (cases "ve_fails env VBegin"; cases "fn st"; cases "fst (fn st)"; cases "ve_fails env VCommit")
    (auto simp: withTx_def)

lemma withTx_None: "withTx env fn st = (None, st') \<Longrightarrow> fn st = (None, st')"
  by (cases rule: withTx_cases [of env fn st]) simp_all

lemma withTx_Some: "withTx env fn st = (Some e, st') \<Longrightarrow> st' = st"
  by (cases rule: withTx_cases [of env fn st]) simp_all

section \<open>The invariant\<close>

text \<open>Unique keys, cached vaults are the active rows, nothing active is scheduled for purge.\<close>

definition cache_ok :: "vault_state \<Rightarrow> bool" where
  "cache_ok st \<longleftrightarrow>
     (\<forall>name v. vs_cache st name = Some v \<longrightarrow> v \<in> set (vs_vaults st) \<and> v_name v = name \<and> v_deleted v = None)"

definition vault_inv :: "vault_state \<Rightarrow> bool" where
  "vault_inv st \<longleftrightarrow>
     vaults_wf (vs_vaults st) \<and> cache_ok st
     \<and> list_all (\<lambda>v. v_deleted v = None \<longrightarrow> v_scheduled v = None) (vs_vaults st)"

lemma getByName_cases:
  assumes "cache_ok st"
  obtains (refused) e where "getByName env name st = (Inl e, st)"
      "e = VErrVaultNotFound \<Longrightarrow> \<forall>v\<in>set (vs_vaults st). v_name v = name \<longrightarrow> v_deleted v \<noteq> None"
  | (found) v c where "getByName env name st = (Inr v, st\<lparr>vs_cache := c\<rparr>)" "v \<in> set (vs_vaults st)" "v_name v = name"
      "v_deleted v = None" "cache_ok (st\<lparr>vs_cache := c\<rparr>)"
proof -
  consider (hit) v where "ve_cache_hit env" "vs_cache st name = Some v"
    | (miss) "(if ve_cache_hit env then vs_cache st name else None) = None"
    by (cases "ve_cache_hit env"; cases "vs_cache st name") auto
  then show thesis
  proof cases
    case hit
    then show thesis
      using assms by (intro found [of v "vs_cache st"]) (auto simp: getByName_def cache_ok_def)
  next
    case miss
    show thesis
    proof (cases "ReadByName (\<lambda>s. ve_fails env (VRow s)) name (vs_vaults st)")
      case (Inl e)
      show thesis
      proof (cases e)
        case RepoNotFound
        with Inl have "\<forall>v\<in>set (vs_vaults st). v_name v = name \<longrightarrow> v_deleted v \<noteq> None"
          by (auto simp: ReadByName_def find_None_iff split: if_splits option.splits)
        with miss Inl RepoNotFound show thesis
          by (intro refused [of VErrVaultNotFound]) (simp_all add: getByName_def)
      qed (use miss Inl in \<open>auto simp: getByName_def intro: refused\<close>)
    next
      case (Inr v)
      then have v: "v \<in> set (vs_vaults st)" "v_name v = name" "v_deleted v = None"
        by (auto simp: ReadByName_def find_Some_iff split: if_splits option.splits)
      with miss Inr assms show thesis
        by (intro found [of v "(vs_cache st)(name := Some v)"]) (auto simp: getByName_def cache_ok_def)
    qed
  qed
qed

lemma findDeleted_Inr:
  "findDeleted env name st = Inr v \<Longrightarrow> v \<in> set (vs_vaults st) \<and> v_name v = name \<and> v_deleted v \<noteq> None"
  by (auto simp: findDeleted_def ListDeleted_def dest!: find_in_set split: sum.splits option.splits if_splits)

section \<open>What the operations do\<close>

text \<open>The intended effects on the rows.\<close>

definition vault_deleted :: "(instant \<Rightarrow> instant) \<Rightarrow> instant \<Rightarrow> uuid \<Rightarrow> vault_state \<Rightarrow> vault_state" where
  "vault_deleted stamp at i st =
     st\<lparr>vs_vaults := set_rows (\<lambda>x. v_id x = i \<and> v_deleted x = None) (\<lambda>x. x\<lparr>v_deleted := Some at\<rparr>) (vs_vaults st),
        vs_items := (\<lambda>k. update_rows (\<lambda>r. it_vault r = i \<and> it_deleted r = None)
                            (\<lambda>r. r\<lparr>it_deleted := Some (stamp at)\<rparr>) (vs_items st k))\<rparr>"

definition vault_recovered :: "(instant \<Rightarrow> instant) \<Rightarrow> instant \<Rightarrow> uuid \<Rightarrow> vault_state \<Rightarrow> vault_state" where
  "vault_recovered stamp at i st =
     st\<lparr>vs_vaults := set_rows (\<lambda>x. v_id x = i \<and> v_deleted x \<noteq> None)
                        (\<lambda>x. x\<lparr>v_deleted := None, v_scheduled := None\<rparr>) (vs_vaults st),
        vs_items := (\<lambda>k. update_rows (\<lambda>r. it_vault r = i \<and> it_deleted r = Some (stamp at)) revive (vs_items st k))\<rparr>"

definition items_purged :: "item_kind \<Rightarrow> uuid \<Rightarrow> go_string item_table \<Rightarrow> go_string item_table" where
  "items_purged k i t =
     t\<lparr>tb_rows := filter (\<lambda>r. it_vault r \<noteq> i) (tb_rows t),
       tb_tags := filter (\<lambda>x. fst x \<notin> ids_of_vault i t) (tb_tags t),
       tb_versions := (if k = Certificates then filter (\<lambda>x. fst x \<notin> ids_of_vault i t) (tb_versions t)
                       else tb_versions t)\<rparr>"

definition vault_purged :: "uuid \<Rightarrow> vault_state \<Rightarrow> vault_state" where
  "vault_purged i st =
     st\<lparr>vs_vaults := filter (\<lambda>v. v_id v \<noteq> i) (vs_vaults st),
        vs_items := (\<lambda>k. items_purged k i (vs_items st k)),
        vs_policies := filter (\<lambda>p. pol_vault p \<noteq> Some i) (vs_policies st),
        vs_roles := filter (\<lambda>ra. ra_vault ra \<noteq> i) (vs_roles st),
        vs_webhooks := filter (\<lambda>w. w \<noteq> i) (vs_webhooks st)\<rparr>"

lemma SoftDeleteContents_None:
  assumes "SoftDeleteContents env v at st = (None, st')"
  shows "st' = st\<lparr>vs_items := (\<lambda>k. update_rows (\<lambda>r. it_vault r = v \<and> it_deleted r = None)
                    (\<lambda>r. r\<lparr>it_deleted := Some (ve_stamp env at)\<rparr>) (vs_items st k))\<rparr>"
proof -
  have "fst (softDeleteVaultContents f stamp v at t) = None \<Longrightarrow> snd (softDeleteVaultContents f stamp v at t)
      = update_rows (\<lambda>r. it_vault r = v \<and> it_deleted r = None) (\<lambda>r. r\<lparr>it_deleted := Some (stamp at)\<rparr>) t" for f stamp and t :: "go_string item_table"
    by (auto simp: softDeleteVaultContents_def)
  with on_items_None [OF assms [unfolded SoftDeleteContents_def]] show ?thesis
    by simp
qed

lemma RecoverContents_None:
  assumes "RecoverContents env v at st = (None, st')"
  shows "st' = st\<lparr>vs_items := (\<lambda>k. update_rows (\<lambda>r. it_vault r = v \<and> it_deleted r = Some (ve_stamp env at)) revive
                    (vs_items st k))\<rparr>"
proof -
  have "fst (recoverVaultContents f stamp v at t) = None \<Longrightarrow> snd (recoverVaultContents f stamp v at t)
      = update_rows (\<lambda>r. it_vault r = v \<and> it_deleted r = Some (stamp at)) revive t" for f stamp and t :: "go_string item_table"
    by (auto simp: recoverVaultContents_def)
  with on_items_None [OF assms [unfolded RecoverContents_def]] show ?thesis
    by simp
qed

lemma soft_delete_rows_None:
  assumes "soft_delete_rows env v st = (None, st')" "vaults_wf (vs_vaults st)" "v \<in> set (vs_vaults st)"
    "v_deleted v = None"
  shows "st' = vault_deleted (ve_stamp env) (ve_stamp env (ve_now env)) (v_id v) st"
proof -
  let ?at = "ve_stamp env (ve_now env)"
  let ?V = "set_rows (\<lambda>x. v_id x = v_id v \<and> v_deleted x = None) (\<lambda>x. x\<lparr>v_deleted := Some ?at\<rparr>) (vs_vaults st)"
  have mem: "v\<lparr>v_deleted := Some ?at\<rparr> \<in> set ?V"
    using assms(3,4) by (force simp: set_rows_def)
  have wf: "vaults_wf ?V"
    using assms(2) by (simp add: vaults_wf_set_rows)
  have f: "find (\<lambda>x. v_id x = v_id v) ?V = Some (v\<lparr>v_deleted := Some ?at\<rparr>)"
  proof (rule find_unique [OF mem])
    show "y = v\<lparr>v_deleted := Some ?at\<rparr>" if "y \<in> set ?V" "v_id y = v_id v" for y
      using vaults_wf_inj(1) [OF wf that(1) mem] that(2) by simp
  qed simp
  have "SoftDeleteContents env (v_id v) ?at (st\<lparr>vs_vaults := ?V\<rparr>) = (None, st')"
    using assms(1) unfolding soft_delete_rows_def vault_soft_delete_def ReadByID_def Let_def
    by (auto simp: f split: if_splits)
  from SoftDeleteContents_None [OF this] show ?thesis
    by (simp add: vault_deleted_def)
qed

lemma softDeleteVault_cases:
  assumes "ve_tx env" "vaults_wf (vs_vaults st)" "v \<in> set (vs_vaults st)" "v_deleted v = None"
  obtains (failed) e where "softDeleteVault env v name st = (Some e, st)"
  | (deleted) "softDeleteVault env v name st
      = (None, Invalidate name (vault_deleted (ve_stamp env) (ve_stamp env (ve_now env)) (v_id v) st))"
  using assms
  by (cases rule: withTx_cases [of env "soft_delete_rows env v" st])
    (auto simp: softDeleteVault_def dest: soft_delete_rows_None)

lemma recover_rows_None:
  assumes "recover_rows env v at st = (None, st')"
  shows "st' = vault_recovered (ve_stamp env) at (v_id v) st"
proof -
  let ?V = "set_rows (\<lambda>x. v_id x = v_id v \<and> v_deleted x \<noteq> None) (\<lambda>x. x\<lparr>v_deleted := None, v_scheduled := None\<rparr>)
      (vs_vaults st)"
  have "RecoverContents env (v_id v) at (st\<lparr>vs_vaults := ?V\<rparr>) = (None, st')"
    using assms by (auto simp: recover_rows_def vault_recover_def split: if_splits)
  from RecoverContents_None [OF this] show ?thesis
    by (simp add: vault_recovered_def)
qed

lemma RecoverVault_cases:
  assumes "ve_tx env"
  obtains (failed) e where "RecoverVault env name st = (Some e, st)"
  | (recovered) v at where "RecoverVault env name st
        = (None, Invalidate name (vault_recovered (ve_stamp env) at (v_id v) st))"
      "v \<in> set (vs_vaults st)" "v_name v = name" "v_deleted v = Some at" "findDeleted env name st = Inr v"
proof (cases "findDeleted env name st")
  case (Inl e)
  then show thesis
    by (intro failed [of e]) (simp add: RecoverVault_def)
next
  case (Inr v)
  from findDeleted_Inr [OF this] obtain at where v: "v \<in> set (vs_vaults st)" "v_name v = name" "v_deleted v = Some at"
    by auto
  show thesis
  proof (cases rule: withTx_cases [of env "recover_rows env v at" st])
    case (failed e)
    with Inr v assms show thesis
      by (intro that(1) [of e]) (simp add: RecoverVault_def)
  next
    case (committed st')
    with Inr v assms recover_rows_None [OF committed(2)] show thesis
      by (intro recovered [of at v]) (simp_all add: RecoverVault_def)
  qed
qed

lemma purgeVaultContents_None:
  "fst (purgeVaultContents fails (crud k) v t) = None \<Longrightarrow> snd (purgeVaultContents fails (crud k) v t) = items_purged k v t"
  by (auto simp: purgeVaultContents_def items_purged_def crud_def Let_def intro!: item_table.equality split: if_splits)

lemma PurgeContents_None:
  "PurgeContents env v st = (None, st') \<Longrightarrow> st' = st\<lparr>vs_items := (\<lambda>k. items_purged k v (vs_items st k))\<rparr>"
  using on_items_None [of "\<lambda>k. purgeVaultContents (\<lambda>s. ve_fails env (VItem k s)) (crud k) v" st st']
  by (simp add: PurgeContents_def purgeVaultContents_None)

lemma purgeVaultRows_None:
  assumes "purgeVaultRows env v name st = (None, st')"
  shows "st' = Invalidate name (vault_purged (v_id v) st)"
proof -
  obtain st1 where st1: "PurgeContents env (v_id v)
        (Invalidate name (st\<lparr>vs_vaults := filter (\<lambda>x. v_id x \<noteq> v_id v) (vs_vaults st)\<rparr>)) = (None, st1)"
    and rest: "st' = st1\<lparr>vs_policies := filter (\<lambda>p. pol_vault p \<noteq> Some (v_id v)) (vs_policies st1),
      vs_roles := filter (\<lambda>ra. ra_vault ra \<noteq> v_id v) (vs_roles st1),
      vs_webhooks := filter (\<lambda>w. w \<noteq> v_id v) (vs_webhooks st1)\<rparr>"
    using assms by (auto simp: purgeVaultRows_def vault_purge_def pol_delete_by_vault_def role_delete_by_vault_def
        Let_def split: if_splits prod.splits option.splits)
  from PurgeContents_None [OF st1] rest show ?thesis
    by (simp add: Invalidate_def vault_purged_def)
qed

lemma runCriticalVault_cases:
  obtains (refused) "runCriticalVault env action v actor op st = (Some ErrAuditUnavailable, st)"
  | (ran) r st2 a where "op (audit_vault actor action v OutcomeAttempt st) = (r, st2)"
      "runCriticalVault env action v actor op st = (map_option OpError r, st2\<lparr>vs_audit := a\<rparr>)"
proof (cases "ve_fails env VAttempt")
  case True
  then show thesis
    by (intro refused) (simp add: runCriticalVault_def WithCritical_refused)
next
  case False
  obtain r st2 where op: "op (audit_vault actor action v OutcomeAttempt st) = (r, st2)"
    by fastforce
  have "\<exists>a. (if ve_fails env VResult then st2
      else audit_vault actor action v (if r = None then OutcomeSuccess else OutcomeFailure) st2) = st2\<lparr>vs_audit := a\<rparr>"
  proof (cases "ve_fails env VResult")
    case True
    then show ?thesis
      by (intro exI [of _ "vs_audit st2"]) simp
  next
    case False
    then show ?thesis
      by (auto simp: audit_vault_def)
  qed
  then obtain a where "(if ve_fails env VResult then st2
      else audit_vault actor action v (if r = None then OutcomeSuccess else OutcomeFailure) st2) = st2\<lparr>vs_audit := a\<rparr>"
    by blast
  with False show thesis
    using WithCritical_ran [where put = "audit_vault actor action v" and op = op and st = st and r = r
        and ?st2.0 = st2 and rf = "ve_fails env VResult", OF op]
    by (intro ran [OF op, of a]) (simp add: runCriticalVault_def)
qed

lemma audit_vault_view [simp]:
  "vs_vaults (audit_vault a b v out st) = vs_vaults st" "vs_items (audit_vault a b v out st) = vs_items st"
  "vs_policies (audit_vault a b v out st) = vs_policies st" "vs_roles (audit_vault a b v out st) = vs_roles st"
  "vs_webhooks (audit_vault a b v out st) = vs_webhooks st" "vs_grants (audit_vault a b v out st) = vs_grants st"
  "vs_cache (audit_vault a b v out st) = vs_cache st"
  by (simp_all add: audit_vault_def)

text \<open>The rows of a state, without the cache and the audit log.\<close>

definition rows_of ::
  "vault_state \<Rightarrow> vault_table \<times> (item_kind \<Rightarrow> go_string item_table) \<times> policy_table \<times> role_table \<times> uuid list \<times> grant_table" where
  "rows_of st = (vs_vaults st, vs_items st, vs_policies st, vs_roles st, vs_webhooks st, vs_grants st)"

lemma rows_of_simps [simp]:
  "rows_of (st\<lparr>vs_cache := c\<rparr>) = rows_of st" "rows_of (st\<lparr>vs_audit := a\<rparr>) = rows_of st"
  "rows_of (Invalidate name st) = rows_of st" "rows_of (audit_vault p q v out st) = rows_of st"
  by (simp_all add: rows_of_def Invalidate_def)

lemma rows_of_effects:
  "rows_of st = rows_of st' \<Longrightarrow> rows_of (vault_deleted s t i st) = rows_of (vault_deleted s t i st')"
  "rows_of st = rows_of st' \<Longrightarrow> rows_of (vault_recovered s t i st) = rows_of (vault_recovered s t i st')"
  "rows_of st = rows_of st' \<Longrightarrow> rows_of (vault_purged i st) = rows_of (vault_purged i st')"
  by (simp_all add: rows_of_def vault_deleted_def vault_recovered_def vault_purged_def)

lemma vault_inv_audit [simp]: "vault_inv (st\<lparr>vs_audit := a\<rparr>) = vault_inv st"
  "vault_inv (audit_vault p q v out st) = vault_inv st"
  by (simp_all add: vault_inv_def cache_ok_def)

lemma vault_inv_cache: "vault_inv st \<Longrightarrow> cache_ok (st\<lparr>vs_cache := c\<rparr>) \<Longrightarrow> vault_inv (st\<lparr>vs_cache := c\<rparr>)"
  by (simp add: vault_inv_def)

text \<open>An operation whose rows change only in the vault the cache has just dropped keeps the invariant.\<close>

lemma vault_inv_set_rows:
  assumes "vault_inv st" "v \<in> set (vs_vaults st)"
    and "vs_vaults st' = set_rows (\<lambda>x. v_id x = v_id v \<and> P x) f (vs_vaults st)"
    and "vs_cache st' = (vs_cache st)(v_name v := None)"
    and "\<And>x. v_id (f x) = v_id x" "\<And>x. v_name (f x) = v_name x"
    and "\<And>x. v_id x = v_id v \<Longrightarrow> P x \<Longrightarrow> v_deleted x = None \<longrightarrow> v_scheduled x = None
      \<Longrightarrow> v_deleted (f x) = None \<longrightarrow> v_scheduled (f x) = None"
  shows "vault_inv st'"
proof -
  have wf: "vaults_wf (vs_vaults st)"
    using assms(1) by (simp add: vault_inv_def)
  have "cache_ok st'"
    unfolding cache_ok_def
  proof (intro allI impI)
    fix name w
    assume "vs_cache st' name = Some w"
    then have c: "vs_cache st name = Some w" "name \<noteq> v_name v"
      using assms(4) by (auto split: if_splits)
    then have w: "w \<in> set (vs_vaults st)" "v_name w = name" "v_deleted w = None"
      using assms(1) by (auto simp: vault_inv_def cache_ok_def)
    then have "v_id w \<noteq> v_id v"
      using vaults_wf_inj [OF wf w(1) assms(2)] c(2) by auto
    with w assms(3) show "w \<in> set (vs_vaults st') \<and> v_name w = name \<and> v_deleted w = None"
      by (force simp: set_rows_def)
  qed
  moreover have "list_all (\<lambda>v. v_deleted v = None \<longrightarrow> v_scheduled v = None) (vs_vaults st')"
    using assms(1,3,7) by (auto simp: vault_inv_def list_all_iff set_rows_def)
  ultimately show ?thesis
    using wf assms(3,5,6) by (simp add: vault_inv_def vaults_wf_set_rows)
qed

lemma vault_deleted_inv:
  "vault_inv st \<Longrightarrow> v \<in> set (vs_vaults st) \<Longrightarrow> vault_inv (Invalidate (v_name v) (vault_deleted s t (v_id v) st))"
  by (rule vault_inv_set_rows [where st = st and v = v and P = "\<lambda>x. v_deleted x = None"
        and f = "\<lambda>x. x\<lparr>v_deleted := Some t\<rparr>"]) (simp_all add: vault_deleted_def Invalidate_def)

lemma vault_recovered_inv:
  "vault_inv st \<Longrightarrow> v \<in> set (vs_vaults st) \<Longrightarrow> vault_inv (Invalidate (v_name v) (vault_recovered s t (v_id v) st))"
  by (rule vault_inv_set_rows [where st = st and v = v and P = "\<lambda>x. v_deleted x \<noteq> None"
        and f = "\<lambda>x. x\<lparr>v_deleted := None, v_scheduled := None\<rparr>"]) (simp_all add: vault_recovered_def Invalidate_def)

lemma vault_inv_filter:
  assumes "vault_inv st" "v \<in> set (vs_vaults st)"
    and "vs_vaults st' = filter (\<lambda>x. v_id x \<noteq> v_id v) (vs_vaults st)" "vs_cache st' = (vs_cache st)(v_name v := None)"
  shows "vault_inv st'"
proof -
  have wf: "vaults_wf (vs_vaults st)"
    using assms(1) by (simp add: vault_inv_def)
  have "cache_ok st'"
    unfolding cache_ok_def
  proof (intro allI impI)
    fix name w
    assume "vs_cache st' name = Some w"
    then have c: "vs_cache st name = Some w" "name \<noteq> v_name v"
      using assms(4) by (auto split: if_splits)
    then have w: "w \<in> set (vs_vaults st)" "v_name w = name" "v_deleted w = None"
      using assms(1) by (auto simp: vault_inv_def cache_ok_def)
    then have "v_id w \<noteq> v_id v"
      using vaults_wf_inj [OF wf w(1) assms(2)] c(2) by auto
    with w assms(3) show "w \<in> set (vs_vaults st') \<and> v_name w = name \<and> v_deleted w = None"
      by simp
  qed
  then show ?thesis
    using assms(1,3) wf by (auto simp: vault_inv_def vaults_wf_filter list_all_iff)
qed

lemma DeleteVault_cases:
  assumes "vault_inv st" "ve_tx env"
  obtains (failed) e st' where "DeleteVault env name actor st = (Some e, st')" "rows_of st' = rows_of st" "vault_inv st'"
  | (deleted) v st' where "DeleteVault env name actor st = (None, st')" "v \<in> set (vs_vaults st)" "v_name v = name"
      "v_deleted v = None" "name \<noteq> DefaultVaultName"
      "rows_of st' = rows_of (vault_deleted (ve_stamp env) (ve_stamp env (ve_now env)) (v_id v) st)" "vault_inv st'"
proof (cases "name = DefaultVaultName")
  case True
  with assms show thesis
    by (intro failed) (simp_all add: DeleteVault_def)
next
  case nodef: False
  have ok: "cache_ok st"
    using assms(1) by (simp add: vault_inv_def)
  show thesis
  proof (cases rule: getByName_cases [OF ok, of env name])
    case (1 e)
    with nodef assms(1) show thesis
      by (intro failed) (simp_all add: DeleteVault_def)
  next
    case (2 v c)
    let ?st1 = "st\<lparr>vs_cache := c\<rparr>"
    have inv1: "vault_inv ?st1"
      using assms(1) 2(5) by (rule vault_inv_cache)
    have del: "DeleteVault env name actor st
        = runCriticalVault env ''delete_vault'' v actor (softDeleteVault env v name) ?st1"
      using nodef 2(1) by (simp add: DeleteVault_def)
    show thesis
    proof (cases rule: runCriticalVault_cases [of env "''delete_vault''" v actor "softDeleteVault env v name" ?st1])
      case refused
      with inv1 show thesis
        by (intro failed) (simp_all add: del)
    next
      case (ran r st2 a)
      let ?st2 = "audit_vault actor ''delete_vault'' v OutcomeAttempt ?st1"
      have pre: "vaults_wf (vs_vaults ?st2)" "v \<in> set (vs_vaults ?st2)"
        using assms(1) 2(2) by (simp_all add: vault_inv_def)
      show thesis
      proof (cases rule: softDeleteVault_cases [OF assms(2) pre 2(4), of name])
        case (1 e)
        then have "r = Some e" "st2 = ?st2"
          using ran(1) by simp_all
        then show thesis
          using ran(2) inv1 by (intro failed [of "OpError e" "st2\<lparr>vs_audit := a\<rparr>"]) (simp_all add: del)
      next
        case dd: 2
        let ?st3 = "vault_deleted (ve_stamp env) (ve_stamp env (ve_now env)) (v_id v) ?st2"
        have eq: "r = None" "st2 = Invalidate name ?st3"
          using ran(1) dd by simp_all
        have "vault_inv (Invalidate (v_name v) ?st3)"
          using inv1 2(2) by (intro vault_deleted_inv) simp_all
        with 2(3) have "vault_inv (Invalidate name ?st3)"
          by simp
        moreover have "rows_of ?st3 = rows_of (vault_deleted (ve_stamp env) (ve_stamp env (ve_now env)) (v_id v) st)"
          by (rule rows_of_effects) simp
        ultimately show thesis
          using ran(2) eq 2 nodef by (intro deleted [of "st2\<lparr>vs_audit := a\<rparr>" v]) (simp_all add: del)
      qed
    qed
  qed
qed

lemma RecoverVault_inv: "vault_inv st \<Longrightarrow> ve_tx env \<Longrightarrow> vault_inv (snd (RecoverVault env name st))"
proof -
  assume inv: "vault_inv st" and tx: "ve_tx env"
  show ?thesis
  proof (cases rule: RecoverVault_cases [OF tx, of name st])
    case (2 v at)
    then show ?thesis
      using vault_recovered_inv [OF inv 2(2)] by simp
  qed (simp add: inv)
qed

lemma create_row_cases:
  obtains (refused) e where "create_row env v st = (Some e, st)"
  | (created) "create_row env v st = (None, st\<lparr>vs_vaults := vs_vaults st @
        [v\<lparr>v_deleted := None, v_scheduled := None, v_updated := None, v_updated_by := None\<rparr>]\<rparr>)"
      "v_id v \<notin> v_id ` set (vs_vaults st)" "v_name v \<notin> v_name ` set (vs_vaults st)"
  by (cases "ve_fails env (VRow VaultInsert)";
      cases "v_id v \<in> v_id ` set (vs_vaults st) \<or> v_name v \<in> v_name ` set (vs_vaults st)")
    (auto simp: create_row_def vault_create_def)

lemma buildVault_row [simp]:
  "(buildVault env req p)\<lparr>v_deleted := None, v_scheduled := None, v_updated := None, v_updated_by := None\<rparr>
     = buildVault env req p"
  "v_id (buildVault env req p) = ve_fresh env 0" "v_created_by (buildVault env req p) = p"
  "v_deleted (buildVault env req p) = None" "v_scheduled (buildVault env req p) = None"
  by (simp_all add: buildVault_def)

lemma grant_creator_cases:
  obtains (refused) e st' where "grant_creator env p v st = (Some e, st')"
  | (granted) "grant_creator env p v st
      = (None, st\<lparr>vs_policies := vs_policies st @ [(creator_policy env p v)\<lparr>pol_created := ve_now env\<rparr>],
                  vs_roles := vs_roles st @ [(creator_role env p v)\<lparr>ra_created := ve_now env\<rparr>]\<rparr>)"
  by (cases "grant_creator env p v st"; cases "fst (grant_creator env p v st)")
    (auto simp: grant_creator_def pol_create_def role_create_def Let_def creator_policy_def creator_role_def
      split: if_splits)

text \<open>The state after a create.\<close>

definition vault_created :: "vault_env \<Rightarrow> vault \<Rightarrow> bool \<Rightarrow> vault_state \<Rightarrow> vault_state" where
  "vault_created env v granted st =
     (let st = st\<lparr>vs_vaults := vs_vaults st @ [v]\<rparr> in
      if granted then
        st\<lparr>vs_policies := vs_policies st @ [(creator_policy env (v_created_by v) v)\<lparr>pol_created := ve_now env\<rparr>],
           vs_roles := vs_roles st @ [(creator_role env (v_created_by v) v)\<lparr>ra_created := ve_now env\<rparr>]\<rparr>
      else st)"

lemma CreateVaultProvisioned_cases:
  obtains (failed) e where "CreateVaultProvisioned env req p q g st = (Inl e, st)"
  | (created) "CreateVaultProvisioned env req p q g st
        = (Inr (buildVault env req p), vault_created env (buildVault env req p) (q \<or> g) st)"
      "q \<longrightarrow> check_quota env p st = None" "q \<longrightarrow> cr_purge_protection req \<noteq> Some True"
      "ve_fresh env 0 \<notin> v_id ` set (vs_vaults st)" "cr_name req \<notin> v_name ` set (vs_vaults st)"
      "ValidateNewVaultName (cr_name req) = None"
proof (cases "ValidateNewVaultName (cr_name req) = None \<and> ValidateVaultTags (cr_tags req)
    \<and> (q \<longrightarrow> cr_purge_protection req \<noteq> Some True) \<and> (q \<or> g \<longrightarrow> ve_tx env) \<and> (q \<longrightarrow> ve_grant_locker env)")
  case False
  then have "\<exists>e. CreateVaultProvisioned env req p q g st = (Inl e, st)"
    by (auto simp: CreateVaultProvisioned_def CreateVault_def split: option.splits)
  then show thesis
    using failed by blast
next
  case ok: True
  let ?v = "buildVault env req p"
  have name: "v_name ?v = cr_name req"
    by (simp add: buildVault_def)
  show thesis
  proof (cases "q \<or> g")
    case False
    then have "CreateVaultProvisioned env req p q g st = (case create_row env ?v st of
        (Some e, _) \<Rightarrow> (Inl e, st) | (None, st') \<Rightarrow> (Inr ?v, st'))"
      using ok by (simp add: CreateVaultProvisioned_def CreateVault_def Let_def)
    then show thesis
      using False ok name
      by (cases rule: create_row_cases [of env ?v st]) (auto intro: failed created simp: vault_created_def Let_def)
  next
    case True
    define fn where "fn = (\<lambda>st. case (if q then check_quota env p st else None) of
                Some e \<Rightarrow> (Some e, st)
              | None \<Rightarrow>
                  (case create_row env ?v st of
                     (Some e, st) \<Rightarrow> (Some e, st)
                   | (None, st) \<Rightarrow> grant_creator env p ?v st))"
    have run: "CreateVaultProvisioned env req p q g st = (case withTx env fn st of
        (Some e, st') \<Rightarrow> (Inl e, st') | (None, st') \<Rightarrow> (Inr ?v, st'))"
      using True ok by (auto simp: CreateVaultProvisioned_def Let_def fn_def)
    show thesis
    proof (cases rule: withTx_cases [of env fn st])
      case (failed e)
      then show thesis
        using run by (intro that(1) [of e]) simp
    next
      case (committed st')
      then have q: "q \<longrightarrow> check_quota env p st = None"
        by (auto simp: fn_def split: option.splits if_splits)
      show thesis
      proof (cases rule: create_row_cases [of env ?v st])
        case (refused e)
        with committed(2) q show thesis
          by (cases q) (simp_all add: fn_def)
      next
        case row: created
        let ?st1 = "st\<lparr>vs_vaults := vs_vaults st @ [?v]\<rparr>"
        have gr: "grant_creator env p ?v ?st1 = (None, st')"
          using committed(2) q row(1) by (cases q) (simp_all add: fn_def)
        then have "st' = vault_created env ?v (q \<or> g) st"
          using True by (cases rule: grant_creator_cases [of env p ?v ?st1]) (auto simp: vault_created_def Let_def)
        then show thesis
          using run committed(1) q ok row name by (intro created) auto
      qed
    qed
  qed
qed

lemma vault_created_inv:
  assumes "vault_inv st" "v_id v \<notin> v_id ` set (vs_vaults st)" "v_name v \<notin> v_name ` set (vs_vaults st)"
    "v_scheduled v = None"
  shows "vault_inv (vault_created env v g st)"
  using assms by (auto simp: vault_inv_def vaults_wf_def cache_ok_def vault_created_def Let_def)

lemma CreateVaultProvisioned_inv: "vault_inv st \<Longrightarrow> vault_inv (snd (CreateVaultProvisioned env req p q g st))"
proof (cases rule: CreateVaultProvisioned_cases [of env req p q g st])
  case created
  then show "vault_inv st \<Longrightarrow> ?thesis"
    using vault_created_inv [of st "buildVault env req p" env "q \<or> g"] by (simp add: buildVault_def)
qed simp

lemma apply_update_keys: "apply_update req u v = Some v' \<Longrightarrow> v_id v' = v_id v"
  by (auto simp: apply_update_def Let_def split: option.splits if_splits)

lemma UpdateVault_cases:
  assumes "vault_inv st"
  obtains (failed) e st' where "UpdateVault env name req u st = (Inl e, st')" "rows_of st' = rows_of st" "vault_inv st'"
  | (updated) v w f st' where "UpdateVault env name req u st = (Inr w, st')" "v \<in> set (vs_vaults st)" "v_name v = name"
      "v_deleted v = None" "vault_inv st'"
      "rows_of st' = rows_of (st\<lparr>vs_vaults := set_rows (\<lambda>x. v_id x = v_id v) f (vs_vaults st)\<rparr>)"
      "\<And>x. v_id (f x) = v_id x \<and> v_name (f x) = v_name x \<and> v_created_by (f x) = v_created_by x
        \<and> v_deleted (f x) = v_deleted x \<and> v_scheduled (f x) = v_scheduled x"
proof -
  have ok: "cache_ok st"
    using assms by (simp add: vault_inv_def)
  show thesis
  proof (cases rule: getByName_cases [OF ok, of env name])
    case (1 e)
    with assms show thesis
      by (intro failed) (simp_all add: UpdateVault_def)
  next
    case (2 v c)
    let ?st1 = "st\<lparr>vs_cache := c\<rparr>"
    have inv1: "vault_inv ?st1"
      using assms 2(5) by (rule vault_inv_cache)
    show thesis
    proof (cases "apply_update req u v")
      case None
      with 2(1) inv1 show thesis
        by (intro failed) (simp_all add: UpdateVault_def)
    next
      case (Some v')
      show thesis
      proof (cases "ve_fails env (VRow VaultUpdate)")
        case True
        with Some 2(1) inv1 show thesis
          by (intro failed) (simp_all add: UpdateVault_def vault_update_def Let_def)
      next
        case False
        define f :: "vault \<Rightarrow> vault" where "f = (\<lambda>x. x\<lparr>v_enabled := v_enabled v', v_purge_protection := v_purge_protection v',
              v_retention_days := v_retention_days v', v_tags := v_tags v', v_updated := Some (ve_now env),
              v_updated_by := (case v_updated_by v' of None \<Rightarrow> None | Some u \<Rightarrow> if u = uuid_nil then None else Some u)\<rparr>)"
        let ?st2 = "Invalidate name (?st1\<lparr>vs_vaults := set_rows (\<lambda>x. v_id x = v_id v) f (vs_vaults st)\<rparr>)"
        have run: "UpdateVault env name req u st = (Inr (v'\<lparr>v_updated := Some (ve_now env)\<rparr>), ?st2)"
          using 2(1) Some False apply_update_keys [OF Some]
          by (simp add: UpdateVault_def vault_update_def Let_def f_def)
        have "vault_inv ?st2"
          by (rule vault_inv_set_rows [where st = ?st1 and v = v and P = "\<lambda>_. True" and f = f])
            (use inv1 2(2,3) in \<open>simp_all add: f_def Invalidate_def\<close>)
        then show thesis
          using 2 by (intro updated [OF run, where v = v and f = f]) (simp_all add: f_def rows_of_def Invalidate_def)
      qed
    qed
  qed
qed

section \<open>Purge\<close>

definition others_same :: "uuid \<Rightarrow> vault_state \<Rightarrow> vault_state \<Rightarrow> bool" where
  "others_same i st st' \<longleftrightarrow>
     filter (\<lambda>v. v_id v \<noteq> i) (vs_vaults st') = filter (\<lambda>v. v_id v \<noteq> i) (vs_vaults st)
     \<and> (\<forall>k. filter (\<lambda>r. it_vault r \<noteq> i) (tb_rows (vs_items st' k)) = filter (\<lambda>r. it_vault r \<noteq> i) (tb_rows (vs_items st k)))
     \<and> filter (\<lambda>p. pol_vault p \<noteq> Some i) (vs_policies st') = filter (\<lambda>p. pol_vault p \<noteq> Some i) (vs_policies st)
     \<and> filter (\<lambda>ra. ra_vault ra \<noteq> i) (vs_roles st') = filter (\<lambda>ra. ra_vault ra \<noteq> i) (vs_roles st)
     \<and> filter (\<lambda>w. w \<noteq> i) (vs_webhooks st') = filter (\<lambda>w. w \<noteq> i) (vs_webhooks st)
     \<and> vs_grants st' = vs_grants st"

lemma PurgeContents_others:
  "filter (\<lambda>r. it_vault r \<noteq> i) (tb_rows (vs_items (snd (PurgeContents env i st)) k))
     = filter (\<lambda>r. it_vault r \<noteq> i) (tb_rows (vs_items st k))"
  unfolding PurgeContents_def
  by (rule on_items_rel [where R = "\<lambda>k t t'. filter (\<lambda>r. it_vault r \<noteq> i) (tb_rows t') = filter (\<lambda>r. it_vault r \<noteq> i) (tb_rows t)"])
    (simp_all add: purgeVaultContents_def Let_def)

text \<open>Whatever fails on the way, a purge touches the rows of its vault only, and drops it from the cache
  when it drops the row.\<close>

lemma purgeVaultRows_any:
  obtains e where "purgeVaultRows env v name st = (Some e, st)"
  | "others_same (v_id v) st (snd (purgeVaultRows env v name st))"
    "vs_vaults (snd (purgeVaultRows env v name st)) = filter (\<lambda>x. v_id x \<noteq> v_id v) (vs_vaults st)"
    "vs_cache (snd (purgeVaultRows env v name st)) = (vs_cache st)(name := None)"
proof (cases "ve_fails env (VRow VaultPurge)")
  case True
  then show thesis
    by (intro that(1)) (simp add: purgeVaultRows_def vault_purge_def)
next
  case False
  let ?s0 = "Invalidate name (st\<lparr>vs_vaults := filter (\<lambda>x. v_id x \<noteq> v_id v) (vs_vaults st)\<rparr>)"
  obtain e st1 where pc: "PurgeContents env (v_id v) ?s0 = (e, st1)"
    by fastforce
  have st1: "vs_vaults st1 = filter (\<lambda>x. v_id x \<noteq> v_id v) (vs_vaults st)" "vs_policies st1 = vs_policies st"
    "vs_roles st1 = vs_roles st" "vs_webhooks st1 = vs_webhooks st" "vs_grants st1 = vs_grants st"
    "vs_cache st1 = (vs_cache st)(name := None)"
    using pc on_items_view [of "\<lambda>k. purgeVaultContents (\<lambda>s. ve_fails env (VItem k s)) (crud k) (v_id v)" ?s0]
    by (simp_all add: PurgeContents_def Invalidate_def)
  have items: "filter (\<lambda>r. it_vault r \<noteq> v_id v) (tb_rows (vs_items st1 k))
      = filter (\<lambda>r. it_vault r \<noteq> v_id v) (tb_rows (vs_items st k))" for k
    using PurgeContents_others [of "v_id v" env ?s0 k] pc by (simp add: Invalidate_def)
  have run: "snd (purgeVaultRows env v name st) \<in>
     {st1, st1\<lparr>vs_policies := filter (\<lambda>p. pol_vault p \<noteq> Some (v_id v)) (vs_policies st1)\<rparr>,
      st1\<lparr>vs_policies := filter (\<lambda>p. pol_vault p \<noteq> Some (v_id v)) (vs_policies st1),
          vs_roles := filter (\<lambda>ra. ra_vault ra \<noteq> v_id v) (vs_roles st1)\<rparr>,
      st1\<lparr>vs_policies := filter (\<lambda>p. pol_vault p \<noteq> Some (v_id v)) (vs_policies st1),
          vs_roles := filter (\<lambda>ra. ra_vault ra \<noteq> v_id v) (vs_roles st1),
          vs_webhooks := filter (\<lambda>w. w \<noteq> v_id v) (vs_webhooks st1)\<rparr>}"
    using pc False by (cases e) (simp_all add: purgeVaultRows_def vault_purge_def pol_delete_by_vault_def
        role_delete_by_vault_def Let_def)
  then show thesis
    using st1 items by (intro that(2)) (auto simp: others_same_def)
qed

lemma any_protected_False:
  "any_protected env i ks ts = Inr False \<Longrightarrow> k \<in> set ks \<Longrightarrow> r \<in> set (tb_rows (ts k)) \<Longrightarrow> it_vault r = i \<Longrightarrow> \<not> it_protected r"
proof (induction ks)
  case (Cons x ks)
  then show ?case
    by (auto simp: hasProtectedContent_def list_ex_iff split: if_splits bool.splits)
qed simp

lemma PurgeVault_cases:
  assumes "vault_inv st"
  obtains (failed) e st' where "PurgeVault env name actor st = (Some e, st')" "rows_of st' = rows_of st" "vault_inv st'"
  | (ran) v e st' where "PurgeVault env name actor st = (e, st')" "v \<in> set (vs_vaults st)" "v_name v = name"
      "name \<noteq> DefaultVaultName" "\<not> ve_global_purge_protection env"
      "\<not> v_purge_protection v" "\<And>k r. r \<in> set (tb_rows (vs_items st k)) \<Longrightarrow> it_vault r = v_id v \<Longrightarrow> \<not> it_protected r"
      "others_same (v_id v) st st'" "vault_inv st'"
      "vs_vaults st' = filter (\<lambda>x. v_id x \<noteq> v_id v) (vs_vaults st)"
      "e = None \<Longrightarrow> rows_of st' = rows_of (vault_purged (v_id v) st)"
proof (cases "ve_global_purge_protection env \<or> name = DefaultVaultName")
  case True
  then have "\<exists>e. PurgeVault env name actor st = (Some e, st)"
    by (auto simp: PurgeVault_def)
  with assms show thesis
    using failed by blast
next
  case guard: False
  have ok: "cache_ok st"
    using assms by (simp add: vault_inv_def)
  consider (none) e st1 where "purge_target env name st = (Inl e, st1)" "rows_of st1 = rows_of st" "vault_inv st1"
    | (target) v c where "purge_target env name st = (Inr v, st\<lparr>vs_cache := c\<rparr>)" "v \<in> set (vs_vaults st)" "v_name v = name"
        "vault_inv (st\<lparr>vs_cache := c\<rparr>)"
  proof (cases "findDeleted env name st")
    case (Inr v)
    with findDeleted_Inr [OF Inr] assms show thesis
      by (intro target [of v "vs_cache st"]) (simp_all add: purge_target_def)
  next
    case (Inl e)
    show thesis
    proof (cases rule: getByName_cases [OF ok, of env name])
      case (1 e')
      then have "\<exists>e''. purge_target env name st = (Inl e'', st)"
        using Inl by (simp add: purge_target_def)
      with assms show thesis
        using none by blast
    next
      case (2 v c)
      show thesis
      proof (cases "e = VErrVaultNotFound")
        case True
        with Inl 2 assms show thesis
          by (intro target [of v c]) (simp_all add: purge_target_def vault_inv_cache)
      next
        case False
        with Inl assms show thesis
          by (intro none [of e st]) (simp_all add: purge_target_def)
      qed
    qed
  qed
  then show thesis
  proof cases
    case none
    with guard show thesis
      by (intro failed [of "OpError e" st1]) (simp_all add: PurgeVault_def)
  next
    case target
    let ?st1 = "st\<lparr>vs_cache := c\<rparr>"
    show thesis
    proof (cases "\<not> v_purge_protection v \<and> HasProtectedContent env (v_id v) ?st1 = Inr False")
      case False
      then have "\<exists>e. PurgeVault env name actor st = (Some e, ?st1)"
        using guard target(1) by (auto simp: PurgeVault_def split: sum.splits bool.splits)
      with target(4) show thesis
        using failed rows_of_simps(1) by metis
    next
      case clear: True
      have prot: "\<not> it_protected r" if "r \<in> set (tb_rows (vs_items st k))" "it_vault r = v_id v" for k r
        using clear that by (auto simp: HasProtectedContent_def dest: any_protected_False [where k = k])
      have run: "PurgeVault env name actor st
          = runCriticalVault env ''purge_vault'' v actor (purgeVaultRows env v name) ?st1"
        using guard target(1) clear by (simp add: PurgeVault_def)
      show thesis
      proof (cases rule: runCriticalVault_cases [of env "''purge_vault''" v actor "purgeVaultRows env v name" ?st1])
        case refused
        with run target(4) show thesis
          by (intro failed [of ErrAuditUnavailable ?st1]) simp_all
      next
        case (ran r st2 a)
        let ?st2 = "audit_vault actor ''purge_vault'' v OutcomeAttempt ?st1"
        have st2: "st2 = snd (purgeVaultRows env v name ?st2)"
          using ran(1) by simp
        show thesis
        proof (cases rule: purgeVaultRows_any [of env v name ?st2])
          case (1 e)
          then have "r = Some e" "st2 = ?st2"
            using ran(1) by simp_all
          then show thesis
            using ran(2) run target(4) by (intro failed [of "OpError e" "st2\<lparr>vs_audit := a\<rparr>"]) simp_all
        next
          case 2
          have inv2: "vault_inv st2"
            by (rule vault_inv_filter [where st = ?st1 and v = v])
              (use target(2,3,4) 2(2,3) st2 in simp_all)
          have vt: "vs_vaults (st2\<lparr>vs_audit := a\<rparr>) = filter (\<lambda>x. v_id x \<noteq> v_id v) (vs_vaults st)"
            using 2(2) st2 by simp
          have same: "others_same (v_id v) st (st2\<lparr>vs_audit := a\<rparr>)"
            using 2(1) st2 by (simp add: others_same_def)
          have "rows_of (st2\<lparr>vs_audit := a\<rparr>) = rows_of (vault_purged (v_id v) st)" if "r = None"
          proof -
            have "st2 = Invalidate name (vault_purged (v_id v) ?st2)"
              using that ran(1) by (intro purgeVaultRows_None) simp
            then have "rows_of st2 = rows_of (vault_purged (v_id v) ?st2)"
              by (metis rows_of_simps(3))
            also have "\<dots> = rows_of (vault_purged (v_id v) st)"
              by (rule rows_of_effects) simp
            finally show ?thesis
              by simp
          qed
          with run ran(2) target(2,3) guard clear prot same inv2 vt show thesis
            by (intro that(2) [of "map_option OpError r" "st2\<lparr>vs_audit := a\<rparr>" v]) simp_all
        qed
      qed
    qed
  qed
qed

end
