(* ===== verification/VaultRuns.thy ===== *)
theory VaultRuns
  imports Vaults
begin

text \<open>
  Runs of vault operations, and what every run keeps: the cache agrees with the
  table, quotas hold, protected contents stay.  Then the single operations:
  delete and recover are inverse, purge removes exactly one vault, a failed
  operation changes no row.

  The container always wires transactions (\<open>src/internal/container/service_container.go\<close>),
  so the environments of a run have \<open>ve_tx\<close>.
\<close>

section \<open>Runs\<close>

datatype vault_event =
    EvCreate vault_env create_vault_request uuid bool bool
  | EvGet vault_env go_string
  | EvUpdate vault_env go_string update_vault_request uuid
  | EvDelete vault_env go_string uuid
  | EvRecover vault_env go_string
  | EvPurge vault_env go_string uuid

definition wired :: "vault_env \<Rightarrow> vault_env" where
  "wired env = env\<lparr>ve_tx := True\<rparr>"

lemma wired_tx [simp]: "ve_tx (wired env)"
  by (simp add: wired_def)

fun vault_step :: "vault_event \<Rightarrow> vault_state \<Rightarrow> vault_state" where
  "vault_step (EvCreate env req p q g) st = snd (CreateVaultProvisioned (wired env) req p q g st)"
| "vault_step (EvGet env name) st = snd (GetVault (wired env) name st)"
| "vault_step (EvUpdate env name req u) st = snd (UpdateVault (wired env) name req u st)"
| "vault_step (EvDelete env name actor) st = snd (DeleteVault (wired env) name actor st)"
| "vault_step (EvRecover env name) st = snd (RecoverVault (wired env) name st)"
| "vault_step (EvPurge env name actor) st = snd (PurgeVault (wired env) name actor st)"

text \<open>One step, seen from the rows.\<close>

lemma vault_step_cases:
  assumes "vault_inv st"
  obtains (none) "rows_of (vault_step e st) = rows_of st" "vault_inv (vault_step e st)"
  | (create) env req p q g where "e = EvCreate env req p q g"
      "vault_step e st = vault_created (wired env) (buildVault (wired env) req p) (q \<or> g) st"
      "q \<longrightarrow> check_quota (wired env) p st = None" "vault_inv (vault_step e st)"
  | (update) v f where "v \<in> set (vs_vaults st)" "vault_inv (vault_step e st)"
      "rows_of (vault_step e st) = rows_of (st\<lparr>vs_vaults := set_rows (\<lambda>x. v_id x = v_id v) f (vs_vaults st)\<rparr>)"
      "\<And>x. v_id (f x) = v_id x \<and> v_name (f x) = v_name x \<and> v_created_by (f x) = v_created_by x
        \<and> v_deleted (f x) = v_deleted x \<and> v_scheduled (f x) = v_scheduled x"
  | (delete) v s t where "v \<in> set (vs_vaults st)" "vault_inv (vault_step e st)"
      "rows_of (vault_step e st) = rows_of (vault_deleted s t (v_id v) st)"
  | (recover) v s t where "v \<in> set (vs_vaults st)" "vault_inv (vault_step e st)"
      "rows_of (vault_step e st) = rows_of (vault_recovered s t (v_id v) st)"
  | (purge) v where "v \<in> set (vs_vaults st)" "vault_inv (vault_step e st)" "\<not> v_purge_protection v"
      "\<And>k r. r \<in> set (tb_rows (vs_items st k)) \<Longrightarrow> it_vault r = v_id v \<Longrightarrow> \<not> it_protected r"
      "others_same (v_id v) st (vault_step e st)"
      "vs_vaults (vault_step e st) = filter (\<lambda>x. v_id x \<noteq> v_id v) (vs_vaults st)"
proof (cases e)
  case (EvCreate env req p q g)
  then show thesis
    using assms CreateVaultProvisioned_inv [OF assms, of "wired env" req p q g]
    by (cases rule: CreateVaultProvisioned_cases [of "wired env" req p q g st])
      (auto intro: none create [of env req p q g])
next
  case (EvGet env name)
  have ok: "cache_ok st"
    using assms by (simp add: vault_inv_def)
  from EvGet assms show thesis
    by (cases rule: getByName_cases [OF ok, of "wired env" name])
      (auto simp: GetVault_def vault_inv_cache intro!: none)
next
  case (EvUpdate env name req u)
  then show thesis
    by (cases rule: UpdateVault_cases [OF assms, of "wired env" name req u]) (auto intro: none update)
next
  case (EvDelete env name actor)
  then show thesis
    by (cases rule: DeleteVault_cases [OF assms wired_tx, of env name actor]) (auto intro: none delete)
next
  case (EvRecover env name)
  have inv: "vault_inv (vault_step e st)"
    using EvRecover RecoverVault_inv [OF assms wired_tx] by simp
  show thesis
  proof (cases rule: RecoverVault_cases [OF wired_tx, of env name st])
    case (1 er)
    with EvRecover inv show thesis
      by (intro none) simp_all
  next
    case (2 v at)
    with EvRecover inv show thesis
      by (intro recover [OF 2(2)]) simp_all
  qed
next
  case (EvPurge env name actor)
  show thesis
  proof (cases rule: PurgeVault_cases [OF assms, of "wired env" name actor])
    case (1 er st')
    with EvPurge show thesis
      by (intro none) simp_all
  next
    case (2 v er st')
    with EvPurge show thesis
      by (intro purge [OF 2(2)]) auto
  qed
qed

lemma vault_step_inv: "vault_inv st \<Longrightarrow> vault_inv (vault_step e st)"
  by (rule vault_step_cases [of st e]) simp_all

interpretation vault_run: step_system vault_step vault_inv
  by unfold_locales (rule vault_step_inv)

section \<open>What a run keeps\<close>

text \<open>The vaults a principal has created and not purged.\<close>

definition created_count :: "uuid \<Rightarrow> vault_state \<Rightarrow> int" where
  "created_count p st = int (length (filter (\<lambda>v. v_created_by v = p) (vs_vaults st)))"

definition quota_of :: "uuid \<Rightarrow> vault_state \<Rightarrow> int" where
  "quota_of p st = (case vs_grants st p of None \<Rightarrow> 0 | Some g \<Rightarrow> pg_quota g)"

text \<open>Every create by \<open>p\<close> goes through its grant.\<close>

fun bounded_for :: "uuid \<Rightarrow> vault_event \<Rightarrow> bool" where
  "bounded_for p (EvCreate env req u q g) \<longleftrightarrow> (u = p \<longrightarrow> q)"
| "bounded_for p _ \<longleftrightarrow> True"

lemma check_quota_None: "check_quota env p st = None \<Longrightarrow> created_count p st < quota_of p st"
  by (auto simp: check_quota_def LockAndReadQuotaTx_def CountByCreatedBy_def created_count_def quota_of_def
      split: if_splits option.splits sum.splits)

lemma created_count_set_rows:
  "(\<And>v. v_created_by (f v) = v_created_by v) \<Longrightarrow>
     length (filter (\<lambda>v. v_created_by v = p) (set_rows P f tbl)) = length (filter (\<lambda>v. v_created_by v = p) tbl)"
  by (induction tbl) (auto simp: set_rows_def)

lemma quota_step:
  assumes "vault_inv st" "bounded_for p e" "created_count p st \<le> max m (quota_of p st)"
  shows "created_count p (vault_step e st) \<le> max m (quota_of p (vault_step e st))"
    and "quota_of p (vault_step e st) = quota_of p st"
proof -
  have "created_count p (vault_step e st) \<le> max m (quota_of p (vault_step e st))
    \<and> quota_of p (vault_step e st) = quota_of p st"
  proof (cases rule: vault_step_cases [OF assms(1), of e])
    case none: 1
    with assms(3) show ?thesis
      by (simp add: rows_of_def created_count_def quota_of_def)
  next
    case create: (2 env req u q g)
    have rows: "vs_vaults (vault_step e st) = vs_vaults st @ [buildVault (wired env) req u]"
      "vs_grants (vault_step e st) = vs_grants st"
      by (simp_all add: create(2) vault_created_def Let_def)
    show ?thesis
    proof (cases "u = p")
      case True
      then have "q"
        using assms(2) create(1) by simp
      with create(3) True have "created_count p st < quota_of p st"
        using check_quota_None by blast
      with rows True show ?thesis
        by (simp add: created_count_def quota_of_def)
    next
      case False
      with rows assms(3) show ?thesis
        by (simp add: created_count_def quota_of_def)
    qed
  next
    case update: (3 v f)
    then show ?thesis
      using assms(3) by (simp add: rows_of_def created_count_def quota_of_def created_count_set_rows)
  next
    case delete: (4 v s t)
    then show ?thesis
      using assms(3) by (simp add: rows_of_def created_count_def quota_of_def created_count_set_rows vault_deleted_def)
  next
    case recover: (5 v s t)
    then show ?thesis
      using assms(3) by (simp add: rows_of_def created_count_def quota_of_def created_count_set_rows vault_recovered_def)
  next
    case purge: (6 v)
    have "length (filter (\<lambda>v. v_created_by v = p) (filter P tbl)) \<le> length (filter (\<lambda>v. v_created_by v = p) tbl)"
      for P :: "vault \<Rightarrow> bool" and tbl
      by (induction tbl) auto
    then have "created_count p (vault_step e st) \<le> created_count p st"
      using purge(6) by (simp add: created_count_def)
    with purge(5) assms(3) show ?thesis
      by (simp add: others_same_def quota_of_def)
  qed
  then show "created_count p (vault_step e st) \<le> max m (quota_of p (vault_step e st))"
    and "quota_of p (vault_step e st) = quota_of p st"
    by blast+
qed

text \<open>The items of a vault, by id, and whether one of them is protected.\<close>

definition items_in :: "uuid \<Rightarrow> vault_state \<Rightarrow> item_kind \<Rightarrow> (uuid \<times> bool) list" where
  "items_in i st k = map (\<lambda>r. (it_id r, it_protected r)) (filter (\<lambda>r. it_vault r = i) (tb_rows (vs_items st k)))"

definition holds_protected :: "uuid \<Rightarrow> vault_state \<Rightarrow> bool" where
  "holds_protected i st \<longleftrightarrow>
     i \<in> v_id ` set (vs_vaults st) \<and> (\<exists>k x. (x, True) \<in> set (items_in i st k))"

lemma items_in_update:
  assumes "\<And>r. it_id (f r) = it_id r \<and> it_vault (f r) = it_vault r \<and> it_protected (f r) = it_protected r"
  shows "map (\<lambda>r. (it_id r, it_protected r)) (filter (\<lambda>r. it_vault r = i) (tb_rows (update_rows P f t)))
       = map (\<lambda>r. (it_id r, it_protected r)) (filter (\<lambda>r. it_vault r = i) (tb_rows t))"
proof -
  have "map (\<lambda>r. (it_id r, it_protected r)) (filter (\<lambda>r. it_vault r = i) (map (\<lambda>r. if P r then f r else r) rs))
      = map (\<lambda>r. (it_id r, it_protected r)) (filter (\<lambda>r. it_vault r = i) rs)" for rs
    using assms by (induction rs) auto
  then show ?thesis
    by simp
qed

lemma protected_step:
  assumes "vault_inv st" "holds_protected i st"
  shows "items_in i (vault_step e st) = items_in i st" "i \<in> v_id ` set (vs_vaults (vault_step e st))"
proof -
  have "items_in i (vault_step e st) = items_in i st \<and> i \<in> v_id ` set (vs_vaults (vault_step e st))"
  proof (cases rule: vault_step_cases [OF assms(1), of e])
    case none: 1
    with assms(2) show ?thesis
      by (simp add: rows_of_def items_in_def holds_protected_def fun_eq_iff)
  next
    case create: (2 env req u q g)
    with assms(2) show ?thesis
      by (simp add: vault_created_def Let_def items_in_def holds_protected_def fun_eq_iff)
  next
    case update: (3 v f)
    then have "map v_id (set_rows (\<lambda>x. v_id x = v_id v) f (vs_vaults st)) = map v_id (vs_vaults st)"
      by (intro set_rows_keys) simp
    then have "v_id ` set (vs_vaults (vault_step e st)) = v_id ` set (vs_vaults st)"
      using update(3) by (metis (no_types, lifting) Pair_inject list.set_map rows_of_def vault_state.select_convs(1)
          vault_state.surjective vault_state.update_convs(1))
    with assms(2) update(3) show ?thesis
      by (simp add: rows_of_def items_in_def holds_protected_def fun_eq_iff)
  next
    case delete: (4 v s t)
    have "map v_id (vs_vaults (vault_step e st)) = map v_id (vs_vaults st)"
      using delete(3) by (simp add: rows_of_def vault_deleted_def)
    then have "v_id ` set (vs_vaults (vault_step e st)) = v_id ` set (vs_vaults st)"
      by (metis list.set_map)
    with assms(2) delete(3) show ?thesis
      by (simp add: rows_of_def items_in_def holds_protected_def fun_eq_iff vault_deleted_def items_in_update
          del: update_rows_simps)
  next
    case recover: (5 v s t)
    have "map v_id (vs_vaults (vault_step e st)) = map v_id (vs_vaults st)"
      using recover(3) by (simp add: rows_of_def vault_recovered_def)
    then have "v_id ` set (vs_vaults (vault_step e st)) = v_id ` set (vs_vaults st)"
      by (metis list.set_map)
    with assms(2) recover(3) show ?thesis
      by (simp add: rows_of_def items_in_def holds_protected_def fun_eq_iff vault_recovered_def items_in_update
          revive_def del: update_rows_simps)
  next
    case purge: (6 v)
    have "i \<noteq> v_id v"
      using assms(2) purge(4) by (auto simp: holds_protected_def items_in_def)
    have sub: "filter (\<lambda>r. it_vault r = i) (filter (\<lambda>r. it_vault r \<noteq> v_id v) xs) = filter (\<lambda>r. it_vault r = i) xs" for xs
      using \<open>i \<noteq> v_id v\<close> by (induction xs) auto
    have "filter (\<lambda>r. it_vault r = i) (tb_rows (vs_items (vault_step e st) k))
        = filter (\<lambda>r. it_vault r = i) (tb_rows (vs_items st k))" for k
    proof -
      have "filter (\<lambda>r. it_vault r \<noteq> v_id v) (tb_rows (vs_items (vault_step e st) k))
          = filter (\<lambda>r. it_vault r \<noteq> v_id v) (tb_rows (vs_items st k))"
        using purge(5) unfolding others_same_def by (elim conjE allE [of _ k])
      from arg_cong [OF this, of "filter (\<lambda>r. it_vault r = i)"] show ?thesis
        by (simp only: sub)
    qed
    then have "items_in i (vault_step e st) = items_in i st"
      by (simp add: items_in_def fun_eq_iff)
    moreover have "i \<in> v_id ` set (vs_vaults (vault_step e st))"
      using assms(2) purge(6) \<open>i \<noteq> v_id v\<close> by (force simp: holds_protected_def)
    ultimately show ?thesis
      by blast
  qed
  then show "items_in i (vault_step e st) = items_in i st" "i \<in> v_id ` set (vs_vaults (vault_step e st))"
    by blast+
qed

section \<open>An example\<close>

text \<open>Two vaults, one with a protected secret; every statement succeeds.\<close>

definition sample_vault :: "uuid \<Rightarrow> go_string \<Rightarrow> vault" where
  "sample_vault i name =
     \<lparr>v_id = i, v_name = name, v_enabled = True, v_purge_protection = False, v_retention_days = 90,
      v_created_by = 9, v_created = 1, v_deleted = None, v_scheduled = None, v_tags = [],
      v_updated = None, v_updated_by = None\<rparr>"

definition sample_item :: "uuid \<Rightarrow> uuid \<Rightarrow> bool \<Rightarrow> go_string item_row" where
  "sample_item i v p =
     \<lparr>it_id = i, it_vault = v, it_deleted = None, it_scheduled = None, it_protected = p, it_body = ''x''\<rparr>"

definition sample_state :: vault_state where
  "sample_state =
     \<lparr>vs_vaults = [sample_vault 1 ''default'', sample_vault 2 ''team''],
      vs_items = (\<lambda>k. \<lparr>tb_rows = (if k = Secrets then [sample_item 11 1 True, sample_item 12 2 False] else []),
                       tb_tags = [], tb_versions = []\<rparr>),
      vs_policies = [], vs_roles = [], vs_webhooks = [2],
      vs_grants = (\<lambda>p. if p = 9 then Some \<lparr>pg_id = 5, pg_principal = 9, pg_quota = 3, pg_created = 1, pg_created_by = 8\<rparr>
                       else None),
      vs_cache = (\<lambda>name. None), vs_audit = []\<rparr>"

definition steady_vaults :: vault_env where
  "steady_vaults =
     \<lparr>ve_fails = (\<lambda>_. False), ve_now = 100, ve_stamp = (\<lambda>t. t), ve_fresh = (\<lambda>n. 20 + word_of_nat n),
      ve_cache_hit = True, ve_tx = True, ve_grant_locker = True, ve_creator_granter = True,
      ve_global_purge_protection = False\<rparr>"

lemma sample_inv [simp]: "vault_inv sample_state"
  by (simp add: vault_inv_def vaults_wf_def cache_ok_def sample_state_def sample_vault_def)

text \<open>What evaluates an operation on the example.\<close>

lemmas vault_eval = DeleteVault_def RecoverVault_def PurgeVault_def GetVault_def getByName_def ReadByName_def ReadByID_def
  findDeleted_def ListDeleted_def by_name_def purge_target_def HasProtectedContent_def hasProtectedContent_def
  runCriticalVault_def WithCritical_def RecordAttempt_def softDeleteVault_def withTx_def soft_delete_rows_def
  vault_soft_delete_def SoftDeleteContents_def softDeleteVaultContents_def recover_rows_def vault_recover_def
  RecoverContents_def recoverVaultContents_def purgeVaultRows_def vault_purge_def PurgeContents_def
  purgeVaultContents_def crud_def pol_delete_by_vault_def role_delete_by_vault_def on_items_def cascade_kinds_def
  audit_vault_def Invalidate_def set_rows_def Let_def DefaultVaultName_def

lemmas sample_eval = vault_eval sample_state_def sample_vault_def sample_item_def steady_vaults_def

section \<open>Properties of runs\<close>

text \<open>What the table says a read by name returns.\<close>

definition active_vault :: "go_string \<Rightarrow> vault_state \<Rightarrow> vault_error + vault" where
  "active_vault name st =
     (case find (\<lambda>v. v_name v = name \<and> v_deleted v = None) (vs_vaults st) of
        None \<Rightarrow> Inl VErrVaultNotFound | Some v \<Rightarrow> Inr v)"

lemma getByName_active:
  assumes "vault_inv st" "\<not> ve_fails env (VRow VaultReadName)"
  shows "fst (getByName env name st) = active_vault name st"
proof (cases "if ve_cache_hit env then vs_cache st name else None")
  case None
  with assms(2) show ?thesis
    by (auto simp: getByName_def ReadByName_def active_vault_def split: option.split)
next
  case (Some v)
  then have hit: "ve_cache_hit env" and c: "vs_cache st name = Some v"
    by (simp_all split: if_splits)
  then have v: "v \<in> set (vs_vaults st)" "v_name v = name" "v_deleted v = None"
    using assms(1) by (auto simp: vault_inv_def cache_ok_def)
  have wf: "vaults_wf (vs_vaults st)"
    using assms(1) by (simp add: vault_inv_def)
  have "find (\<lambda>v. v_name v = name \<and> v_deleted v = None) (vs_vaults st) = Some v"
    by (rule find_unique [OF v(1)]) (use v vaults_wf_inj [OF wf _ v(1)] in auto)
  with hit c show ?thesis
    by (simp add: getByName_def active_vault_def)
qed

text \<open>C20: After any run of vault operations, whatever failed on the way, a read by
  name answers what the table holds, whether the cache answers or the database.\<close>
theorem vault_cache_coherent:
  assumes "vault_inv st" "\<not> ve_fails env (VRow VaultReadName)"
  shows "fst (GetVault env name (fold vault_step es st)) = active_vault name (fold vault_step es st)"
  using getByName_active [OF vault_run.run_inv [OF assms(1)] assms(2)] by (simp add: GetVault_def)

theorem vault_cache_coherent_witness:
  "fst (GetVault steady_vaults ''team'' (fold vault_step
     [EvGet steady_vaults ''team'', EvDelete steady_vaults ''team'' 9] sample_state))
   = active_vault ''team'' (fold vault_step
     [EvGet steady_vaults ''team'', EvDelete steady_vaults ''team'' 9] sample_state)"
  by (rule vault_cache_coherent) (simp_all add: steady_vaults_def)

text \<open>C21: A principal all of whose vaults are created through its provisioning grant never has more
  vaults than its quota, soft-deleted ones included, or than it had at the start.\<close>
theorem quota_never_exceeded:
  assumes "vault_inv st" "\<forall>e\<in>set es. bounded_for p e"
  shows "created_count p (fold vault_step es st) \<le> max (created_count p st) (quota_of p st)"
proof -
  have "vault_inv st \<Longrightarrow> \<forall>e\<in>set es. bounded_for p e \<Longrightarrow> created_count p st \<le> max m (quota_of p st) \<Longrightarrow>
      created_count p (fold vault_step es st) \<le> max m (quota_of p st)" for m
  proof (induction es arbitrary: st)
    case (Cons e es)
    then have "bounded_for p e"
      by simp
    with Cons.prems quota_step [of st p e m] Cons.IH [of "vault_step e st"] vault_step_inv show ?case
      by simp
  qed simp
  from this [OF assms] show ?thesis
    by simp
qed

theorem quota_never_exceeded_witness:
  "created_count 9 (fold vault_step
     [EvCreate steady_vaults \<lparr>cr_name = ''third'', cr_enabled = None, cr_purge_protection = None,
        cr_retention_days = None, cr_tags = []\<rparr> 9 True True,
      EvPurge steady_vaults ''team'' 9] sample_state) \<le> 3"
proof -
  have "max (created_count 9 sample_state) (quota_of 9 sample_state) = 3"
    by (simp add: created_count_def quota_of_def sample_state_def sample_vault_def)
  with quota_never_exceeded [of sample_state _ 9] show ?thesis
    by (metis (no_types, lifting) bounded_for.simps(1,6) empty_iff empty_set sample_inv set_ConsD)
qed

text \<open>C22: A vault that holds an item under purge protection keeps its row and all its items, with their
  protection, through any run of vault operations: no delete, recover or purge removes them.\<close>
theorem protected_contents_survive:
  assumes "vault_inv st" "holds_protected i st"
  shows "items_in i (fold vault_step es st) = items_in i st \<and> holds_protected i (fold vault_step es st)"
  using assms
proof (induction es arbitrary: st)
  case (Cons e es)
  from protected_step [OF Cons.prems, of e] Cons.prems(2) have "holds_protected i (vault_step e st)"
    by (simp add: holds_protected_def)
  with Cons.IH [OF vault_step_inv [OF Cons.prems(1)] this] protected_step [OF Cons.prems, of e] show ?case
    by simp
qed simp

theorem protected_contents_survive_witness:
  "items_in 1 (fold vault_step
     [EvUpdate steady_vaults ''default'' \<lparr>ur_enabled = Some False, ur_purge_protection = Some False,
        ur_retention_days = None, ur_tags = None\<rparr> 9, EvPurge steady_vaults ''default'' 9] sample_state) Secrets
   = [(11, True)]"
proof -
  have i: "items_in 1 sample_state Secrets = [(11, True)]"
    by (simp add: items_in_def sample_state_def sample_item_def)
  then have "holds_protected 1 sample_state"
    unfolding holds_protected_def by (intro conjI exI [of _ Secrets] exI [of _ 11]) (simp_all add: sample_state_def sample_vault_def)
  from protected_contents_survive [OF sample_inv this] i show ?thesis
    by (simp only:)
qed

section \<open>Properties of single operations\<close>

text \<open>No item of the vaults called \<open>name\<close> carries the stamp \<open>t\<close> already, and none that is active is
  scheduled for purge.\<close>

definition quiet :: "instant \<Rightarrow> go_string \<Rightarrow> vault_state \<Rightarrow> bool" where
  "quiet t name st \<longleftrightarrow>
     (\<forall>v\<in>set (vs_vaults st). v_name v = name \<longrightarrow>
        (\<forall>k. \<forall>r\<in>set (tb_rows (vs_items st k)). it_vault r = v_id v \<longrightarrow>
           it_deleted r \<noteq> Some t \<and> (it_deleted r = None \<longrightarrow> it_scheduled r = None)))"

lemma items_delete_recover:
  fixes t :: "'b item_table"
  assumes "\<And>r. r \<in> set (tb_rows t) \<Longrightarrow> it_vault r = i \<Longrightarrow>
      it_deleted r \<noteq> Some x \<and> (it_deleted r = None \<longrightarrow> it_scheduled r = None)"
  shows "update_rows (\<lambda>r. it_vault r = i \<and> it_deleted r = Some x) revive
           (update_rows (\<lambda>r. it_vault r = i \<and> it_deleted r = None) (\<lambda>r. r\<lparr>it_deleted := Some x\<rparr>) t) = t"
proof -
  have undone: "r\<lparr>it_deleted := None, it_scheduled := None\<rparr> = r" if "it_deleted r = None" "it_scheduled r = None" for r :: "'b item_row"
    using that by (cases r) simp
  have "(if it_vault y = i \<and> it_deleted y = Some x then revive y else y) = r"
    if "r \<in> set (tb_rows t)" "y = (if it_vault r = i \<and> it_deleted r = None then r\<lparr>it_deleted := Some x\<rparr> else r)" for r y
    using that assms [of r] undone [of r] by (auto simp: revive_def)
  then show ?thesis
    by (simp add: update_rows_def comp_def map_idI)
qed

lemma vault_delete_recover_row:
  assumes "vaults_wf tbl" "v \<in> set tbl" "v_deleted v = None" "v_scheduled v = None"
  shows "set_rows (\<lambda>x. v_id x = v_id v \<and> v_deleted x \<noteq> None) (\<lambda>x. x\<lparr>v_deleted := None, v_scheduled := None\<rparr>)
           (set_rows (\<lambda>x. v_id x = v_id v \<and> v_deleted x = None) (\<lambda>x. x\<lparr>v_deleted := Some at\<rparr>) tbl) = tbl"
proof -
  have uniq: "x = v" if "x \<in> set tbl" "v_id x = v_id v" for x
    using vaults_wf_inj(1) [OF assms(1) that(1) assms(2)] that(2) by simp
  have "(if v_id y = v_id v \<and> v_deleted y \<noteq> None then y\<lparr>v_deleted := None, v_scheduled := None\<rparr> else y) = x"
    if "x \<in> set tbl" "y = (if v_id x = v_id v \<and> v_deleted x = None then x\<lparr>v_deleted := Some at\<rparr> else x)" for x y
  proof (cases "v_id x = v_id v")
    case True
    with that(1) have "x = v"
      by (rule uniq)
    moreover have "v\<lparr>v_deleted := None, v_scheduled := None\<rparr> = v"
      using assms(3,4) by (cases v) simp
    ultimately show ?thesis
      using that(2) assms(3) by simp
  qed (use that(2) in simp)
  then show ?thesis
    by (simp add: set_rows_def comp_def map_idI)
qed

text \<open>C23: Deleting a vault and recovering it gives back the vault row and every item of
  every kind, provided no item of the vault already carried the instant of the deletion.\<close>
theorem vault_delete_recover:
  assumes "vault_inv st" "ve_tx env" "ve_tx env'"
    and "ve_stamp env' = ve_stamp env" "\<forall>t. ve_stamp env (ve_stamp env t) = ve_stamp env t"
    and "quiet (ve_stamp env (ve_now env)) name st"
    and "DeleteVault env name actor st = (None, st1)" "RecoverVault env' name st1 = (None, st2)"
  shows "rows_of st2 = rows_of st"
proof -
  let ?at = "ve_stamp env (ve_now env)"
  show ?thesis
  proof (cases rule: DeleteVault_cases [OF assms(1,2), of name actor])
    case (1 e st')
    with assms(7) show ?thesis
      by simp
  next
    case del: (2 v st')
    then have st1: "rows_of st1 = rows_of (vault_deleted (ve_stamp env) ?at (v_id v) st)"
      using assms(7) by simp
    show ?thesis
    proof (cases rule: RecoverVault_cases [OF assms(3), of name st1])
      case (1 e)
      with assms(8) show ?thesis
        by simp
    next
      case rcv: (2 w at)
      have wf: "vaults_wf (vs_vaults st)" and unsched: "v_scheduled v = None"
        using assms(1) del(2,4) by (auto simp: vault_inv_def list_all_iff)
      have tbl: "vs_vaults st1 = set_rows (\<lambda>x. v_id x = v_id v \<and> v_deleted x = None)
          (\<lambda>x. x\<lparr>v_deleted := Some ?at\<rparr>) (vs_vaults st)"
        using st1 by (simp add: rows_of_def vault_deleted_def)
      obtain x where x: "x \<in> set (vs_vaults st)"
        "w = (if v_id x = v_id v \<and> v_deleted x = None then x\<lparr>v_deleted := Some ?at\<rparr> else x)"
        using rcv(2) tbl by (auto simp: set_rows_def)
      then have "v_name x = v_name v"
        using rcv(3) del(3) by (simp split: if_splits)
      then have "x = v"
        using vaults_wf_inj(2) [OF wf x(1) del(2)] by simp
      with x(2) del(4) rcv(4) have w: "v_id w = v_id v" "at = ?at"
        by auto
      have q: "it_deleted r \<noteq> Some ?at \<and> (it_deleted r = None \<longrightarrow> it_scheduled r = None)"
        if "r \<in> set (tb_rows (vs_items st k))" "it_vault r = v_id v" for r k
        using assms(6) del(2,3) that by (auto simp: quiet_def)
      have "rows_of st2 = rows_of (vault_recovered (ve_stamp env) ?at (v_id v) st1)"
        using rcv(1) assms(4,8) w by simp
      also have "\<dots> = rows_of (vault_recovered (ve_stamp env) ?at (v_id v)
          (vault_deleted (ve_stamp env) ?at (v_id v) st))"
        by (rule rows_of_effects) (rule st1)
      also have "\<dots> = rows_of st"
        using vault_delete_recover_row [OF wf del(2,4) unsched]
          items_delete_recover [of "vs_items st _" "v_id v" ?at, OF q] assms(5)
        by (simp add: rows_of_def vault_deleted_def vault_recovered_def)
      finally show ?thesis .
    qed
  qed
qed

definition later_vaults :: vault_env where
  "later_vaults = steady_vaults\<lparr>ve_now := 200\<rparr>"

text \<open>The delete and the recovery of the vault \<open>team\<close> of the example succeed.\<close>

lemma sample_delete_recover:
  shows "fst (DeleteVault steady_vaults ''team'' 9 sample_state) = None"
    and "fst (RecoverVault later_vaults ''team'' (snd (DeleteVault steady_vaults ''team'' 9 sample_state))) = None"
proof -
  have step: "fst (DeleteVault steady_vaults ''team'' 9 sample_state) = None
    \<and> fst (RecoverVault later_vaults ''team'' (snd (DeleteVault steady_vaults ''team'' 9 sample_state))) = None"
    by (simp add: sample_eval later_vaults_def)
  then show "fst (DeleteVault steady_vaults ''team'' 9 sample_state) = None"
    and "fst (RecoverVault later_vaults ''team'' (snd (DeleteVault steady_vaults ''team'' 9 sample_state))) = None"
    by blast+
qed

theorem vault_delete_recover_witness:
  "rows_of (snd (RecoverVault later_vaults ''team'' (snd (DeleteVault steady_vaults ''team'' 9 sample_state))))
   = rows_of sample_state"
proof (rule vault_delete_recover)
  show "DeleteVault steady_vaults ''team'' 9 sample_state = (None, snd (DeleteVault steady_vaults ''team'' 9 sample_state))"
    using sample_delete_recover(1) by (simp add: prod_eq_iff)
  show "RecoverVault later_vaults ''team'' (snd (DeleteVault steady_vaults ''team'' 9 sample_state))
      = (None, snd (RecoverVault later_vaults ''team'' (snd (DeleteVault steady_vaults ''team'' 9 sample_state))))"
    using sample_delete_recover(2) by (simp add: prod_eq_iff)
  show "quiet (ve_stamp steady_vaults (ve_now steady_vaults)) ''team'' sample_state"
    by (auto simp: quiet_def sample_state_def sample_vault_def sample_item_def)
qed (simp_all add: steady_vaults_def later_vaults_def)




text \<open>C25: A create, update, delete or recover that reports an error has changed no row,
  whichever statement failed.\<close>
theorem failed_vault_ops_change_no_row:
  assumes "vault_inv st" "ve_tx env"
  shows "(isl (fst (CreateVaultProvisioned env req p q g st)) \<longrightarrow>
            rows_of (snd (CreateVaultProvisioned env req p q g st)) = rows_of st)
    \<and> (isl (fst (UpdateVault env name upd u st)) \<longrightarrow> rows_of (snd (UpdateVault env name upd u st)) = rows_of st)
    \<and> (fst (DeleteVault env name actor st) \<noteq> None \<longrightarrow> rows_of (snd (DeleteVault env name actor st)) = rows_of st)
    \<and> (fst (RecoverVault env name st) \<noteq> None \<longrightarrow> rows_of (snd (RecoverVault env name st)) = rows_of st)"
proof (intro conjI)
  show "isl (fst (CreateVaultProvisioned env req p q g st)) \<longrightarrow>
      rows_of (snd (CreateVaultProvisioned env req p q g st)) = rows_of st"
    by (cases rule: CreateVaultProvisioned_cases [of env req p q g st]) simp_all
  show "isl (fst (UpdateVault env name upd u st)) \<longrightarrow> rows_of (snd (UpdateVault env name upd u st)) = rows_of st"
    by (cases rule: UpdateVault_cases [OF assms(1), of env name upd u]) simp_all
  show "fst (DeleteVault env name actor st) \<noteq> None \<longrightarrow> rows_of (snd (DeleteVault env name actor st)) = rows_of st"
    by (cases rule: DeleteVault_cases [OF assms, of name actor]) simp_all
  show "fst (RecoverVault env name st) \<noteq> None \<longrightarrow> rows_of (snd (RecoverVault env name st)) = rows_of st"
    by (cases rule: RecoverVault_cases [OF assms(2), of name st]) simp_all
qed

text \<open>Deleting with a failing statement of the cascade.\<close>

definition failing_cascade :: vault_env where
  "failing_cascade = steady_vaults\<lparr>ve_fails := (\<lambda>s. s = VItem Keys ItUpdate)\<rparr>"

theorem failed_vault_ops_change_no_row_witness:
  "rows_of (snd (DeleteVault failing_cascade ''team'' 9 sample_state)) = rows_of sample_state"
proof -
  have "fst (DeleteVault failing_cascade ''team'' 9 sample_state) \<noteq> None"
    by (simp add: sample_eval failing_cascade_def)
  moreover have "ve_tx failing_cascade"
    by (simp add: failing_cascade_def steady_vaults_def)
  ultimately show ?thesis
    using failed_vault_ops_change_no_row [OF sample_inv] by blast
qed

text \<open>C26: Whoever creates a vault through a provisioning grant, or with creator rights, gets control of it:
  the creator's list of manageable vaults shows it and the creator is its Key Vault
  Administrator.\<close>
theorem creator_gets_control:
  assumes "CreateVaultProvisioned env req p q g st = (Inr v, st')" "q \<or> g"
    and "\<forall>s. \<not> ve_fails env' s"
  shows "(\<exists>vs. ListVaultsScoped env' p False False st' = Inr vs \<and> v \<in> set vs)
    \<and> (\<exists>ra\<in>set (vs_roles st'). ra_principal ra = p \<and> ra_role ra = RoleKeyVaultAdministrator \<and> ra_vault ra = v_id v)"
proof (cases rule: CreateVaultProvisioned_cases [of env req p q g st])
  case (failed e)
  with assms(1) show ?thesis
    by simp
next
  case created
  let ?v = "buildVault env req p"
  let ?pol = "(creator_policy env p ?v)\<lparr>pol_created := ve_now env\<rparr>"
  from created(1) assms(1) have v: "v = ?v" and st': "st' = vault_created env ?v (q \<or> g) st"
    by simp_all
  have rows: "vs_vaults st' = vs_vaults st @ [v]" "vs_policies st' = vs_policies st @ [?pol]"
    "vs_roles st' = vs_roles st @ [(creator_role env p ?v)\<lparr>ra_created := ve_now env\<rparr>]"
    using assms(2) by (simp_all add: st' v vault_created_def Let_def)
  obtain ids where ids: "ListVaultIDsForPrincipal (\<lambda>s. ve_fails env' (VPol s)) p (vs_policies st') = Inr ids"
    "v_id v \<in> set ids"
    using assms(3) by (auto simp: ListVaultIDsForPrincipal_def rows creator_policy_def v map_filter_def)
  have "ListVaults env' False st' = Inr (by_name (filter (\<lambda>v. v_deleted v = None) (vs_vaults st')))"
    using assms(3) by (simp add: ListVaults_def vault_list_def)
  then have "ListVaultsScoped env' p False False st'
      = Inr (filter (\<lambda>v. v_id v \<in> set ids) (by_name (filter (\<lambda>v. v_deleted v = None) (vs_vaults st'))))"
    using ids by (auto simp: ListVaultsScoped_def)
  with ids(2) rows(1) v show ?thesis
    by (simp add: rows(3) creator_role_def)
qed

definition sample_request :: create_vault_request where
  "sample_request = \<lparr>cr_name = ''abc'', cr_enabled = None, cr_purge_protection = None, cr_retention_days = None, cr_tags = []\<rparr>"

lemma sample_create: "\<exists>v. fst (CreateVaultProvisioned steady_vaults sample_request 9 True True sample_state) = Inr v"
  by (simp add: CreateVaultProvisioned_def sample_request_def sample_eval ValidateNewVaultName_def ValidateVaultName_def
      name_alnum_def reservedVaultNames_def ValidateVaultTags_def check_quota_def LockAndReadQuotaTx_def
      CountByCreatedBy_def create_row_def vault_create_def grant_creator_def pol_create_def role_create_def buildVault_def
      creator_policy_def creator_role_def)

theorem creator_gets_control_witness:
  "\<exists>v vs. fst (CreateVaultProvisioned steady_vaults sample_request 9 True True sample_state) = Inr v
    \<and> ListVaultsScoped steady_vaults 9 False False
        (snd (CreateVaultProvisioned steady_vaults sample_request 9 True True sample_state)) = Inr vs \<and> v \<in> set vs"
proof -
  obtain v where v: "fst (CreateVaultProvisioned steady_vaults sample_request 9 True True sample_state) = Inr v"
    using sample_create by blast
  then have "CreateVaultProvisioned steady_vaults sample_request 9 True True sample_state
      = (Inr v, snd (CreateVaultProvisioned steady_vaults sample_request 9 True True sample_state))"
    by (simp add: prod_eq_iff)
  from creator_gets_control [OF this, of steady_vaults] v show ?thesis
    by (auto simp: steady_vaults_def)
qed

text \<open>Purging starts with the row of the vault, which is how a later call would find the rest.\<close>

lemma purge_target_missing:
  assumes "\<not> ve_fails env (VRow VaultListDeleted)" "\<not> ve_fails env (VRow VaultReadName)" "cache_ok st"
    and "name \<notin> v_name ` set (vs_vaults st)"
  shows "purge_target env name st = (Inl VErrVaultNotFound, st)"
proof -
  have "findDeleted env name st = Inl VErrVaultNotFound"
    using assms(1,4) by (auto simp: findDeleted_def ListDeleted_def find_None_iff split: option.split dest: find_in_set)
  moreover have "vs_cache st name = None"
    using assms(3,4) by (cases "vs_cache st name") (auto simp: cache_ok_def)
  moreover have "find (\<lambda>v. v_name v = name \<and> v_deleted v = None) (vs_vaults st) = None"
    using assms(4) by (auto simp: find_None_iff)
  ultimately show ?thesis
    using assms(2) by (simp add: purge_target_def getByName_def ReadByName_def)
qed

text \<open>C27: A purge that fails after it removed the row of the vault cannot be repeated: every later purge of
  that name reports that there is no such vault and removes nothing of what was left.\<close>
theorem failed_purge_not_repeatable:
  assumes "vault_inv st" "PurgeVault env name actor st = (Some e, st1)" "vs_vaults st1 \<noteq> vs_vaults st"
    and "\<forall>s. \<not> ve_fails env' s" "\<not> ve_global_purge_protection env'"
  shows "PurgeVault env' name actor' st1 = (Some (OpError VErrVaultNotFound), st1)"
proof (cases rule: PurgeVault_cases [OF assms(1), of env name actor])
  case (1 e' st'')
  with assms(2,3) show ?thesis
    by (simp add: rows_of_def)
next
  case (2 v e' st'')
  have wf: "vaults_wf (vs_vaults st)"
    using assms(1) by (simp add: vault_inv_def)
  have "name \<notin> v_name ` set (vs_vaults st1)"
    using 2(1,2,3,10) assms(2) vaults_wf_inj [OF wf _ 2(2)] by auto
  moreover have "cache_ok st1"
    using 2(1,9) assms(2) by (simp add: vault_inv_def)
  ultimately have "purge_target env' name st1 = (Inl VErrVaultNotFound, st1)"
    using assms(4) by (intro purge_target_missing) simp_all
  with 2(4) assms(5) show ?thesis
    by (simp add: PurgeVault_def)
qed

text \<open>Purging with a failing delete of the secrets of the vault.\<close>

definition failing_purge :: vault_env where
  "failing_purge = steady_vaults\<lparr>ve_fails := (\<lambda>s. s = VItem Secrets ItDelete)\<rparr>"

lemma sample_failed_purge:
  "\<exists>e st1. PurgeVault failing_purge ''team'' 9 sample_state = (Some e, st1) \<and> vs_vaults st1 = [sample_vault 1 ''default'']
     \<and> tb_rows (vs_items st1 Secrets) = [sample_item 11 1 True, sample_item 12 2 False]"
  by (simp add: sample_eval failing_purge_def)

theorem failed_purge_not_repeatable_witness:
  "\<exists>st1. snd (PurgeVault failing_purge ''team'' 9 sample_state) = st1
    \<and> sample_item 12 2 False \<in> set (tb_rows (vs_items st1 Secrets))
    \<and> PurgeVault steady_vaults ''team'' 9 st1 = (Some (OpError VErrVaultNotFound), st1)"
proof -
  obtain e st1 where run: "PurgeVault failing_purge ''team'' 9 sample_state = (Some e, st1)"
    and left: "vs_vaults st1 = [sample_vault 1 ''default'']" "sample_item 12 2 False \<in> set (tb_rows (vs_items st1 Secrets))"
    using sample_failed_purge by auto
  from left(1) have "vs_vaults st1 \<noteq> vs_vaults sample_state"
    by (simp add: sample_state_def)
  from failed_purge_not_repeatable [OF sample_inv run this] run left(2) show ?thesis
    by (simp add: steady_vaults_def)
qed

end
