(* ===== verification/Sha256.thy ===== *)
theory Sha256
  imports Prelude
begin

text \<open>
  SHA-256 of Go's \<open>crypto/sha256\<close> (FIPS 180-4), printed with \<open>%x\<close>: sixty-four lower-case hexadecimal digits.
\<close>

unbundle bit_operations_syntax

section \<open>The compression function\<close>

text \<open>
  The constants are the first 32 bits of the fractional parts of the cube roots of the first 64 primes, and of
  the square roots of the first eight.  A root is found bit by bit from the top; 36 bits hold every root
  that is asked for.
\<close>

fun root_below :: "nat \<Rightarrow> nat \<Rightarrow> nat \<Rightarrow> nat \<Rightarrow> nat" where
  "root_below k n r 0 = r"
| "root_below k n r (Suc i) = (if (r + 2 ^ i) ^ k \<le> n then root_below k n (r + 2 ^ i) i else root_below k n r i)"

definition root_fraction :: "nat \<Rightarrow> nat \<Rightarrow> 32 word" where
  "root_fraction k p = word_of_nat (root_below k (p * 2 ^ (32 * k)) 0 36 mod 2 ^ 32)"

definition primes_below :: "nat \<Rightarrow> nat list" where
  "primes_below n = filter (\<lambda>p. list_all (\<lambda>d. \<not> d dvd p) [2..<p]) [2..<n]"

definition round_constants :: "32 word list" where
  "round_constants = map (root_fraction 3) (primes_below 312)"

type_synonym sha_state = "32 word list"

definition initial_state :: sha_state where
  "initial_state = map (root_fraction 2) (primes_below 20)"

lemma initial_state_length [simp]: "length initial_state = 8"
proof -
  have "length (primes_below 20) = 8"
    by code_simp
  then show ?thesis
    by (simp add: initial_state_def)
qed

definition small_sigma0 :: "32 word \<Rightarrow> 32 word" where
  "small_sigma0 x = word_rotr 7 x XOR word_rotr 18 x XOR drop_bit 3 x"

definition small_sigma1 :: "32 word \<Rightarrow> 32 word" where
  "small_sigma1 x = word_rotr 17 x XOR word_rotr 19 x XOR drop_bit 10 x"

definition big_sigma0 :: "32 word \<Rightarrow> 32 word" where
  "big_sigma0 x = word_rotr 2 x XOR word_rotr 13 x XOR word_rotr 22 x"

definition big_sigma1 :: "32 word \<Rightarrow> 32 word" where
  "big_sigma1 x = word_rotr 6 x XOR word_rotr 11 x XOR word_rotr 25 x"

definition sha_round :: "sha_state \<Rightarrow> 32 word \<times> 32 word \<Rightarrow> sha_state" where
  "sha_round s kw =
     (let e = s ! 4; a = s ! 0;
          t1 = s ! 7 + big_sigma1 e + ((e AND s ! 5) XOR (NOT e AND s ! 6)) + fst kw + snd kw;
          t2 = big_sigma0 a + ((a AND s ! 1) XOR (a AND s ! 2) XOR (s ! 1 AND s ! 2)) in
      [t1 + t2, a, s ! 1, s ! 2, s ! 3 + t1, e, s ! 5, s ! 6])"

definition extend_schedule :: "32 word list \<Rightarrow> 32 word list" where
  "extend_schedule ws =
     (let n = length ws in
      ws @ [small_sigma1 (ws ! (n - 2)) + ws ! (n - 7) + small_sigma0 (ws ! (n - 15)) + ws ! (n - 16)])"

definition sha_block :: "32 word list \<Rightarrow> sha_state \<Rightarrow> sha_state" where
  "sha_block ws s = map2 (+) s (foldl sha_round s (zip round_constants ((extend_schedule ^^ 48) ws)))"

section \<open>Padding and output\<close>

definition pad_message :: "go_string \<Rightarrow> go_string" where
  "pad_message m =
     (let bits = 8 * length m in
      m @ CHR 0x80 # replicate ((119 - length m mod 64) mod 64) (CHR 0x00)
        @ map (\<lambda>i. char_of (bits div 256 ^ i mod 256)) (rev [0..<8]))"

fun words_of :: "go_string \<Rightarrow> 32 word list" where
  "words_of (a # b # c # d # s) =
     (of_char a * 2 ^ 24 + of_char b * 2 ^ 16 + of_char c * 2 ^ 8 + of_char d) # words_of s"
| "words_of _ = []"

fun sha_blocks :: "nat \<Rightarrow> 32 word list \<Rightarrow> sha_state \<Rightarrow> sha_state" where
  "sha_blocks 0 ws s = s"
| "sha_blocks (Suc n) ws s = sha_blocks n (drop 16 ws) (sha_block (take 16 ws) s)"

definition sha256 :: "go_string \<Rightarrow> sha_state" where
  "sha256 m = (let ws = words_of (pad_message m) in sha_blocks (length ws div 16) ws initial_state)"

definition hex_digits :: go_string where "hex_digits = ''0123456789abcdef''"

definition hex32 :: "32 word \<Rightarrow> go_string" where
  "hex32 w = map (\<lambda>i. hex_digits ! (unat w div 16 ^ i mod 16)) (rev [0..<8])"

definition sha256_hex :: "go_string \<Rightarrow> go_string" where
  "sha256_hex m = concat (map hex32 (sha256 m))"

section \<open>Lemmas\<close>

lemma hex_digit_set: "n < 16 \<Longrightarrow> hex_digits ! n \<in> set hex_digits"
  by (rule nth_mem) (simp add: hex_digits_def)

lemma hex32_set: "set (hex32 w) \<subseteq> set hex_digits"
  by (auto simp: hex32_def intro!: hex_digit_set)

lemma hex32_length [simp]: "length (hex32 w) = 8"
  by (simp add: hex32_def)

lemma sha256_hex_set: "set (sha256_hex m) \<subseteq> set hex_digits"
  using hex32_set by (auto simp: sha256_hex_def)

lemma sha_blocks_length: "length s = 8 \<Longrightarrow> length (sha_blocks n ws s) = 8"
proof (induction n arbitrary: ws s)
  case (Suc n)
  have "length (foldl sha_round s xs) = 8" if "length s = 8" for xs and s :: sha_state
    using that by (induction xs arbitrary: s) (simp_all add: sha_round_def Let_def)
  with Suc show ?case
    by (simp add: sha_block_def)
qed simp

lemma sha256_hex_length [simp]: "length (sha256_hex m) = 64"
proof -
  have "length (concat (map hex32 ws)) = 8 * length ws" for ws
    by (induction ws) simp_all
  then show ?thesis
    by (simp add: sha256_hex_def sha256_def Let_def sha_blocks_length)
qed

lemma sha256_hex_nonempty [simp]: "sha256_hex m \<noteq> []"
  using sha256_hex_length [of m] by fastforce

lemma sha256_hex_no_bar: "CHR ''|'' \<notin> set (sha256_hex m)"
  using sha256_hex_set [of m] by (auto simp: hex_digits_def)

end
