(* ===== verification/AuditChain.thy ===== *)
theory AuditChain
  imports Digits Sha256 CriticalAudit "HOL-Library.Product_Lexorder"
begin

text \<open>
  The audit trail: rows linked by a hash (\<open>src/internal/services/audit/audit_service.go\<close>), their table and
  chain head (\<open>src/internal/repositories/audit_repository.go\<close>, \<open>src/internal/db/audit_chain_head.go\<close>), queries,
  verification and retention (\<open>compliance_report_service.go\<close>).

  \<open>as_logs\<close> holds the rows in the order they were inserted.  A column that stores an empty string as NULL reads
  back as the empty string.  Any statement may fail; a transaction that fails leaves the store as it was.
\<close>

section \<open>Rows and store\<close>

record audit_event =
  ev_user :: go_string
  ev_action :: go_string
  ev_details :: go_string
  ev_rtype :: go_string
  ev_rid :: go_string
  ev_ip :: go_string
  ev_outcome :: go_string
  ev_source :: go_string

record audit_log =
  al_id :: go_string
  al_user :: go_string
  al_action :: go_string
  al_details :: go_string
  al_ts :: instant
  al_rtype :: go_string
  al_rid :: go_string
  al_ip :: go_string
  al_outcome :: go_string
  al_source :: go_string
  al_hash :: go_string
  al_seq :: "int option"

record audit_store =
  as_logs :: "audit_log list"
  as_head :: "(int \<times> go_string) option"
  as_config :: "go_string \<Rightarrow> go_string option"

datatype audit_stmt =
    AudBegin | AudHeadLock | AudHeadRead | AudClock | AudInsert | AudHeadAdvance | AudCommit
  | AudTip | AudHeadInsert | AudCount | AudQuery | AudDelete | AudConfigGet | AudConfigSet

datatype audit_error =
    AuditDbError audit_stmt | ChainHeadMissing | EmptyHash | AuditDuplicate
  | InvalidRetentionValue | ErrRetentionBelowFloor

text \<open>\<open>ae_now\<close> is the clock, \<open>ae_id\<close> the fresh id of the row.\<close>

record audit_env =
  ae_fails :: "audit_stmt \<Rightarrow> bool"
  ae_now :: instant
  ae_id :: go_string

section \<open>Hashes\<close>

definition bar_join :: "go_string list \<Rightarrow> go_string" where
  "bar_join = join_str ''|''"

definition chain_preimage :: "go_string \<Rightarrow> int \<Rightarrow> instant \<Rightarrow> audit_event \<Rightarrow> go_string" where
  "chain_preimage prev seq ts e =
     bar_join [prev, show_int seq, RFC3339Nano ts, ev_user e, ev_action e, ev_details e,
               ev_rtype e @ ev_rid e, ev_outcome e]"

definition computeChainHash :: "go_string \<Rightarrow> int \<Rightarrow> instant \<Rightarrow> audit_event \<Rightarrow> go_string" where
  "computeChainHash prev seq ts e = sha256_hex (chain_preimage prev seq ts e)"

text \<open>The legacy formula, without the sequence number.\<close>

definition computeHash :: "go_string \<Rightarrow> instant \<Rightarrow> audit_event \<Rightarrow> go_string" where
  "computeHash prev ts e =
     sha256_hex (bar_join [prev, RFC3339Nano ts, ev_user e, ev_action e, ev_details e,
                           ev_rtype e @ ev_rid e, ev_outcome e])"

section \<open>Appending\<close>

definition microsecond :: int where "microsecond = 1000"

definition insert_log :: "audit_env \<Rightarrow> audit_log \<Rightarrow> audit_store \<Rightarrow> audit_error option \<times> audit_store" where
  "insert_log env l st =
     (if ae_fails env AudInsert then (Some (AuditDbError AudInsert), st)
      else if al_id l \<in> al_id ` set (as_logs st) \<or> al_seq l \<noteq> None \<and> al_seq l \<in> al_seq ` set (as_logs st)
        then (Some AuditDuplicate, st)
      else (None, st\<lparr>as_logs := as_logs st @ [l]\<rparr>))"

text \<open>What the append sets on the row it was given.\<close>

definition finish_entry :: "audit_env \<Rightarrow> instant \<Rightarrow> int \<Rightarrow> audit_log \<Rightarrow> audit_log" where
  "finish_entry env now nextSeq entry =
     entry\<lparr>al_ts := now, al_id := (if al_id entry = [] then ae_id env else al_id entry), al_seq := Some nextSeq\<rparr>"

definition AppendChained ::
  "audit_env \<Rightarrow> (int \<Rightarrow> go_string \<Rightarrow> instant \<Rightarrow> audit_log) \<Rightarrow> audit_store \<Rightarrow> audit_error option \<times> audit_store" where
  "AppendChained env build st =
     (if ae_fails env AudBegin then (Some (AuditDbError AudBegin), st)
      else if ae_fails env AudHeadLock then (Some (AuditDbError AudHeadLock), st)
      else case as_head st of
        None \<Rightarrow> (Some ChainHeadMissing, st)
      | Some (lastSeq, lastHash) \<Rightarrow>
          if ae_fails env AudHeadRead then (Some (AuditDbError AudHeadRead), st)
          else if ae_fails env AudClock then (Some (AuditDbError AudClock), st)
          else
            let now = ae_now env div microsecond * microsecond;
                nextSeq = lastSeq + 1;
                entry = build nextSeq lastHash now in
            if al_hash entry = [] then (Some EmptyHash, st)
            else case insert_log env (finish_entry env now nextSeq entry) st of
                (Some e, _) \<Rightarrow> (Some e, st)
              | (None, st1) \<Rightarrow>
                  if ae_fails env AudHeadAdvance then (Some (AuditDbError AudHeadAdvance), st)
                  else if ae_fails env AudCommit then (Some (AuditDbError AudCommit), st)
                  else (None, st1\<lparr>as_head := Some (nextSeq, al_hash entry)\<rparr>))"

definition event_log :: "go_string \<Rightarrow> audit_event \<Rightarrow> go_string \<Rightarrow> audit_log" where
  "event_log i e h =
     \<lparr>al_id = i, al_user = ev_user e, al_action = ev_action e, al_details = ev_details e, al_ts = 0,
      al_rtype = ev_rtype e, al_rid = ev_rid e, al_ip = ev_ip e, al_outcome = ev_outcome e,
      al_source = ev_source e, al_hash = h, al_seq = None\<rparr>"

definition appendChained :: "audit_env \<Rightarrow> audit_event \<Rightarrow> audit_store \<Rightarrow> audit_error option \<times> audit_store" where
  "appendChained env e st =
     AppendChained env (\<lambda>nextSeq prev now. event_log (ae_id env) e (computeChainHash prev nextSeq now e)) st"

text \<open>\<open>RecordEvent\<close> and \<open>RecordCritical\<close> differ in what their callers do with the error.\<close>

definition RecordEvent :: "audit_env \<Rightarrow> audit_event \<Rightarrow> audit_store \<Rightarrow> audit_error option \<times> audit_store" where
  "RecordEvent env e st = appendChained env e st"

definition RecordCritical :: "audit_env \<Rightarrow> audit_event \<Rightarrow> audit_store \<Rightarrow> audit_error option \<times> audit_store" where
  "RecordCritical env e st = appendChained env e st"

text \<open>\<open>strings.Fields\<close> for ASCII white space.\<close>

definition is_blank :: "char \<Rightarrow> bool" where
  "is_blank c \<longleftrightarrow> c \<in> {CHR 0x09, CHR 0x0A, CHR 0x0B, CHR 0x0C, CHR 0x0D, CHR '' ''}"

fun Fields_from :: "go_string \<Rightarrow> go_string \<Rightarrow> go_string list" where
  "Fields_from acc [] = (if acc = [] then [] else [rev acc])"
| "Fields_from acc (c # s) =
     (if is_blank c then (if acc = [] then Fields_from [] s else rev acc # Fields_from [] s)
      else Fields_from (c # acc) s)"

definition status_outcome :: "go_string \<Rightarrow> go_string" where
  "status_outcome status =
     (if status = ''success'' then ''success''
      else if status \<in> {''failure'', ''failed'', ''error''} then ''failure''
      else if status = ''denied'' then ''denied''
      else ''warning'')"

fun outcome_of_fields :: "go_string list \<Rightarrow> go_string" where
  "outcome_of_fields [] = ''warning''"
| "outcome_of_fields (f # fs) =
     (case cut_prefix f ''status='' of
        None \<Rightarrow> outcome_of_fields fs
      | Some status \<Rightarrow> status_outcome status)"

definition outcomeFromDetails :: "go_string \<Rightarrow> go_string" where
  "outcomeFromDetails details = outcome_of_fields (Fields_from [] details)"

definition PersistAudit ::
  "audit_env \<Rightarrow> go_string \<Rightarrow> go_string \<Rightarrow> go_string \<Rightarrow> audit_store \<Rightarrow> audit_error option \<times> audit_store" where
  "PersistAudit env user action details st =
     RecordEvent env
       \<lparr>ev_user = user, ev_action = action, ev_details = details, ev_rtype = [], ev_rid = [], ev_ip = [],
        ev_outcome = outcomeFromDetails details, ev_source = ''system''\<rparr> st"

section \<open>The chain head\<close>

definition log_key :: "audit_log \<Rightarrow> int \<times> instant \<times> go_string" where
  "log_key l = (case al_seq l of None \<Rightarrow> 0 | Some s \<Rightarrow> s, al_ts l, al_id l)"

definition newest :: "audit_log list \<Rightarrow> audit_log option" where
  "newest ls = (case rev (sort_key log_key ls) of [] \<Rightarrow> None | l # _ \<Rightarrow> Some l)"

definition AuditChainTip :: "audit_env \<Rightarrow> audit_store \<Rightarrow> audit_error + (int \<times> go_string)" where
  "AuditChainTip env st =
     (if ae_fails env AudTip then Inl (AuditDbError AudTip)
      else case newest (filter (\<lambda>l. al_seq l \<noteq> None) (as_logs st)) of
        Some l \<Rightarrow> Inr (the (al_seq l), al_hash l)
      | None \<Rightarrow>
          (case newest (as_logs st) of
             Some l \<Rightarrow> Inr (0, al_hash l)
           | None \<Rightarrow> Inr (0, [])))"

definition insertAuditChainHeadIfAbsent ::
  "audit_env \<Rightarrow> int \<Rightarrow> go_string \<Rightarrow> audit_store \<Rightarrow> audit_error option \<times> audit_store" where
  "insertAuditChainHeadIfAbsent env seq h st =
     (if ae_fails env AudHeadInsert then (Some (AuditDbError AudHeadInsert), st)
      else (None, if as_head st = None then st\<lparr>as_head := Some (seq, h)\<rparr> else st))"

definition SeedAuditChainHead :: "audit_env \<Rightarrow> audit_store \<Rightarrow> audit_error option \<times> audit_store" where
  "SeedAuditChainHead env st =
     (case AuditChainTip env st of
        Inl e \<Rightarrow> (Some e, st)
      | Inr (seq, h) \<Rightarrow> insertAuditChainHeadIfAbsent env seq h st)"

definition ReconcileAuditChainHead :: "audit_env \<Rightarrow> audit_store \<Rightarrow> audit_error option \<times> audit_store" where
  "ReconcileAuditChainHead env st =
     (case AuditChainTip env st of
        Inl e \<Rightarrow> (Some e, st)
      | Inr (seq, h) \<Rightarrow>
          if seq = 0 then (None, st)
          else if ae_fails env AudHeadAdvance then (Some (AuditDbError AudHeadAdvance), st)
          else (None, case as_head st of
                  Some (lastSeq, _) \<Rightarrow> if lastSeq < seq then st\<lparr>as_head := Some (seq, h)\<rparr> else st
                | None \<Rightarrow> st))"

definition ResetAuditChainHead :: "audit_env \<Rightarrow> audit_store \<Rightarrow> audit_error option \<times> audit_store" where
  "ResetAuditChainHead env st =
     (case AuditChainTip env st of
        Inl e \<Rightarrow> (Some e, st)
      | Inr (seq, h) \<Rightarrow>
          (case insertAuditChainHeadIfAbsent env seq h st of
             (Some e, st1) \<Rightarrow> (Some e, st1)
           | (None, st1) \<Rightarrow>
               if ae_fails env AudHeadAdvance then (Some (AuditDbError AudHeadAdvance), st1)
               else (None, st1\<lparr>as_head := Some (seq, h)\<rparr>)))"

section \<open>Queries\<close>

record audit_filter =
  af_from :: "instant option"
  af_to :: "instant option"
  af_user :: "go_string option"
  af_action :: "go_string option"
  af_outcome :: "go_string option"
  af_exclude :: "go_string option"
  af_rtype :: "go_string option"
  af_rid :: "go_string option"
  af_source :: "go_string option"
  af_limit :: int

text \<open>One clause per field that is set.  NULL, the empty string of a nullable column, equals nothing.\<close>

definition clause :: "('a \<Rightarrow> bool) \<Rightarrow> 'a option \<Rightarrow> bool" where
  "clause P v \<longleftrightarrow> (case v of None \<Rightarrow> True | Some x \<Rightarrow> P x)"

definition column_is :: "go_string \<Rightarrow> go_string \<Rightarrow> bool" where
  "column_is stored x \<longleftrightarrow> stored \<noteq> [] \<and> stored = x"

definition buildAuditWhere :: "audit_filter \<Rightarrow> audit_log \<Rightarrow> bool" where
  "buildAuditWhere f l \<longleftrightarrow>
     clause (\<lambda>t. al_ts l \<ge> t) (af_from f) \<and> clause (\<lambda>t. al_ts l \<le> t) (af_to f)
     \<and> clause (\<lambda>u. al_user l = u) (af_user f) \<and> clause (\<lambda>a. al_action l = a) (af_action f)
     \<and> clause (column_is (al_outcome l)) (af_outcome f)
     \<and> clause (\<lambda>x. al_outcome l = [] \<or> al_outcome l \<noteq> x) (af_exclude f)
     \<and> clause (column_is (al_rtype l)) (af_rtype f) \<and> clause (column_is (al_rid l)) (af_rid f)
     \<and> clause (column_is (al_source l)) (af_source f)"

definition page_limit :: "int \<Rightarrow> nat" where
  "page_limit n = (let limit = (if n \<le> 0 then 100 else n) in nat (if limit > 1000 then 1000 else limit))"

text \<open>Newest first, with the count before the limit.\<close>

definition QueryAuditLogs :: "audit_env \<Rightarrow> audit_filter \<Rightarrow> audit_store \<Rightarrow> audit_error + (audit_log list \<times> nat)" where
  "QueryAuditLogs env f st =
     (let found = filter (buildAuditWhere f) (as_logs st) in
      if ae_fails env AudCount then Inl (AuditDbError AudCount)
      else if ae_fails env AudQuery then Inl (AuditDbError AudQuery)
      else Inr (take (page_limit (af_limit f)) (rev (sort_key log_key found)), length found))"

section \<open>Verification\<close>

datatype break_reason = BreakGap | BreakHashMismatch

datatype integrity = IntegrityOK | Break "int option" break_reason

definition log_event :: "audit_log \<Rightarrow> audit_event" where
  "log_event l =
     \<lparr>ev_user = al_user l, ev_action = al_action l, ev_details = al_details l, ev_rtype = al_rtype l,
      ev_rid = al_rid l, ev_ip = [], ev_outcome = al_outcome l, ev_source = []\<rparr>"

text \<open>One row against the row below it.\<close>

definition check_row :: "audit_log \<Rightarrow> audit_log \<Rightarrow> integrity" where
  "check_row newer older =
     (case al_seq newer of
        None \<Rightarrow>
          if al_hash newer = [] then IntegrityOK
          else if al_hash newer \<noteq> computeHash (al_hash older) (al_ts newer) (log_event newer)
            then Break None BreakHashMismatch
          else IntegrityOK
      | Some seq \<Rightarrow>
          let wantSeq = (case al_seq older of None \<Rightarrow> 1 | Some s \<Rightarrow> s + 1) in
          if seq \<noteq> wantSeq then Break (Some seq) BreakGap
          else if al_hash newer \<noteq> computeChainHash (al_hash older) seq (al_ts newer) (log_event newer)
            then Break (Some seq) BreakHashMismatch
          else IntegrityOK)"

fun verifyChain :: "audit_log list \<Rightarrow> integrity" where
  "verifyChain (newer # older # ls) =
     (case check_row newer older of IntegrityOK \<Rightarrow> verifyChain (older # ls) | b \<Rightarrow> b)"
| "verifyChain _ = IntegrityOK"

definition QueryLogs :: "audit_env \<Rightarrow> audit_filter \<Rightarrow> audit_store \<Rightarrow> audit_error + (audit_log list \<times> nat \<times> integrity)" where
  "QueryLogs env f st =
     (case QueryAuditLogs env f st of
        Inl e \<Rightarrow> Inl e
      | Inr (logs, matching) \<Rightarrow> Inr (logs, matching, verifyChain logs))"

section \<open>Retention\<close>

definition GetAuditConfig :: "audit_env \<Rightarrow> go_string \<Rightarrow> audit_store \<Rightarrow> audit_error + go_string" where
  "GetAuditConfig env key st =
     (if ae_fails env AudConfigGet then Inl (AuditDbError AudConfigGet)
      else Inr (case as_config st key of None \<Rightarrow> [] | Some v \<Rightarrow> v))"

definition SetAuditConfig :: "audit_env \<Rightarrow> go_string \<Rightarrow> go_string \<Rightarrow> audit_store \<Rightarrow> audit_error option \<times> audit_store" where
  "SetAuditConfig env key val st =
     (if ae_fails env AudConfigSet then (Some (AuditDbError AudConfigSet), st)
      else (None, st\<lparr>as_config := (as_config st)(key \<mapsto> val)\<rparr>))"

definition DeleteBefore :: "audit_env \<Rightarrow> instant \<Rightarrow> audit_store \<Rightarrow> (audit_error + nat) \<times> audit_store" where
  "DeleteBefore env cutoff st =
     (if ae_fails env AudDelete then (Inl (AuditDbError AudDelete), st)
      else (Inr (length (filter (\<lambda>l. al_ts l < cutoff) (as_logs st))),
            st\<lparr>as_logs := filter (\<lambda>l. \<not> al_ts l < cutoff) (as_logs st)\<rparr>))"

definition MinRetentionDays :: int where "MinRetentionDays = 90"

definition GetRetentionDays :: "audit_env \<Rightarrow> audit_store \<Rightarrow> audit_error + int" where
  "GetRetentionDays env st =
     (case GetAuditConfig env ''retention_days'' st of
        Inl e \<Rightarrow> Inl e
      | Inr val \<Rightarrow>
          if val = [] then Inr 365
          else case Atoi val of
            None \<Rightarrow> Inl InvalidRetentionValue
          | Some days \<Rightarrow> if days < MinRetentionDays then Inr MinRetentionDays else Inr days)"

definition SetRetentionDays :: "audit_env \<Rightarrow> int \<Rightarrow> audit_store \<Rightarrow> audit_error option \<times> audit_store" where
  "SetRetentionDays env days st =
     (if days < MinRetentionDays then (Some ErrRetentionBelowFloor, st)
      else SetAuditConfig env ''retention_days'' (show_int days) st)"

definition day_ns :: int where "day_ns = 86400 * second_ns"

definition purge_event :: "go_string \<Rightarrow> go_string \<Rightarrow> audit_event" where
  "purge_event outcome details =
     \<lparr>ev_user = [], ev_action = ''audit_purge'', ev_details = details, ev_rtype = [], ev_rid = [], ev_ip = [],
      ev_outcome = outcome, ev_source = ''system''\<rparr>"

definition purge_attempt :: "int \<Rightarrow> instant \<Rightarrow> audit_event" where
  "purge_attempt days cutoff =
     purge_event ''attempt'' (''retention_days='' @ show_int days @ '' cutoff='' @ RFC3339 cutoff)"

text \<open>\<open>env1\<close> writes the attempt row, \<open>env\<close> reads and deletes, \<open>env2\<close> writes the result row, whose failure is ignored.\<close>

definition PurgeExpiredLogs ::
  "audit_env \<Rightarrow> audit_env \<Rightarrow> audit_env \<Rightarrow> audit_store \<Rightarrow> (audit_error critical_error + nat) \<times> audit_store" where
  "PurgeExpiredLogs env1 env env2 st =
     (case GetRetentionDays env st of
        Inl e \<Rightarrow> (Inl (OpError e), st)
      | Inr days \<Rightarrow>
          let cutoff = add_days (- days) (ae_now env) in
          case RecordCritical env1 (purge_attempt days cutoff) st of
            (Some _, st1) \<Rightarrow> (Inl ErrAuditUnavailable, st1)
          | (None, st1) \<Rightarrow>
              (case DeleteBefore env cutoff st1 of
                 (Inl e, st2) \<Rightarrow>
                   (Inl (OpError e),
                    snd (RecordEvent env2 (purge_event ''failure'' (''retention_days='' @ show_int days)) st2))
               | (Inr n, st2) \<Rightarrow>
                   (Inr n,
                    snd (RecordEvent env2 (purge_event ''success''
                      (''rows_deleted='' @ show_int (int n) @ '' retention_days='' @ show_int days)) st2))))"

end
