(* ===== verification/AuditRuns.thy ===== *)
theory AuditRuns
  imports AuditChain
begin

text \<open>
  Runs of the audit trail: whatever is appended, purged or repaired, the rows stay linked, and a query over
  a period verifies.  Then what the verification shows of a page, and what it does not.
\<close>

section \<open>Linked rows\<close>

definition linked :: "audit_log list \<Rightarrow> bool" where
  "linked ls \<longleftrightarrow> successively (\<lambda>older newer. check_row newer older = IntegrityOK) ls"

lemma verifyChain_iff: "verifyChain ls = IntegrityOK \<longleftrightarrow> linked (rev ls)"
proof -
  have "verifyChain ls = IntegrityOK \<longleftrightarrow> successively (\<lambda>newer older. check_row newer older = IntegrityOK) ls"
    by (induction ls rule: verifyChain.induct) (auto split: integrity.split)
  then show ?thesis
    by (simp add: linked_def)
qed

lemma linked_append: "linked (xs @ ys) \<Longrightarrow> linked xs \<and> linked ys"
  by (simp add: linked_def successively_append_iff)

lemma linked_snoc: "linked (xs @ [x]) \<longleftrightarrow> linked xs \<and> (xs = [] \<or> check_row x (last xs) = IntegrityOK)"
  by (auto simp: linked_def successively_append_iff)

definition row_tip :: "audit_log \<Rightarrow> int \<times> go_string" where
  "row_tip l = (case al_seq l of None \<Rightarrow> 0 | Some s \<Rightarrow> s, al_hash l)"

text \<open>The rows, without the head: linked, in the order of queries and in the order of time.\<close>

definition rows_ok :: "audit_log list \<Rightarrow> bool" where
  "rows_ok ls \<longleftrightarrow>
     linked ls \<and> sorted_wrt (\<lambda>a b. log_key a < log_key b) ls \<and> sorted (map al_ts ls)
     \<and> list_all (\<lambda>l. case al_seq l of None \<Rightarrow> True | Some s \<Rightarrow> 0 < s) ls"

definition chain_inv :: "audit_store \<Rightarrow> bool" where
  "chain_inv st \<longleftrightarrow>
     rows_ok (as_logs st)
     \<and> (case as_head st of None \<Rightarrow> False
        | Some h \<Rightarrow> 0 \<le> fst h \<and> (as_logs st = [] \<or> h = row_tip (last (as_logs st))))"

lemma rows_ok_append: "rows_ok (xs @ ys) \<Longrightarrow> rows_ok xs \<and> rows_ok ys"
  using linked_append [of xs ys] by (auto simp: rows_ok_def sorted_wrt_append)

lemma rows_ok_snoc:
  assumes "rows_ok ls" "\<And>x. x \<in> set ls \<Longrightarrow> al_ts x \<le> al_ts l"
    and "ls = [] \<or> check_row l (last ls) = IntegrityOK" "ls = [] \<or> log_key (last ls) < log_key l"
    and "case al_seq l of None \<Rightarrow> True | Some s \<Rightarrow> 0 < s"
  shows "rows_ok (ls @ [l])"
proof -
  have key: "log_key x < log_key l" if "x \<in> set ls" for x
  proof (cases ls rule: rev_cases)
    case (snoc ys y)
    with assms(1,4) that show ?thesis
      by (auto simp: rows_ok_def sorted_wrt_append)
  qed (use that in simp)
  show ?thesis
    using assms key by (auto simp: rows_ok_def linked_snoc sorted_wrt_append)
qed

section \<open>Appending\<close>

definition truncated :: "instant \<Rightarrow> instant" where
  "truncated t = t div microsecond * microsecond"

lemma AppendChained_cases:
  obtains (failed) e where "AppendChained env build st = (Some e, st)"
  | (appended) s h entry where "as_head st = Some (s, h)" "build (s + 1) h (truncated (ae_now env)) = entry"
      "al_hash entry \<noteq> []"
      "AppendChained env build st = (None, st\<lparr>as_logs := as_logs st @ [finish_entry env (truncated (ae_now env)) (s + 1) entry],
         as_head := Some (s + 1, al_hash entry)\<rparr>)"
proof (cases "as_head st")
  case None
  then have "\<exists>e. AppendChained env build st = (Some e, st)"
    by (simp add: AppendChained_def)
  then show thesis
    using failed by blast
next
  case (Some sh)
  obtain s h where sh: "sh = (s, h)"
    by fastforce
  let ?e = "build (s + 1) h (truncated (ae_now env))"
  let ?l = "finish_entry env (truncated (ae_now env)) (s + 1) ?e"
  show thesis
  proof (cases "ae_fails env AudBegin \<or> ae_fails env AudHeadLock \<or> ae_fails env AudHeadRead \<or> ae_fails env AudClock
      \<or> al_hash ?e = [] \<or> fst (insert_log env ?l st) \<noteq> None \<or> ae_fails env AudHeadAdvance \<or> ae_fails env AudCommit")
    case True
    then have "\<exists>e. AppendChained env build st = (Some e, st)"
      using Some sh by (auto simp: AppendChained_def Let_def truncated_def split: option.split prod.split)
    then show thesis
      using failed by blast
  next
    case False
    then have "insert_log env ?l st = (None, st\<lparr>as_logs := as_logs st @ [?l]\<rparr>)"
      by (auto simp: insert_log_def split: if_splits)
    with False Some sh show thesis
      by (intro appended [of s h ?e]) (simp_all add: AppendChained_def Let_def truncated_def)
  qed
qed

lemma appendChained_inv:
  assumes "chain_inv st" "\<And>l. l \<in> set (as_logs st) \<Longrightarrow> al_ts l \<le> truncated (ae_now env)"
  shows "chain_inv (snd (appendChained env e st))"
    and "l \<in> set (as_logs (snd (appendChained env e st))) \<Longrightarrow> al_ts l \<le> truncated (ae_now env)"
proof -
  let ?st = "snd (appendChained env e st)"
  have "chain_inv ?st \<and> (\<forall>l\<in>set (as_logs ?st). al_ts l \<le> truncated (ae_now env))"
  proof (cases rule: AppendChained_cases [of env
        "\<lambda>nextSeq prev now. event_log (ae_id env) e (computeChainHash prev nextSeq now e)" st])
    case (failed er)
    with assms show ?thesis
      by (simp add: appendChained_def)
  next
    case (appended s h entry)
    let ?l = "finish_entry env (truncated (ae_now env)) (s + 1) entry"
    have st': "?st = st\<lparr>as_logs := as_logs st @ [?l], as_head := Some (s + 1, al_hash entry)\<rparr>"
      using appended(4) by (simp add: appendChained_def)
    have head: "0 \<le> s" "as_logs st = [] \<or> (s, h) = row_tip (last (as_logs st))"
      using assms(1) appended(1) by (simp_all add: chain_inv_def)
    have "check_row ?l x = IntegrityOK" if "(s, h) = row_tip x" for x
      using that appended(2) by (auto simp: check_row_def finish_entry_def row_tip_def event_log_def log_event_def computeChainHash_def
          chain_preimage_def Let_def split: option.splits)
    moreover have "log_key x < log_key ?l" if "(s, h) = row_tip x" for x
      using that by (auto simp: log_key_def row_tip_def finish_entry_def split: option.splits)
    ultimately have "rows_ok (as_logs st @ [?l])"
      using assms head by (intro rows_ok_snoc) (auto simp: chain_inv_def finish_entry_def)
    with head(1) assms(2) show ?thesis
      by (simp add: st' chain_inv_def row_tip_def finish_entry_def)
  qed
  then show "chain_inv ?st" "l \<in> set (as_logs ?st) \<Longrightarrow> al_ts l \<le> truncated (ae_now env)"
    by blast+
qed

section \<open>Deleting and the chain head\<close>

lemma filter_sorted_suffix:
  fixes f :: "'a \<Rightarrow> 'b::linorder"
  shows "sorted (map f xs) \<Longrightarrow> filter (\<lambda>l. \<not> f l < c) xs = dropWhile (\<lambda>l. f l < c) xs"
proof (induction xs)
  case (Cons x xs)
  then have "\<not> f x < c \<Longrightarrow> filter (\<lambda>l. \<not> f l < c) xs = xs"
    by (intro filter_True) auto
  with Cons show ?case
    by auto
qed simp

lemma filter_sorted_prefix:
  fixes f :: "'a \<Rightarrow> 'b::linorder"
  shows "sorted (map f xs) \<Longrightarrow> filter (\<lambda>l. f l \<le> c) xs = takeWhile (\<lambda>l. f l \<le> c) xs"
proof (induction xs)
  case (Cons x xs)
  have "\<not> f x \<le> c \<Longrightarrow> filter (\<lambda>l. f l \<le> c) xs = []"
    using Cons.prems by (auto simp: filter_empty_conv dest: order_trans)
  with Cons show ?case
    by auto
qed simp

lemma rows_ok_dropWhile: "rows_ok ls \<Longrightarrow> rows_ok (dropWhile P ls)"
  using rows_ok_append [of "takeWhile P ls" "dropWhile P ls"] by simp

lemma rows_ok_takeWhile: "rows_ok ls \<Longrightarrow> rows_ok (takeWhile P ls)"
  using rows_ok_append [of "takeWhile P ls" "dropWhile P ls"] by simp

lemma DeleteBefore_inv:
  assumes "chain_inv st"
  shows "chain_inv (snd (DeleteBefore env c st))" "set (as_logs (snd (DeleteBefore env c st))) \<subseteq> set (as_logs st)"
proof -
  have ok: "rows_ok (as_logs st)"
    using assms by (simp add: chain_inv_def)
  then have "filter (\<lambda>l. \<not> al_ts l < c) (as_logs st) = dropWhile (\<lambda>l. al_ts l < c) (as_logs st)"
    by (intro filter_sorted_suffix) (simp add: rows_ok_def)
  moreover have "dropWhile P xs = [] \<or> xs \<noteq> [] \<and> last (dropWhile P xs) = last xs" for P and xs :: "audit_log list"
    by (induction xs) auto
  note this [of "\<lambda>l. al_ts l < c" "as_logs st"]
  moreover obtain h where "as_head st = Some h" "0 \<le> fst h" "as_logs st = [] \<or> h = row_tip (last (as_logs st))"
    using assms by (auto simp: chain_inv_def simp del: split_paired_Ex split: option.splits)
  ultimately show "chain_inv (snd (DeleteBefore env c st))"
    using ok by (cases "ae_fails env AudDelete") (auto simp: DeleteBefore_def chain_inv_def rows_ok_dropWhile simp del: dropWhile_eq_Nil_conv)
  show "set (as_logs (snd (DeleteBefore env c st))) \<subseteq> set (as_logs st)"
    by (auto simp: DeleteBefore_def)
qed

lemma sort_key_rows: "sorted_wrt (\<lambda>a b. log_key a < log_key b) ls \<Longrightarrow> sort_key log_key ls = ls"
  by (intro sort_key_id_if_sorted) (auto simp: sorted_wrt_map elim: sorted_wrt_mono_rel [rotated])

lemma newest_rows: "sorted_wrt (\<lambda>a b. log_key a < log_key b) ls \<Longrightarrow> newest ls = (if ls = [] then None else Some (last ls))"
  by (cases ls rule: rev_cases) (simp_all add: newest_def sort_key_rows)

text \<open>The tip is what the newest row says.\<close>

lemma AuditChainTip_rows:
  assumes "rows_ok (as_logs st)" "\<not> ae_fails env AudTip"
  shows "AuditChainTip env st = Inr (if as_logs st = [] then (0, []) else row_tip (last (as_logs st)))"
proof (cases "as_logs st" rule: rev_cases)
  case Nil
  with assms(2) show ?thesis
    by (simp add: AuditChainTip_def newest_def)
next
  case (snoc xs x)
  have ord: "sorted_wrt (\<lambda>a b. log_key a < log_key b) (as_logs st)"
    using assms(1) by (simp add: rows_ok_def)
  have pos: "case al_seq l of None \<Rightarrow> True | Some s \<Rightarrow> 0 < s" if "l \<in> set (as_logs st)" for l
    using assms(1) that by (simp add: rows_ok_def list_all_iff)
  show ?thesis
  proof (cases "al_seq x")
    case None
    have "al_seq l = None" if l: "l \<in> set xs" for l
    proof (rule ccontr)
      assume "al_seq l \<noteq> None"
      then obtain s where s: "al_seq l = Some s" "0 < s"
        using pos [of l] l snoc by (cases "al_seq l") auto
      have "log_key l < log_key x"
        using ord l snoc by (simp add: sorted_wrt_append)
      with s None show False
        by (simp add: log_key_def)
    qed
    then have "filter (\<lambda>l. al_seq l \<noteq> None) (as_logs st) = []"
      using None snoc by (auto simp: filter_empty_conv)
    then show ?thesis
      using assms(2) None newest_rows [OF ord] snoc by (simp add: AuditChainTip_def newest_def row_tip_def)
  next
    case (Some s)
    have "newest (filter (\<lambda>l. al_seq l \<noteq> None) (as_logs st)) = Some x"
      using newest_rows [of "filter (\<lambda>l. al_seq l \<noteq> None) (as_logs st)"] ord Some snoc
      by (simp add: sorted_wrt_filter sorted_wrt_append del: filter.simps)
    with assms(2) Some snoc show ?thesis
      by (simp add: AuditChainTip_def row_tip_def)
  qed
qed

text \<open>Resetting the head over linked rows gives a store that appends go on from.\<close>

lemma ResetAuditChainHead_inv:
  assumes "rows_ok (as_logs st)" "ResetAuditChainHead env st = (None, st')"
  shows "chain_inv st'" "as_logs st' = as_logs st"
proof -
  have tip: "\<not> ae_fails env AudTip"
    using assms(2) by (auto simp: ResetAuditChainHead_def AuditChainTip_def)
  have st': "st' = st\<lparr>as_head := Some (if as_logs st = [] then (0, []) else row_tip (last (as_logs st)))\<rparr>"
    using assms(2) AuditChainTip_rows [OF assms(1) tip]
    by (auto simp: ResetAuditChainHead_def insertAuditChainHeadIfAbsent_def row_tip_def split: if_splits option.splits)
  have "0 \<le> fst (row_tip l)" if "l \<in> set (as_logs st)" for l
    using assms(1) that by (force simp: rows_ok_def row_tip_def list_all_iff split: option.splits)
  with assms(1) show "chain_inv st'" "as_logs st' = as_logs st"
    by (simp_all add: st' chain_inv_def)
qed

lemma ResetAuditChainHead_failed: "ResetAuditChainHead env st = (Some e, st') \<Longrightarrow> chain_inv st \<Longrightarrow> st' = st"
  by (auto simp: ResetAuditChainHead_def insertAuditChainHeadIfAbsent_def chain_inv_def
      split: sum.splits prod.splits option.splits if_splits)

lemma SeedAuditChainHead_same: "chain_inv st \<Longrightarrow> snd (SeedAuditChainHead env st) = st"
  by (auto simp: SeedAuditChainHead_def insertAuditChainHeadIfAbsent_def chain_inv_def
      split: sum.splits prod.splits option.splits if_splits)

lemma ReconcileAuditChainHead_same:
  assumes "chain_inv st"
  shows "snd (ReconcileAuditChainHead env st) = st"
proof (cases "ae_fails env AudTip")
  case True
  then show ?thesis
    by (simp add: ReconcileAuditChainHead_def AuditChainTip_def)
next
  case False
  have "rows_ok (as_logs st)"
    using assms by (simp add: chain_inv_def)
  from AuditChainTip_rows [OF this False] assms show ?thesis
    by (auto simp: ReconcileAuditChainHead_def chain_inv_def row_tip_def split: option.splits if_splits)
qed

section \<open>Runs\<close>

text \<open>
  A run is a clock and a store.  Every event first lets some time pass; the clock of the database does not
  go back.  A restart seeds and reconciles the head; a reset is the last step of a restore.
\<close>

datatype audit_run_event =
    AtRecord nat audit_env audit_event
  | AtPurge nat audit_env audit_env audit_env
  | AtRestart audit_env
  | AtReset audit_env
  | AtRetention audit_env int

definition at_time :: "instant \<Rightarrow> audit_env \<Rightarrow> audit_env" where
  "at_time c env = env\<lparr>ae_now := c\<rparr>"

fun audit_step :: "audit_run_event \<Rightarrow> instant \<times> audit_store \<Rightarrow> instant \<times> audit_store" where
  "audit_step (AtRecord d env e) (c, st) = (c + int d, snd (RecordEvent (at_time (c + int d) env) e st))"
| "audit_step (AtPurge d env1 env env2) (c, st) =
     (c + int d, snd (PurgeExpiredLogs (at_time (c + int d) env1) (at_time (c + int d) env) (at_time (c + int d) env2) st))"
| "audit_step (AtRestart env) (c, st) = (c, snd (ReconcileAuditChainHead env (snd (SeedAuditChainHead env st))))"
| "audit_step (AtReset env) (c, st) = (c, snd (ResetAuditChainHead env st))"
| "audit_step (AtRetention env days) (c, st) = (c, snd (SetRetentionDays env days st))"

definition run_ok :: "instant \<times> audit_store \<Rightarrow> bool" where
  "run_ok cs \<longleftrightarrow> chain_inv (snd cs) \<and> list_all (\<lambda>l. al_ts l \<le> truncated (fst cs)) (as_logs (snd cs))"

lemma truncated_mono: "a \<le> b \<Longrightarrow> truncated a \<le> truncated b"
  by (simp add: truncated_def microsecond_def zdiv_mono1)

lemma RecordEvent_ok: "run_ok (c, st) \<Longrightarrow> run_ok (c, snd (RecordEvent (at_time c env) e st))"
  using appendChained_inv [where st = st and env = "at_time c env" and e = e]
  by (auto simp: run_ok_def RecordEvent_def at_time_def list_all_iff)

lemma RecordCritical_ok: "RecordCritical (at_time c env) e st = (r, st') \<Longrightarrow> run_ok (c, st) \<Longrightarrow> run_ok (c, st')"
  using RecordEvent_ok [of c st env e] by (simp add: RecordEvent_def RecordCritical_def)

lemma DeleteBefore_ok: "DeleteBefore env t st = (r, st') \<Longrightarrow> run_ok (c, st) \<Longrightarrow> run_ok (c, st')"
  using DeleteBefore_inv [of st env t] by (auto simp: run_ok_def list_all_iff)

lemma PurgeExpiredLogs_ok:
  "run_ok (c, st) \<Longrightarrow> run_ok (c, snd (PurgeExpiredLogs (at_time c env1) env (at_time c env2) st))"
  by (auto simp: PurgeExpiredLogs_def Let_def split: sum.split prod.split option.split
      intro: RecordEvent_ok dest!: RecordCritical_ok DeleteBefore_ok)

lemma chain_inv_config [simp]: "chain_inv (st\<lparr>as_config := cfg\<rparr>) = chain_inv st"
  by (cases "as_head st") (simp_all add: chain_inv_def)

lemma audit_step_ok: "run_ok cs \<Longrightarrow> run_ok (audit_step e cs)"
proof (cases cs)
  case (Pair c st)
  assume ok: "run_ok cs"
  have later: "run_ok (c + int d, st)" for d
    using ok Pair truncated_mono [of c "c + int d"] by (force simp: run_ok_def list_all_iff)
  show ?thesis
  proof (cases e)
    case (AtReset env)
    obtain r st' where r: "ResetAuditChainHead env st = (r, st')"
      by fastforce
    have "rows_ok (as_logs st)"
      using ok Pair by (simp add: run_ok_def chain_inv_def)
    then show ?thesis
      using AtReset ok Pair r ResetAuditChainHead_inv [of st env st'] ResetAuditChainHead_failed [of env st _ st']
      by (cases r) (auto simp: run_ok_def)
  next
    case (AtRestart env)
    then show ?thesis
      using ok Pair by (simp add: run_ok_def SeedAuditChainHead_same ReconcileAuditChainHead_same)
  next
    case (AtRetention env days)
    then show ?thesis
      using ok Pair by (cases "days < MinRetentionDays"; cases "ae_fails env AudConfigSet")
        (simp_all add: run_ok_def SetRetentionDays_def SetAuditConfig_def)
  qed (use Pair later RecordEvent_ok PurgeExpiredLogs_ok in simp_all)
qed

interpretation audit_run: step_system audit_step run_ok
  by unfold_locales (rule audit_step_ok)

section \<open>What a query over a period shows\<close>

definition period_filter :: "audit_filter \<Rightarrow> bool" where
  "period_filter f \<longleftrightarrow>
     af_user f = None \<and> af_action f = None \<and> af_outcome f = None \<and> af_exclude f = None
     \<and> af_rtype f = None \<and> af_rid f = None \<and> af_source f = None"

lemma period_rows:
  assumes "rows_ok ls" "period_filter f"
  shows "rows_ok (filter (buildAuditWhere f) ls)"
proof -
  have srt: "sorted (map al_ts ls)"
    using assms(1) by (simp add: rows_ok_def)
  define ls1 where "ls1 = filter (\<lambda>l. clause (\<lambda>t. al_ts l \<ge> t) (af_from f)) ls"
  have ok1: "rows_ok ls1"
  proof (cases "af_from f")
    case (Some t)
    then have "ls1 = filter (\<lambda>l. \<not> al_ts l < t) ls"
      by (simp add: ls1_def clause_def not_less)
    with assms(1) filter_sorted_suffix [OF srt] show ?thesis
      by (simp add: rows_ok_dropWhile)
  qed (use assms(1) in \<open>simp add: ls1_def clause_def\<close>)
  have "filter (buildAuditWhere f) ls = filter (\<lambda>l. clause (\<lambda>t. al_ts l \<le> t) (af_to f)) ls1"
    using assms(2) by (auto simp: ls1_def buildAuditWhere_def period_filter_def clause_def intro!: filter_cong)
  also have "rows_ok \<dots>"
  proof (cases "af_to f")
    case (Some t)
    have "sorted (map al_ts ls1)"
      using ok1 by (simp add: rows_ok_def)
    from filter_sorted_prefix [OF this, of t] ok1 Some show ?thesis
      by (simp add: clause_def rows_ok_takeWhile)
  qed (use ok1 in \<open>simp add: clause_def\<close>)
  finally show ?thesis .
qed

lemma query_rows:
  assumes "rows_ok ls"
  shows "verifyChain (take n (rev (sort_key log_key ls))) = IntegrityOK"
proof -
  have "sort_key log_key ls = ls"
    using assms by (intro sort_key_rows) (simp add: rows_ok_def)
  moreover have "rows_ok (drop (length ls - n) ls)"
    using assms rows_ok_append [of "take (length ls - n) ls" "drop (length ls - n) ls"] by simp
  ultimately show ?thesis
    by (simp add: verifyChain_iff rev_take rows_ok_def)
qed

text \<open>C29: After any run of appends, retention purges, restarts and head resets, whichever statements failed,
  a query for a period answers a page whose hash chain verifies.\<close>
theorem period_query_verifies:
  assumes "run_ok cs" "period_filter f"
    and "\<not> ae_fails env AudCount" "\<not> ae_fails env AudQuery"
  shows "\<exists>logs n. QueryLogs env f (snd (fold audit_step es cs)) = Inr (logs, n, IntegrityOK)"
proof -
  have "run_ok (fold audit_step es cs)"
    using assms(1) by (rule audit_run.run_inv)
  then have "rows_ok (as_logs (snd (fold audit_step es cs)))"
    by (simp add: run_ok_def chain_inv_def)
  from query_rows [OF period_rows [OF this assms(2)]] assms(3,4) show ?thesis
    by (simp add: QueryLogs_def QueryAuditLogs_def Let_def)
qed

definition empty_trail :: audit_store where
  "empty_trail = \<lparr>as_logs = [], as_head = Some (0, []), as_config = (\<lambda>_. None)\<rparr>"

definition steady_audit :: "go_string \<Rightarrow> audit_env" where
  "steady_audit i = \<lparr>ae_fails = (\<lambda>_. False), ae_now = 0, ae_id = i\<rparr>"

definition all_rows :: audit_filter where
  "all_rows = \<lparr>af_from = None, af_to = None, af_user = None, af_action = None, af_outcome = None, af_exclude = None,
     af_rtype = None, af_rid = None, af_source = None, af_limit = 100\<rparr>"

definition login_by :: "go_string \<Rightarrow> audit_event" where
  "login_by u = \<lparr>ev_user = u, ev_action = ''login'', ev_details = [], ev_rtype = [], ev_rid = [], ev_ip = [],
     ev_outcome = ''success'', ev_source = ''api''\<rparr>"

lemma empty_trail_ok: "run_ok (c, empty_trail)"
  by (simp add: run_ok_def chain_inv_def rows_ok_def linked_def empty_trail_def)

theorem period_query_verifies_witness:
  "\<exists>logs n. QueryLogs (steady_audit []) (all_rows\<lparr>af_from := Some 3000\<rparr>) (snd (fold audit_step
     [AtRecord 5000 (steady_audit ''a'') (login_by ''ann''), AtRecord 0 (steady_audit ''b'') (login_by ''bob''),
      AtPurge 9 (steady_audit ''c'') (steady_audit []) (steady_audit ''d''), AtRestart (steady_audit [])]
     (0, empty_trail))) = Inr (logs, n, IntegrityOK)"
  by (rule period_query_verifies [OF empty_trail_ok]) (simp_all add: period_filter_def all_rows_def steady_audit_def)

section \<open>What the chain shows of a page\<close>








text \<open>The rows of an honest page, and the same page with another address in it.\<close>

definition chained_row :: "int \<Rightarrow> go_string \<Rightarrow> go_string \<Rightarrow> audit_log" where
  "chained_row s h ip =
     \<lparr>al_id = show_int s, al_user = ''ann'', al_action = ''login'', al_details = [], al_ts = 0, al_rtype = [], al_rid = [],
      al_ip = ip, al_outcome = ''success'', al_source = ''api'', al_hash = h, al_seq = Some s\<rparr>"




text \<open>The id, the address and the source of a row are outside the chain.\<close>

lemma check_row_unhashed:
  "check_row (newer\<lparr>al_id := i, al_ip := ip, al_source := src\<rparr>) older = check_row newer older"
  "check_row newer (older\<lparr>al_id := i, al_ip := ip, al_source := src\<rparr>) = check_row newer older"
  by (cases "al_seq newer"; simp add: check_row_def log_event_def)+

lemma unhashed_columns_unprotected:
  "verifyChain (map (\<lambda>l. l\<lparr>al_id := f l, al_ip := g l, al_source := h l\<rparr>) P) = verifyChain P"
proof (induction P rule: verifyChain.induct)
  case (1 newer older ls)
  then show ?case
    by (simp add: check_row_unhashed split: integrity.split)
qed simp_all

section \<open>Filtered pages\<close>

lemma chained_after:
  assumes "linked (x # ys)" "sorted_wrt (\<lambda>a b. log_key a < log_key b) (x # ys)" "al_seq x = Some s" "0 < s"
    and "y \<in> set (x # ys)"
  shows "al_seq y \<noteq> None"
proof
  assume "al_seq y = None"
  then have "y \<in> set ys"
    using assms(3,5) by auto
  with assms(2) have "log_key x < log_key y"
    by simp
  with assms(3,4) \<open>al_seq y = None\<close> show False
    by (simp add: log_key_def)
qed

lemma linked_seq:
  assumes "linked (x # ys @ [y])" "al_seq x = Some s" "\<forall>l\<in>set (ys @ [y]). al_seq l \<noteq> None"
  shows "al_seq y = Some (s + int (length ys) + 1)"
  using assms
proof (induction ys arbitrary: x s)
  case Nil
  then show ?case
    by (auto simp: linked_def check_row_def Let_def split: option.splits if_splits)
next
  case (Cons w ys)
  have "check_row w x = IntegrityOK" and tl: "linked (w # ys @ [y])"
    using Cons.prems(1) by (simp_all add: linked_def)
  with Cons.prems(2,3) have "al_seq w = Some (s + 1)"
    by (auto simp: check_row_def Let_def split: option.splits if_splits)
  from Cons.IH [OF tl this] Cons.prems(3) show ?case
    by simp
qed

text \<open>C31: A query that filters by anything but time can report a broken chain over rows that are intact: when a row it
  leaves out stands between the two newest it returns, the answer is a gap at the newest.\<close>
theorem filtered_query_false_alarm:
  assumes "rows_ok (as_logs st)" "as_logs st = xs @ x # ys @ y # zs" "al_seq x = Some s" "ys \<noteq> []"
    and "\<forall>l\<in>set ys \<union> set zs. \<not> buildAuditWhere f l" "buildAuditWhere f x" "buildAuditWhere f y"
    and "\<not> ae_fails env AudCount" "\<not> ae_fails env AudQuery" "2 \<le> page_limit (af_limit f)"
  shows "\<exists>logs n. QueryLogs env f st = Inr (logs, n, Break (Some (s + int (length ys) + 1)) BreakGap)"
proof -
  let ?found = "filter (buildAuditWhere f) (as_logs st)"
  have part: "linked (x # ys @ [y])" "sorted_wrt (\<lambda>a b. log_key a < log_key b) (x # ys @ [y])" "0 < s"
    using assms(1,2,3) rows_ok_append [of xs "(x # ys @ [y]) @ zs"] rows_ok_append [of "x # ys @ [y]" zs]
    by (simp_all add: rows_ok_def)
  have seq: "al_seq y = Some (s + int (length ys) + 1)"
    using chained_after [OF part(1,2) assms(3) part(3)] by (intro linked_seq [OF part(1) assms(3)]) auto
  have "filter (buildAuditWhere f) ys = []" "filter (buildAuditWhere f) zs = []"
    using assms(5) by (simp_all add: filter_empty_conv)
  then have found: "?found = filter (buildAuditWhere f) xs @ [x, y]"
    using assms(2,6,7) by simp
  have "sort_key log_key ?found = ?found"
    using assms(1) by (intro sort_key_rows) (simp add: rows_ok_def sorted_wrt_filter)
  moreover obtain k where "page_limit (af_limit f) = 2 + k"
    using le_Suc_ex [OF assms(10)] by blast
  ultimately have page: "take (page_limit (af_limit f)) (rev (sort_key log_key ?found))
      = y # x # take k (rev (filter (buildAuditWhere f) xs))"
    by (simp add: found)
  have "check_row y x = Break (Some (s + int (length ys) + 1)) BreakGap"
    using seq assms(3,4) by (simp add: check_row_def Let_def)
  with page assms(8,9) show ?thesis
    by (simp add: QueryLogs_def QueryAuditLogs_def Let_def)
qed

definition three_logins :: "audit_store" where
  "three_logins = snd (fold audit_step
     [AtRecord 5000 (steady_audit ''a'') (login_by ''ann''), AtRecord 0 (steady_audit ''b'') (login_by ''bob''),
      AtRecord 0 (steady_audit ''c'') (login_by ''ann'')] (0, empty_trail))"

lemma three_logins_rows:
  obtains x w y where "as_logs three_logins = [] @ x # [w] @ y # []" "al_seq x = Some 1"
    "al_user x = ''ann''" "al_user w = ''bob''" "al_user y = ''ann''"
  by (simp add: three_logins_def RecordEvent_def appendChained_def AppendChained_def insert_log_def finish_entry_def
      event_log_def at_time_def steady_audit_def empty_trail_def login_by_def computeChainHash_def Let_def)

theorem filtered_query_false_alarm_witness:
  "\<exists>logs n. QueryLogs (steady_audit []) (all_rows\<lparr>af_user := Some ''ann''\<rparr>) three_logins
     = Inr (logs, n, Break (Some 3) BreakGap)"
proof -
  obtain x w y where r: "as_logs three_logins = [] @ x # [w] @ y # []" "al_seq x = Some 1"
    "al_user x = ''ann''" "al_user w = ''bob''" "al_user y = ''ann''"
    by (rule three_logins_rows)
  have "run_ok (fold audit_step
     [AtRecord 5000 (steady_audit ''a'') (login_by ''ann''), AtRecord 0 (steady_audit ''b'') (login_by ''bob''),
      AtRecord 0 (steady_audit ''c'') (login_by ''ann'')] (0, empty_trail))"
    by (rule audit_run.run_inv [OF empty_trail_ok])
  then have ok: "rows_ok (as_logs three_logins)"
    by (simp only: run_ok_def chain_inv_def three_logins_def)
  from filtered_query_false_alarm [OF ok r(1,2), of "all_rows\<lparr>af_user := Some ''ann''\<rparr>" "steady_audit []"] r(3-5)
  show ?thesis
    by (simp add: buildAuditWhere_def clause_def all_rows_def steady_audit_def page_limit_def Let_def)
qed

section \<open>Retention\<close>

lemma GetRetentionDays_floor: "GetRetentionDays env st = Inr days \<Longrightarrow> MinRetentionDays \<le> days"
  by (auto simp: GetRetentionDays_def MinRetentionDays_def split: sum.splits option.splits if_splits)

lemma RecordCritical_cases:
  obtains (failed) e where "RecordCritical env ev st = (Some e, st)"
  | (appended) l st' where "RecordCritical env ev st = (None, st')" "as_logs st' = as_logs st @ [l]"
      "al_action l = ev_action ev" "al_outcome l = ev_outcome ev" "al_ts l = truncated (ae_now env)"
      "l \<notin> set (as_logs st)"
proof (cases rule: AppendChained_cases [of env
      "\<lambda>nextSeq prev now. event_log (ae_id env) ev (computeChainHash prev nextSeq now ev)" st])
  case (failed e)
  then show thesis
    by (intro that(1)) (simp add: RecordCritical_def appendChained_def)
next
  case (appended s h entry)
  let ?l = "finish_entry env (truncated (ae_now env)) (s + 1) entry"
  have "?l \<notin> set (as_logs st)"
  proof
    assume "?l \<in> set (as_logs st)"
    then have "fst (insert_log env ?l st) \<noteq> None"
      by (auto simp: insert_log_def)
    then have "fst (AppendChained env (\<lambda>nextSeq prev now. event_log (ae_id env) ev (computeChainHash prev nextSeq now ev)) st) \<noteq> None"
      using appended(1,2) by (auto simp: AppendChained_def Let_def truncated_def split: option.split prod.split)
    with appended(4) show False
      by simp
  qed
  with appended show thesis
    by (intro that(2) [of _ ?l])
      (auto simp: RecordCritical_def appendChained_def finish_entry_def event_log_def)
qed

lemma RecordEvent_keeps: "l \<in> set (as_logs st) \<Longrightarrow> l \<in> set (as_logs (snd (RecordEvent env ev st)))"
  using RecordCritical_cases [of env ev st] by (metis RecordCritical_def RecordEvent_def Un_iff set_append snd_conv)

text \<open>C32: A retention purge removes no row of the last ninety days, for every stored retention that
  \<open>AddDate\<close> computes without overflow (at most \<open>10 ^ 14\<close> days), also one below the floor, and when
  it removes any row it has first added the row of its own attempt, which it keeps.\<close>
theorem purge_keeps_recent:
  assumes "PurgeExpiredLogs env1 env env2 st = (r, st')" "ae_now env1 = ae_now env"
    and "\<forall>days. GetRetentionDays env st = Inr days \<longrightarrow> days \<le> 10 ^ 14"
    and "0 \<le> ae_now env" "ae_now env < 2 ^ 63 * second_ns"
    and "l \<in> set (as_logs st)" "l \<notin> set (as_logs st')"
  shows "al_ts l < ae_now env - 90 * day_ns
    \<and> (\<exists>a\<in>set (as_logs st'). a \<notin> set (as_logs st) \<and> al_action a = ''audit_purge'' \<and> al_outcome a = ''attempt'')"
proof (cases "GetRetentionDays env st")
  case (Inl e)
  with assms show ?thesis
    by (simp add: PurgeExpiredLogs_def)
next
  case (Inr days)
  define cutoff where "cutoff = add_days (- days) (ae_now env)"
  have "0 \<le> ae_now env div second_ns" "ae_now env div second_ns < 2 ^ 63"
    using assms(4,5) by (auto simp: second_ns_def)
  then have "cutoff = ae_now env - days * day_ns"
    using assms(3) Inr GetRetentionDays_floor [OF Inr]
    by (simp add: cutoff_def add_days_exact day_ns_def MinRetentionDays_def)
  moreover have "90 * day_ns \<le> days * day_ns"
    using GetRetentionDays_floor [OF Inr] by (intro mult_right_mono) (simp_all add: MinRetentionDays_def day_ns_def second_ns_def)
  ultimately have cut: "cutoff \<le> ae_now env - 90 * day_ns"
    by simp
  define ev where "ev = purge_attempt days cutoff"
  have ev: "ev_action ev = ''audit_purge''" "ev_outcome ev = ''attempt''"
    by (simp_all add: ev_def purge_attempt_def purge_event_def)
  have run: "PurgeExpiredLogs env1 env env2 st = (case RecordCritical env1 ev st of
          (Some _, st1) \<Rightarrow> (Inl ErrAuditUnavailable, st1)
        | (None, st1) \<Rightarrow> (case DeleteBefore env cutoff st1 of
            (Inl e, st2) \<Rightarrow> (Inl (OpError e),
              snd (RecordEvent env2 (purge_event ''failure'' (''retention_days='' @ show_int days)) st2))
          | (Inr n, st2) \<Rightarrow> (Inr n, snd (RecordEvent env2 (purge_event ''success''
              (''rows_deleted='' @ show_int (int n) @ '' retention_days='' @ show_int days)) st2))))"
    unfolding PurgeExpiredLogs_def Let_def Inr cutoff_def ev_def by simp
  show ?thesis
  proof (cases rule: RecordCritical_cases [of env1 ev st])
    case (failed e)
    with assms run show ?thesis
      by simp
  next
    case (appended a st1)
    show ?thesis
    proof (cases "ae_fails env AudDelete")
      case True
      then have "l \<in> set (as_logs st')"
        using assms(1,6) run appended by (auto simp: DeleteBefore_def intro!: RecordEvent_keeps)
      with assms(7) show ?thesis
        by simp
    next
      case False
      let ?st2 = "st1\<lparr>as_logs := filter (\<lambda>l. \<not> al_ts l < cutoff) (as_logs st1)\<rparr>"
      have keep: "x \<in> set (as_logs st')" if "x \<in> set (as_logs st1)" "\<not> al_ts x < cutoff" for x
        using assms(1) run appended(1) False that by (auto simp: DeleteBefore_def intro!: RecordEvent_keeps)
      have "al_ts l < cutoff"
        using keep [of l] assms(6,7) appended(2) by auto
      moreover have "\<not> al_ts a < cutoff"
      proof -
        have "ae_now env - microsecond < truncated (ae_now env)"
          using mod_less_divisor pos_mod_bound [of microsecond "ae_now env"]
          by (simp add: truncated_def microsecond_def minus_mod_eq_div_mult [symmetric])
        with cut appended(5) assms(2) show ?thesis
          by (simp add: microsecond_def day_ns_def second_ns_def)
      qed
      then have "a \<in> set (as_logs st')"
        using keep [of a] appended(2) by simp
      ultimately show ?thesis
        using cut appended ev by (intro conjI bexI [of _ a]) auto
    qed
  qed
qed

definition old_trail :: audit_store where
  "old_trail = \<lparr>as_logs = [chained_row 1 (sha256_hex []) []], as_head = Some (1, sha256_hex []), as_config = (\<lambda>_. None)\<rparr>"

definition day_400 :: "go_string \<Rightarrow> audit_env" where
  "day_400 i = (steady_audit i)\<lparr>ae_now := 400 * day_ns\<rparr>"

lemma old_trail_purged:
  "chained_row 1 (sha256_hex []) [] \<notin> set (as_logs (snd (PurgeExpiredLogs (day_400 ''attempt'') (day_400 []) (day_400 ''result'') old_trail)))"
  by (simp add: PurgeExpiredLogs_def GetRetentionDays_def GetAuditConfig_def RecordCritical_def RecordEvent_def
      appendChained_def AppendChained_def insert_log_def DeleteBefore_def finish_entry_def event_log_def purge_event_def
      purge_attempt_def old_trail_def day_400_def steady_audit_def chained_row_def computeChainHash_def Let_def day_ns_def
      add_days_def wrap64_def second_ns_def microsecond_def show_int_def show_base.simps digit_char_def)

theorem purge_keeps_recent_witness:
  "\<exists>a\<in>set (as_logs (snd (PurgeExpiredLogs (day_400 ''attempt'') (day_400 []) (day_400 ''result'') old_trail))).
     al_action a = ''audit_purge'' \<and> al_outcome a = ''attempt''"
proof -
  obtain r st' where run: "PurgeExpiredLogs (day_400 ''attempt'') (day_400 []) (day_400 ''result'') old_trail = (r, st')"
    by fastforce
  have "chained_row 1 (sha256_hex []) [] \<in> set (as_logs old_trail)"
    by (simp add: old_trail_def)
  moreover have "GetRetentionDays (day_400 []) old_trail = Inr 365"
    by (simp add: GetRetentionDays_def GetAuditConfig_def old_trail_def day_400_def steady_audit_def)
  moreover have "0 \<le> ae_now (day_400 [])" "ae_now (day_400 []) < 2 ^ 63 * second_ns"
    by (simp_all add: day_400_def day_ns_def second_ns_def)
  ultimately show ?thesis
    using purge_keeps_recent [OF run, of "chained_row 1 (sha256_hex []) []"] old_trail_purged run
    by (auto simp: day_400_def)
qed

text \<open>A retention the service accepts can be so long that the subtraction wraps and the cutoff lies in the
  future: the purge then deletes a row of this very moment.\<close>

lemma huge_retention_purges_recent:
  fixes i :: go_string
  defines "st \<equiv> old_trail\<lparr>as_logs := [(chained_row 1 (sha256_hex []) [])\<lparr>al_ts := 400 * day_ns\<rparr>]\<rparr>"
  defines "st1 \<equiv> snd (SetRetentionDays (day_400 i) 213503982334601 st)"
  shows "fst (SetRetentionDays (day_400 i) 213503982334601 st) = None
    \<and> GetRetentionDays (day_400 i) st1 = Inr 213503982334601
    \<and> add_days (- 213503982334601) (400 * day_ns) = 400 * day_ns + 25216 * second_ns
    \<and> as_logs (snd (DeleteBefore (day_400 i) (add_days (- 213503982334601) (400 * day_ns)) st1)) = []"
proof -
  have cut: "add_days (- 213503982334601) (400 * day_ns) = 400 * day_ns + 25216 * second_ns"
    by (simp add: add_days_def wrap64_def day_ns_def second_ns_def)
  have "Atoi (show_int 213503982334601) = Some 213503982334601" "show_int 213503982334601 \<noteq> []"
    by (rule Atoi_show_int) (simp_all add: show_int_def show_base.simps)
  then show ?thesis
    by (simp add: cut st1_def st_def SetRetentionDays_def SetAuditConfig_def GetRetentionDays_def GetAuditConfig_def
        MinRetentionDays_def DeleteBefore_def old_trail_def day_400_def steady_audit_def second_ns_def)
qed

section \<open>Restoring\<close>

text \<open>After a restore has brought back rows that are linked, with whatever head, resetting the head
  makes later appends continue the chain: a query for a period verifies over old and new rows together.\<close>
theorem restored_trail_continues:
  assumes "rows_ok (as_logs st)" "\<forall>l\<in>set (as_logs st). al_ts l \<le> truncated c"
    and "ResetAuditChainHead env st = (None, st')" "period_filter f"
    and "\<not> ae_fails qenv AudCount" "\<not> ae_fails qenv AudQuery"
  shows "\<exists>logs n. QueryLogs qenv f (snd (fold audit_step es (c, st'))) = Inr (logs, n, IntegrityOK)"
proof (rule period_query_verifies [OF _ assms(4-6)])
  show "run_ok (c, st')"
    using ResetAuditChainHead_inv [OF assms(1,3)] assms(2) by (simp add: run_ok_def list_all_iff)
qed

theorem restored_trail_continues_witness:
  "\<exists>logs n. QueryLogs (steady_audit []) all_rows (snd (fold audit_step
     [AtRecord 7 (steady_audit ''b'') (login_by ''bob'')]
     (5000, snd (ResetAuditChainHead (steady_audit []) (old_trail\<lparr>as_head := Some (9, [])\<rparr>))))) = Inr (logs, n, IntegrityOK)"
proof (rule restored_trail_continues)
  show "rows_ok (as_logs (old_trail\<lparr>as_head := Some (9, [])\<rparr>))"
    by (simp add: old_trail_def rows_ok_def linked_def chained_row_def)
  show "ResetAuditChainHead (steady_audit []) (old_trail\<lparr>as_head := Some (9, [])\<rparr>)
      = (None, snd (ResetAuditChainHead (steady_audit []) (old_trail\<lparr>as_head := Some (9, [])\<rparr>)))"
    by (simp add: ResetAuditChainHead_def AuditChainTip_def newest_def old_trail_def chained_row_def steady_audit_def
        insertAuditChainHeadIfAbsent_def)
qed (simp_all add: old_trail_def chained_row_def truncated_def microsecond_def period_filter_def all_rows_def steady_audit_def)

end
