(* ===== verification/AuditReports.thy ===== *)
theory AuditReports
  imports AuditChain
begin

text \<open>
  The SOC 2 and GDPR reports over the audit trail
  (\<open>src/internal/services/audit/compliance_report_service.go\<close>).  The CSV forms are left out; \<open>TopActions\<close> comes
  from a Go map, so it is a function here.
\<close>

definition outcomeAttempt :: go_string where "outcomeAttempt = ''attempt''"

record soc2_report =
  sr_total :: int
  sr_users :: "go_string set"
  sr_auth_ok :: int
  sr_auth_bad :: int
  sr_data :: int
  sr_admin :: int
  sr_keys :: int
  sr_actions :: "go_string \<Rightarrow> int"

definition empty_soc2 :: soc2_report where
  "empty_soc2 =
     \<lparr>sr_total = 0, sr_users = {}, sr_auth_ok = 0, sr_auth_bad = 0, sr_data = 0, sr_admin = 0, sr_keys = 0,
      sr_actions = (\<lambda>_. 0)\<rparr>"

definition is_auth_action :: "go_string \<Rightarrow> bool" where
  "is_auth_action a \<longleftrightarrow> has_prefix a ''authenticate'' \<or> a = ''validate_session''"

definition soc2_category :: "audit_log \<Rightarrow> soc2_report \<Rightarrow> soc2_report" where
  "soc2_category l r =
     (if is_auth_action (al_action l) then
        (if al_outcome l = ''success'' then r\<lparr>sr_auth_ok := sr_auth_ok r + 1\<rparr>
         else r\<lparr>sr_auth_bad := sr_auth_bad r + 1\<rparr>)
      else if al_rtype l = ''secret'' then r\<lparr>sr_data := sr_data r + 1\<rparr>
      else if al_rtype l = ''key'' then r\<lparr>sr_keys := sr_keys r + 1\<rparr>
      else if has_prefix (al_action l) ''create_user'' \<or> has_prefix (al_action l) ''delete_user''
        \<or> has_prefix (al_action l) ''update_user'' then r\<lparr>sr_admin := sr_admin r + 1\<rparr>
      else r)"

definition soc2_row :: "soc2_report \<Rightarrow> audit_log \<Rightarrow> soc2_report" where
  "soc2_row r l =
     (if al_outcome l = outcomeAttempt then r
      else
        let r = r\<lparr>sr_total := sr_total r + 1\<rparr>;
            r = (if al_user l \<noteq> [] then r\<lparr>sr_users := insert (al_user l) (sr_users r)\<rparr> else r);
            r = r\<lparr>sr_actions := (sr_actions r)(al_action l := sr_actions r (al_action l) + 1)\<rparr> in
        soc2_category l r)"

definition report_filter :: "instant \<Rightarrow> instant \<Rightarrow> go_string option \<Rightarrow> go_string option \<Rightarrow> int \<Rightarrow> audit_filter" where
  "report_filter from till user exclude limit =
     \<lparr>af_from = Some from, af_to = Some till, af_user = user, af_action = None, af_outcome = None,
      af_exclude = exclude, af_rtype = None, af_rid = None, af_source = None, af_limit = limit\<rparr>"

definition GenerateSOC2Report ::
  "audit_env \<Rightarrow> instant \<Rightarrow> instant \<Rightarrow> audit_store \<Rightarrow> audit_error + soc2_report" where
  "GenerateSOC2Report env from till st =
     (case QueryAuditLogs env (report_filter from till None None 1000) st of
        Inl e \<Rightarrow> Inl e
      | Inr (logs, _) \<Rightarrow> Inr (foldl soc2_row empty_soc2 logs))"

record gdpr_report =
  gr_subject :: go_string
  gr_total :: nat
  gr_access :: int
  gr_deletions :: int
  gr_auth :: int
  gr_events :: "audit_log list"

definition gdpr_row :: "gdpr_report \<Rightarrow> audit_log \<Rightarrow> gdpr_report" where
  "gdpr_row r l =
     (if al_outcome l = outcomeAttempt then r
      else if al_rtype l = ''secret'' \<and> (al_action l = ''get_secret'' \<or> al_action l = ''list_secrets'')
        then r\<lparr>gr_access := gr_access r + 1\<rparr>
      else if has_prefix (al_action l) ''delete'' then r\<lparr>gr_deletions := gr_deletions r + 1\<rparr>
      else if is_auth_action (al_action l) then r\<lparr>gr_auth := gr_auth r + 1\<rparr>
      else r)"

text \<open>\<open>env'\<close> is the environment of the second query, the one for the total.\<close>

definition GenerateGDPRReport ::
  "audit_env \<Rightarrow> audit_env \<Rightarrow> instant \<Rightarrow> instant \<Rightarrow> go_string \<Rightarrow> audit_store \<Rightarrow> audit_error + gdpr_report" where
  "GenerateGDPRReport env env' from till subject st =
     (case QueryAuditLogs env (report_filter from till (Some subject) None 1000) st of
        Inl e \<Rightarrow> Inl e
      | Inr (logs, _) \<Rightarrow>
          (case QueryAuditLogs env' (report_filter from till (Some subject) (Some outcomeAttempt) 1) st of
             Inl e \<Rightarrow> Inl e
           | Inr (_, n) \<Rightarrow>
               Inr (foldl gdpr_row
                 \<lparr>gr_subject = subject, gr_total = n, gr_access = 0, gr_deletions = 0, gr_auth = 0, gr_events = logs\<rparr>
                 logs)))"

section \<open>Properties\<close>

definition soc2_sum :: "soc2_report \<Rightarrow> int" where
  "soc2_sum r = sr_auth_ok r + sr_auth_bad r + sr_data r + sr_admin r + sr_keys r"

lemma soc2_category_simps:
  "sr_total (soc2_category l r) = sr_total r" "sr_users (soc2_category l r) = sr_users r"
  "sr_actions (soc2_category l r) = sr_actions r" "soc2_sum (soc2_category l r) \<le> soc2_sum r + 1"
  by (simp_all add: soc2_category_def soc2_sum_def)

definition counted :: "audit_log list \<Rightarrow> audit_log list" where
  "counted = filter (\<lambda>l. al_outcome l \<noteq> outcomeAttempt)"

lemma soc2_fold:
  "sr_total (foldl soc2_row r ls) = sr_total r + int (length (counted ls))
   \<and> sr_users (foldl soc2_row r ls) = sr_users r \<union> (set (map al_user (counted ls)) - {[]})
   \<and> sr_actions (foldl soc2_row r ls) a = sr_actions r a + int (length (filter (\<lambda>l. al_action l = a) (counted ls)))
   \<and> soc2_sum (foldl soc2_row r ls) - sr_total (foldl soc2_row r ls) \<le> soc2_sum r - sr_total r"
proof (induction ls arbitrary: r)
  case (Cons l ls)
  have "soc2_sum (soc2_row r l) - sr_total (soc2_row r l) \<le> soc2_sum r - sr_total r"
    using soc2_category_simps(4) [of l] by (auto simp: soc2_row_def Let_def soc2_category_def soc2_sum_def)
  with Cons.IH [of "soc2_row r l"] show ?case
    by (auto simp: counted_def soc2_row_def soc2_category_simps Let_def)
qed (simp add: counted_def)

lemma empty_soc2_simps [simp]:
  "sr_total empty_soc2 = 0" "sr_users empty_soc2 = {}" "sr_actions empty_soc2 a = 0" "soc2_sum empty_soc2 = 0"
  by (simp_all add: empty_soc2_def soc2_sum_def)

text \<open>A SOC 2 report counts every result row of the page it reads once in its total and once under its action, no
  attempt row, and no row under two categories; the page, and so every figure, stops at a
  thousand rows however many match.\<close>
theorem soc2_report_counts:
  assumes "GenerateSOC2Report env from till st = Inr r"
  shows "\<exists>logs n. QueryAuditLogs env (report_filter from till None None 1000) st = Inr (logs, n)
    \<and> sr_total r = int (length (counted logs)) \<and> sr_total r \<le> 1000
    \<and> (\<forall>a. sr_actions r a = int (length (filter (\<lambda>l. al_action l = a) (counted logs))))
    \<and> sr_users r = set (map al_user (counted logs)) - {[]} \<and> soc2_sum r \<le> sr_total r"
proof -
  obtain logs n where q: "QueryAuditLogs env (report_filter from till None None 1000) st = Inr (logs, n)"
    and r: "r = foldl soc2_row empty_soc2 logs"
    using assms by (auto simp: GenerateSOC2Report_def split: sum.splits)
  have "length logs \<le> 1000"
    using q by (auto simp: QueryAuditLogs_def Let_def page_limit_def report_filter_def split: if_splits)
  moreover have "length (counted logs) \<le> length logs"
    by (simp add: counted_def)
  ultimately have "sr_total r \<le> 1000"
    using soc2_fold [of empty_soc2 logs] r by simp
  moreover have "soc2_sum r \<le> sr_total r"
    using soc2_fold [of empty_soc2 logs "[]"] by (simp add: r)
  ultimately show ?thesis
    using q r soc2_fold [of empty_soc2 logs] by simp
qed

definition quiet_trail :: audit_store where
  "quiet_trail =
     \<lparr>as_logs = [\<lparr>al_id = ''a'', al_user = ''ann'', al_action = ''authenticate_user'', al_details = [], al_ts = 5,
        al_rtype = [], al_rid = [], al_ip = [], al_outcome = ''failure'', al_source = [], al_hash = [], al_seq = None\<rparr>],
      as_head = None, as_config = (\<lambda>_. None)\<rparr>"

definition report_env :: audit_env where
  "report_env = \<lparr>ae_fails = (\<lambda>_. False), ae_now = 0, ae_id = []\<rparr>"

theorem soc2_report_counts_witness:
  "\<exists>r. GenerateSOC2Report report_env 0 9 quiet_trail = Inr r \<and> sr_actions r ''authenticate_user'' = 1"
proof -
  obtain r where r: "GenerateSOC2Report report_env 0 9 quiet_trail = Inr r"
    by (simp add: GenerateSOC2Report_def QueryAuditLogs_def report_env_def Let_def)
  obtain logs n where logs: "QueryAuditLogs report_env (report_filter 0 9 None None 1000) quiet_trail = Inr (logs, n)"
    "sr_actions r ''authenticate_user'' = int (length (filter (\<lambda>l. al_action l = ''authenticate_user'') (counted logs)))"
    using soc2_report_counts [OF r] by blast
  have "logs = as_logs quiet_trail"
    using logs(1) by (simp add: QueryAuditLogs_def report_env_def quiet_trail_def report_filter_def buildAuditWhere_def
        clause_def page_limit_def Let_def)
  with logs(2) have "sr_actions r ''authenticate_user'' = 1"
    by (simp add: quiet_trail_def counted_def outcomeAttempt_def)
  with r show ?thesis
    by blast
qed

end
