(* ===== verification/TableOrder.thy ===== *)
theory TableOrder
  imports Prelude
begin

text \<open>
  The order in which a restore clears and fills the tables
  (\<open>src/internal/backup/table_order.go\<close>, \<open>src/internal/backup/backup.go\<close>): a depth-first search over the foreign keys.

  The visits are written over any dependency map, so that the errors of a circular one are in the model; the
  map of the code is \<open>tableDependencies\<close>.
\<close>

section \<open>The search\<close>

definition tableDependencies :: "(go_string \<times> go_string list) list" where
  "tableDependencies =
    [(''users'', []), (''vaults'', []), (''bootstrap_tokens'', []), (''audit_logs'', []), (''access_policies'', []),
     (''oauth2_clients'', []), (''vault_provisioning_grants'', []), (''audit_config'', []), (''audit_chain_head'', []),
     (''login_failures'', []), (''secrets'', []), (''keys'', []), (''certificates'', []), (''crl'', []),
     (''rotation_policies'', []),
     (''user_sessions'', [''users'']), (''user_roles'', [''users'']), (''role_assignments'', [''vaults'']),
     (''vault_webhook_configs'', [''vaults'']), (''key_tags'', [''keys'']), (''key_versions'', [''keys'']),
     (''certificate_tags'', [''certificates'']), (''certificate_versions'', [''certificates'']),
     (''certificate_policies'', [''certificates'']), (''key_rotation_policies'', [''keys'']),
     (''secret_tags'', [''secrets'']), (''secret_versions'', [''secrets'']),
     (''secret_rotation_history'', [''secrets'', ''rotation_policies'']),
     (''rotation_reminders'', [''secrets'', ''rotation_policies'']),
     (''secret_policies'', [''secrets'', ''rotation_policies''])]"

definition parents_of :: "(go_string \<times> go_string list) list \<Rightarrow> go_string \<Rightarrow> go_string list" where
  "parents_of deps t = (case map_of deps t of None \<Rightarrow> [] | Some ps \<Rightarrow> ps)"

datatype mark = InFlight | Visited

type_synonym search = "(go_string \<Rightarrow> mark option) \<times> go_string list"

definition unvisited :: "(go_string \<times> go_string list) list \<Rightarrow> (go_string \<Rightarrow> mark option) \<Rightarrow> nat" where
  "unvisited deps m = length (filter (\<lambda>t. m t = None) (map fst deps))"

text \<open>
  \<open>visit\<close> for each table of a list in turn; visiting a table visits its parents.  An error names the table the
  cycle was found at.  A table that is being visited or has been visited is not visited again, so a
  nested call always has fewer tables left.
\<close>

function visit_tables ::
  "(go_string \<times> go_string list) list \<Rightarrow> go_string set \<Rightarrow> go_string list \<Rightarrow> search \<Rightarrow> go_string + search" where
  "visit_tables deps present [] s = Inr s"
| "visit_tables deps present (t # ts) (m, order) =
     (case m t of
        Some Visited \<Rightarrow> visit_tables deps present ts (m, order)
      | Some InFlight \<Rightarrow> Inl t
      | None \<Rightarrow>
          (case visit_tables deps present (filter (\<lambda>p. p \<in> present) (parents_of deps t)) (m(t \<mapsto> InFlight), order) of
             Inl e \<Rightarrow> Inl e
           | Inr (m', order') \<Rightarrow> visit_tables deps present ts (m'(t \<mapsto> Visited), order' @ [t])))"
  by pat_completeness auto

lemma unvisited_mark: "unvisited deps (m(t \<mapsto> x)) \<le> unvisited deps m"
  unfolding unvisited_def by (induction deps) auto

lemma unvisited_less: "m t = None \<Longrightarrow> t \<in> fst ` set deps \<Longrightarrow> unvisited deps (m(t \<mapsto> x)) < unvisited deps m"
proof (induction deps)
  case (Cons d deps)
  then show ?case
    using unvisited_mark [of deps m t x] by (cases "fst d = t") (auto simp: unvisited_def)
qed simp

lemma parents_of_outside: "t \<notin> fst ` set deps \<Longrightarrow> parents_of deps t = []"
  by (simp add: parents_of_def map_of_eq_None_iff [THEN iffD2])

text \<open>A visit never takes a mark back.\<close>

lemma visit_tables_marks:
  assumes "visit_tables_dom (deps, present, ts, s)" "visit_tables deps present ts s = Inr (m', order')"
  shows "unvisited deps m' \<le> unvisited deps (fst s)"
  using assms
proof (induction arbitrary: m' order' rule: visit_tables.pinduct)
  case (1 deps present s)
  then show ?case
    by (cases s) (simp add: visit_tables.psimps)
next
  case (2 deps present t ts m order)
  show ?case
  proof (cases "m t")
    case None
    with 2(1,5) obtain m1 o1 where sub: "visit_tables deps present (filter (\<lambda>p. p \<in> present) (parents_of deps t))
        (m(t \<mapsto> InFlight), order) = Inr (m1, o1)"
      and rest: "visit_tables deps present ts (m1(t \<mapsto> Visited), o1 @ [t]) = Inr (m', order')"
      by (auto simp: visit_tables.psimps split: sum.splits)
    have "unvisited deps m1 \<le> unvisited deps (m(t \<mapsto> InFlight))"
      using 2(2) [OF None sub] by (simp only: fst_conv)
    moreover have "unvisited deps m' \<le> unvisited deps (m1(t \<mapsto> Visited))"
      using 2(3) [OF None sub refl rest] by (simp only: fst_conv)
    ultimately show ?thesis
      using unvisited_mark [of deps m t InFlight] unvisited_mark [of deps m1 t Visited] by simp
  next
    case (Some x)
    with 2(1,4,5) show ?thesis
      by (cases x) (auto simp: visit_tables.psimps)
  qed
qed

termination visit_tables
proof (relation "inv_image (less_than <*lex*> less_than) (\<lambda>(deps, present, ts, s). (unvisited deps (fst s), length ts))")
  fix deps present t ts and m :: "go_string \<Rightarrow> mark option" and order :: "go_string list"
  assume none: "m t = None"
  show "((deps, present, filter (\<lambda>p. p \<in> present) (parents_of deps t), m(t \<mapsto> InFlight), order), deps, present, t # ts, m, order)
    \<in> inv_image (less_than <*lex*> less_than) (\<lambda>(deps, present, ts, s). (unvisited deps (fst s), length ts))"
  proof (cases "t \<in> fst ` set deps")
    case True
    with unvisited_less [of m t deps InFlight] none show ?thesis
      by simp
  next
    case False
    with unvisited_mark [of deps m t InFlight] show ?thesis
      by (auto simp: parents_of_outside)
  qed
next
  fix deps present t ts and m :: "go_string \<Rightarrow> mark option" and order :: "go_string list" and r x y
  assume none: "m t = None" and "visit_tables_dom (deps, present, filter (\<lambda>p. p \<in> present) (parents_of deps t),
      m(t \<mapsto> InFlight), order)"
    and "visit_tables deps present (filter (\<lambda>p. p \<in> present) (parents_of deps t)) (m(t \<mapsto> InFlight), order) = Inr r"
    and "(x, y) = r"
  then have "unvisited deps x \<le> unvisited deps (m(t \<mapsto> InFlight))"
    using visit_tables_marks by (metis fst_conv)
  then show "((deps, present, ts, x(t \<mapsto> Visited), y @ [t]), deps, present, t # ts, m, order)
    \<in> inv_image (less_than <*lex*> less_than) (\<lambda>(deps, present, ts, s). (unvisited deps (fst s), length ts))"
    using unvisited_mark [of deps x t Visited] unvisited_mark [of deps m t InFlight] by auto
qed auto

definition topologicalOrder :: "go_string list \<Rightarrow> go_string + go_string list" where
  "topologicalOrder tables =
     (case visit_tables tableDependencies (set tables) (sort tables) (\<lambda>_. None, []) of
        Inl t \<Rightarrow> Inl t
      | Inr (_, order) \<Rightarrow> Inr order)"

section \<open>Parents come first\<close>

text \<open>Every table stands after those of its parents that are present; \<open>seen\<close> are the tables before the list.\<close>

fun parents_first ::
  "(go_string \<times> go_string list) list \<Rightarrow> go_string set \<Rightarrow> go_string set \<Rightarrow> go_string list \<Rightarrow> bool" where
  "parents_first deps present seen [] \<longleftrightarrow> True"
| "parents_first deps present seen (t # ts) \<longleftrightarrow>
     set (filter (\<lambda>p. p \<in> present) (parents_of deps t)) \<subseteq> seen
     \<and> parents_first deps present (insert t seen) ts"

lemma parents_first_append:
  "parents_first deps present seen (xs @ ys) \<longleftrightarrow>
     parents_first deps present seen xs \<and> parents_first deps present (seen \<union> set xs) ys"
  by (induction xs arbitrary: seen) (simp_all add: Un_commute)

text \<open>\<open>rank\<close> witnesses that the dependencies are not circular.\<close>

definition ranked :: "(go_string \<Rightarrow> nat) \<Rightarrow> (go_string \<times> go_string list) list \<Rightarrow> bool" where
  "ranked rank deps \<longleftrightarrow> (\<forall>t. \<forall>p\<in>set (parents_of deps t). rank p < rank t)"

definition search_ok :: "(go_string \<times> go_string list) list \<Rightarrow> go_string set \<Rightarrow> search \<Rightarrow> bool" where
  "search_ok deps present s \<longleftrightarrow>
     distinct (snd s) \<and> set (snd s) = {t. fst s t = Some Visited} \<and> parents_first deps present {} (snd s)"

lemma visit_tables_ok:
  assumes "ranked rank deps" "search_ok deps present s"
    and "\<And>t x. t \<in> set ts \<Longrightarrow> fst s x = Some InFlight \<Longrightarrow> rank t < rank x"
  shows "\<exists>m' order'. visit_tables deps present ts s = Inr (m', order') \<and> search_ok deps present (m', order')
    \<and> (\<forall>x. m' x = Some InFlight \<longleftrightarrow> fst s x = Some InFlight)
    \<and> set (snd s) \<union> set ts \<subseteq> set order' \<and> (set ts \<subseteq> present \<longrightarrow> set order' \<subseteq> set (snd s) \<union> present)"
  using assms
proof (induction deps present ts s rule: visit_tables.induct)
  case (2 deps present t ts m order)
  show ?case
  proof (cases "m t")
    case (Some k)
    have "k \<noteq> InFlight"
    proof
      assume "k = InFlight"
      with 2(6) [of t t] Some show False
        by simp
    qed
    then have v: "m t = Some Visited"
      using Some by (cases k) simp_all
    then have "t \<in> set order"
      using 2(5) by (simp add: search_ok_def)
    have "\<exists>m' order'. visit_tables deps present ts (m, order) = Inr (m', order') \<and> search_ok deps present (m', order')
      \<and> (\<forall>x. m' x = Some InFlight \<longleftrightarrow> m x = Some InFlight)
      \<and> set order \<union> set ts \<subseteq> set order' \<and> (set ts \<subseteq> present \<longrightarrow> set order' \<subseteq> set order \<union> present)"
      using 2(3) [OF v refl 2(4,5)] 2(6) by auto
    with v \<open>t \<in> set order\<close> show ?thesis
      by auto
  next
    case None
    let ?ps = "filter (\<lambda>p. p \<in> present) (parents_of deps t)"
    let ?m = "m(t \<mapsto> InFlight)"
    have "search_ok deps present (?m, order)"
      using 2(5) None by (auto simp: search_ok_def)
    moreover have "rank p < rank x" if "p \<in> set ?ps" "?m x = Some InFlight" for p x
    proof -
      have "rank p < rank t"
        using 2(4) that(1) by (simp add: ranked_def)
      moreover have "x = t \<or> rank t < rank x"
        using that(2) 2(6) [of t x] by (auto split: if_splits)
      ultimately show ?thesis
        by auto
    qed
    ultimately obtain m1 o1 where sub: "visit_tables deps present ?ps (?m, order) = Inr (m1, o1)"
      and ok1: "search_ok deps present (m1, o1)" and fl1: "\<forall>x. m1 x = Some InFlight \<longleftrightarrow> ?m x = Some InFlight"
      and in1: "set order \<union> set ?ps \<subseteq> set o1" and out1: "set o1 \<subseteq> set order \<union> present"
      using 2(1) [OF None 2(4)] by fastforce
    have t1: "m1 t = Some InFlight"
      using fl1 by simp
    let ?m1 = "m1(t \<mapsto> Visited)"
    have ok2: "search_ok deps present (?m1, o1 @ [t])"
      using ok1 t1 in1 by (auto simp: search_ok_def parents_first_append)
    have fl2: "?m1 x = Some InFlight \<longleftrightarrow> m x = Some InFlight" for x
      using fl1 None by auto
    obtain m' order' where rest: "visit_tables deps present ts (?m1, o1 @ [t]) = Inr (m', order')"
      and ok': "search_ok deps present (m', order')" and fl': "\<forall>x. m' x = Some InFlight \<longleftrightarrow> ?m1 x = Some InFlight"
      and in': "set (o1 @ [t]) \<union> set ts \<subseteq> set order'"
      and out': "set ts \<subseteq> present \<longrightarrow> set order' \<subseteq> set (o1 @ [t]) \<union> present"
      using 2(2) [OF None sub refl 2(4), of ] ok2 fl2 2(6) by fastforce
    have "visit_tables deps present (t # ts) (m, order) = Inr (m', order')"
      using None sub rest by simp
    with ok' fl' fl2 in' in1 out' out1 show ?thesis
      by (intro exI [of _ m'] exI [of _ order']) auto
  qed
next
  case (1 deps present s)
  then show ?case
    by (cases s) (auto simp: search_ok_def)
qed

lemma roots: "list_all (\<lambda>(t, ps). list_all (\<lambda>p. parents_of tableDependencies p = []) ps) tableDependencies"
  by code_simp

definition table_rank :: "go_string \<Rightarrow> nat" where
  "table_rank t = (if parents_of tableDependencies t = [] then 0 else 1)"

lemma table_ranked: "ranked table_rank tableDependencies"
  unfolding ranked_def
proof (intro allI ballI)
  fix t p
  assume p: "p \<in> set (parents_of tableDependencies t)"
  then obtain ps where "(t, ps) \<in> set tableDependencies" "p \<in> set ps"
    by (cases "map_of tableDependencies t") (auto simp: parents_of_def dest: map_of_SomeD)
  then have "parents_of tableDependencies p = []"
    using roots by (force simp: list_all_iff)
  with p show "table_rank p < table_rank t"
    by (auto simp: table_rank_def)
qed

lemma topologicalOrder_ok:
  obtains order where "topologicalOrder tables = Inr order" "set order = set tables" "distinct order"
    "parents_first tableDependencies (set tables) {} order"
proof -
  have "\<exists>m order. visit_tables tableDependencies (set tables) (sort tables) (\<lambda>_. None, []) = Inr (m, order)
      \<and> search_ok tableDependencies (set tables) (m, order) \<and> set tables \<subseteq> set order \<and> set order \<subseteq> set tables"
    using visit_tables_ok [OF table_ranked, of "set tables" "(\<lambda>_. None, [])" "sort tables"]
    by (auto simp: search_ok_def)
  then show thesis
    using that by (auto simp: topologicalOrder_def search_ok_def)
qed

text \<open>C34: The search ends for every list of tables without reporting a cycle, and returns each of them once, every table after
  the tables it refers to.\<close>
theorem topologicalOrder_correct:
  "\<exists>order. topologicalOrder tables = Inr order \<and> set order = set tables \<and> distinct order
     \<and> parents_first tableDependencies (set tables) {} order"
  using topologicalOrder_ok by metis

text \<open>A circular map is reported, and no table order comes of it.\<close>

lemma circular_reported:
  "visit_tables [(''a'', [''b'']), (''b'', [''a''])] {''a'', ''b''} [''a'', ''b''] (\<lambda>_. None, []) = Inl ''a''"
  by (simp add: parents_of_def)

end
