(* ===== verification/BackupRestore.thy ===== *)
theory BackupRestore
  imports TableOrder AuditChain "HOL-Library.AList"
begin

text \<open>
  Restoring a backup (\<open>src/internal/backup/backup.go\<close>) into a database that enforces foreign keys.

  A row is its key, the rows it refers to and its cells by column.  A row goes in only when its key is
  new to the table and what it refers to is there.  A delete that would leave a row of another table
  pointing at nothing counts as an error here, whatever action (cascade or set null) the constraint
  declares, so a restore that never fails on it never fires such an action either.  A statement on a
  table the database does not have fails; as every table of a backup is cleared first, that ends the
  restore.  At the end the audit chain head is computed again from the audit rows (\<open>AuditChain\<close>).
  Column types and checks, and reading and parsing the file, are left out.
\<close>

section \<open>A database with foreign keys\<close>

datatype cell = Null | CInt int | CText go_string | CTime instant

record fk_row =
  fr_key :: go_string
  fr_refs :: "(go_string \<times> go_string) list"
  fr_cells :: "(go_string \<times> cell) list"

type_synonym database = "go_string \<Rightarrow> fk_row list"

definition holds_key :: "database \<Rightarrow> go_string \<times> go_string \<Rightarrow> bool" where
  "holds_key d tk \<longleftrightarrow> snd tk \<in> fr_key ` set (d (fst tk))"

definition insert_row :: "go_string \<Rightarrow> fk_row \<Rightarrow> database \<Rightarrow> database option" where
  "insert_row t r d = 
     (if list_all (holds_key d) (fr_refs r) \<and> fr_key r \<notin> fr_key ` set (d t) then Some (d(t := d t @ [r])) else None)"

text \<open>\<open>schema\<close> lists the tables of the database.\<close>

definition delete_from :: "go_string list \<Rightarrow> go_string \<Rightarrow> database \<Rightarrow> database option" where
  "delete_from schema t d =
     (if t \<notin> set schema
        \<or> list_ex (\<lambda>u. u \<noteq> t \<and> list_ex (\<lambda>r. list_ex (\<lambda>tk. fst tk = t \<and> holds_key d tk) (fr_refs r)) (d u)) schema
      then None else Some (d(t := [])))"

section \<open>The restore\<close>

record table_data =
  td_name :: go_string
  td_rows :: "fk_row list"

record backup_data =
  bd_version :: go_string
  bd_table_count :: int
  bd_tables :: "table_data list"

datatype restore_stmt = RsBegin | RsClear go_string | RsInsert go_string | RsListTables | RsCommit

datatype restore_error =
    MissingVersion | TableCountMismatch int nat | CircularTables go_string | ClearFailed go_string
  | InsertFailed go_string | ResetHeadFailed audit_error | RestoreDbError restore_stmt

definition validateBackupData :: "backup_data \<Rightarrow> restore_error option" where
  "validateBackupData b =
     (if bd_version b = [] then Some MissingVersion
      else if bd_table_count b \<noteq> int (length (bd_tables b))
        then Some (TableCountMismatch (bd_table_count b) (length (bd_tables b)))
      else None)"

fun clear_tables ::
  "(restore_stmt \<Rightarrow> bool) \<Rightarrow> go_string list \<Rightarrow> go_string list \<Rightarrow> database \<Rightarrow> restore_error + database" where
  "clear_tables fails schema [] d = Inr d"
| "clear_tables fails schema (t # ts) d =
     (if fails (RsClear t) then Inl (ClearFailed t)
      else case delete_from schema t d of
        None \<Rightarrow> Inl (ClearFailed t)
      | Some d' \<Rightarrow> clear_tables fails schema ts d')"

fun insert_rows :: "go_string \<Rightarrow> fk_row list \<Rightarrow> database \<Rightarrow> database option" where
  "insert_rows t [] d = Some d"
| "insert_rows t (r # rs) d =
     (case insert_row t r d of None \<Rightarrow> None | Some d' \<Rightarrow> insert_rows t rs d')"

definition insertTableData ::
  "(restore_stmt \<Rightarrow> bool) \<Rightarrow> go_string \<Rightarrow> fk_row list \<Rightarrow> database \<Rightarrow> database option" where
  "insertTableData fails t rows d =
     (if rows = [] then Some d else if fails (RsInsert t) then None else insert_rows t rows d)"

fun insert_tables ::
  "(restore_stmt \<Rightarrow> bool) \<Rightarrow> (go_string \<Rightarrow> fk_row list) \<Rightarrow> go_string list \<Rightarrow> database \<Rightarrow> restore_error + database" where
  "insert_tables fails data [] d = Inr d"
| "insert_tables fails data (t # ts) d =
     (case insertTableData fails t (data t) d of
        None \<Rightarrow> Inl (InsertFailed t)
      | Some d' \<Rightarrow> insert_tables fails data ts d')"

text \<open>\<open>byName\<close>: a table named twice in the file counts with its last entry.\<close>

definition by_table_name :: "table_data list \<Rightarrow> go_string \<Rightarrow> fk_row list" where
  "by_table_name ts name =
     (case find (\<lambda>td. td_name td = name) (rev ts) of None \<Rightarrow> [] | Some td \<Rightarrow> td_rows td)"

section \<open>The audit chain head\<close>

definition cell_of :: "fk_row \<Rightarrow> go_string \<Rightarrow> cell" where
  "cell_of r c = (case map_of (fr_cells r) c of None \<Rightarrow> Null | Some x \<Rightarrow> x)"

definition cell_int :: "cell \<Rightarrow> int option" where
  "cell_int x = (case x of CInt i \<Rightarrow> Some i | _ \<Rightarrow> None)"

definition cell_text :: "cell \<Rightarrow> go_string" where
  "cell_text x = (case x of CText s \<Rightarrow> s | _ \<Rightarrow> [])"

definition cell_time :: "cell \<Rightarrow> instant" where
  "cell_time x = (case x of CTime t \<Rightarrow> t | _ \<Rightarrow> 0)"

definition audit_log_of :: "fk_row \<Rightarrow> audit_log" where
  "audit_log_of r =
     \<lparr>al_id = cell_text (cell_of r ''id''), al_user = cell_text (cell_of r ''user_id''),
      al_action = cell_text (cell_of r ''action''), al_details = cell_text (cell_of r ''details''),
      al_ts = cell_time (cell_of r ''timestamp''), al_rtype = cell_text (cell_of r ''resource_type''),
      al_rid = cell_text (cell_of r ''resource_id''), al_ip = cell_text (cell_of r ''ip_address''),
      al_outcome = cell_text (cell_of r ''outcome''), al_source = cell_text (cell_of r ''source''),
      al_hash = cell_text (cell_of r ''prev_hash''), al_seq = cell_int (cell_of r ''seq'')\<rparr>"

text \<open>The head is the row of \<open>audit_chain_head\<close> with the id 1.\<close>

definition head_of :: "database \<Rightarrow> (int \<times> go_string) option" where
  "head_of d =
     (case find (\<lambda>r. fr_key r = ''1'') (d ''audit_chain_head'') of
        None \<Rightarrow> None
      | Some r \<Rightarrow> Some (case cell_int (cell_of r ''last_seq'') of None \<Rightarrow> 0 | Some s \<Rightarrow> s, cell_text (cell_of r ''last_hash'')))"

definition audit_store_of :: "database \<Rightarrow> audit_store" where
  "audit_store_of d =
     \<lparr>as_logs = map audit_log_of (d ''audit_logs''), as_head = head_of d, as_config = (\<lambda>_. None)\<rparr>"

text \<open>Writing the head back: the insert if the row is absent, then the update of its two columns.\<close>

definition put_head :: "int \<times> go_string \<Rightarrow> database \<Rightarrow> database" where
  "put_head sh d =
     (let rows = d ''audit_chain_head'';
          rows = (if list_ex (\<lambda>r. fr_key r = ''1'') rows then rows
                  else rows @ [\<lparr>fr_key = ''1'', fr_refs = [], fr_cells = [(''id'', CInt 1)]\<rparr>]) in
      d(''audit_chain_head'' := map (\<lambda>r. if fr_key r = ''1''
            then r\<lparr>fr_cells := AList.update ''last_hash'' (CText (snd sh)) (AList.update ''last_seq'' (CInt (fst sh)) (fr_cells r))\<rparr>
            else r) rows))"

definition resetAuditChainHead ::
  "(restore_stmt \<Rightarrow> bool) \<Rightarrow> audit_env \<Rightarrow> go_string list \<Rightarrow> database \<Rightarrow> restore_error + database" where
  "resetAuditChainHead fails env schema d =
     (if fails RsListTables then Inl (RestoreDbError RsListTables)
      else if ''audit_logs'' \<notin> set schema \<or> ''audit_chain_head'' \<notin> set schema then Inr d
      else case ResetAuditChainHead env (audit_store_of d) of
        (Some e, _) \<Rightarrow> Inl (ResetHeadFailed e)
      | (None, st) \<Rightarrow> Inr (case as_head st of None \<Rightarrow> d | Some sh \<Rightarrow> put_head sh d))"

section \<open>The whole restore\<close>

definition RestoreBackup ::
  "(restore_stmt \<Rightarrow> bool) \<Rightarrow> audit_env \<Rightarrow> go_string list \<Rightarrow> backup_data \<Rightarrow> database \<Rightarrow> restore_error option \<times> database" where
  "RestoreBackup fails env schema b d =
     (case validateBackupData b of
        Some e \<Rightarrow> (Some e, d)
      | None \<Rightarrow>
          (case topologicalOrder (map td_name (bd_tables b)) of
             Inl t \<Rightarrow> (Some (CircularTables t), d)
           | Inr order \<Rightarrow>
               if fails RsBegin then (Some (RestoreDbError RsBegin), d)
               else case clear_tables fails schema (rev order) d of
                 Inl e \<Rightarrow> (Some e, d)
               | Inr d1 \<Rightarrow>
                   (case insert_tables fails (by_table_name (bd_tables b)) order d1 of
                      Inl e \<Rightarrow> (Some e, d)
                    | Inr d2 \<Rightarrow>
                        (case resetAuditChainHead fails env schema d2 of
                           Inl e \<Rightarrow> (Some e, d)
                         | Inr d3 \<Rightarrow>
                             if fails RsCommit then (Some (RestoreDbError RsCommit), d)
                             else (None, d3)))))"

section \<open>Restores and foreign keys\<close>

text \<open>References follow the foreign keys of the schema.\<close>

definition follows_schema :: "database \<Rightarrow> bool" where
  "follows_schema d \<longleftrightarrow> (\<forall>t. \<forall>r\<in>set (d t). fst ` set (fr_refs r) \<subseteq> set (parents_of tableDependencies t))"

lemma parents_first_split:
  "parents_first deps P {} (xs @ t # ys) \<Longrightarrow> set (parents_of deps t) \<inter> P \<subseteq> set xs"
  by (auto simp: parents_first_append)

lemma clear_tables_ok:
  assumes "parents_first tableDependencies P {} (xs @ ys)" "distinct (xs @ ys)" "set xs \<subseteq> P"
    and "P \<subseteq> set schema" "follows_schema d" "\<And>t. \<not> fails (RsClear t)"
    and "\<And>u r. u \<notin> set (xs @ ys) \<Longrightarrow> r \<in> set (d u) \<Longrightarrow> fst ` set (fr_refs r) \<inter> set xs = {}"
  shows "clear_tables fails schema (rev xs) (\<lambda>t. if t \<in> set ys then [] else d t)
       = Inr (\<lambda>t. if t \<in> set (xs @ ys) then [] else d t)"
  using assms(1-3,7)
proof (induction xs arbitrary: ys rule: rev_induct)
  case (snoc t xs)
  let ?d = "\<lambda>u. if u \<in> set ys then [] else d u"
  have "t \<notin> fst ` set (fr_refs r)" if u: "u \<noteq> t" "r \<in> set (?d u)" for u r
  proof
    assume ref: "t \<in> fst ` set (fr_refs r)"
    from u have ud: "u \<notin> set ys" "r \<in> set (d u)"
      by (auto split: if_splits)
    show False
    proof (cases "u \<in> set xs")
      case True
      then obtain as bs where xs: "xs = as @ u # bs"
        by (meson split_list)
      then have "set (parents_of tableDependencies u) \<inter> P \<subseteq> set as"
        using snoc.prems(1) parents_first_split [of tableDependencies P as u "bs @ [t] @ ys"] by simp
      moreover have "t \<in> set (parents_of tableDependencies u)"
        using assms(5) ud(2) ref by (auto simp: follows_schema_def)
      ultimately have "t \<in> set as"
        using snoc.prems(3) by auto
      with snoc.prems(2) xs show False
        by simp
    next
      case False
      with snoc.prems(4) [of u r] ud ref u(1) show False
        by auto
    qed
  qed
  then have "\<not> list_ex (\<lambda>u. u \<noteq> t \<and> list_ex (\<lambda>r. list_ex (\<lambda>tk. fst tk = t \<and> holds_key ?d tk) (fr_refs r)) (?d u)) schema"
    unfolding list_ex_iff by blast
  moreover have "t \<in> set schema"
    using snoc.prems(3) assms(4) by auto
  ultimately have "delete_from schema t ?d = Some (?d(t := []))"
    unfolding delete_from_def by (simp only: not_not if_False simp_thms)
  moreover have "?d(t := []) = (\<lambda>u. if u \<in> set (t # ys) then [] else d u)"
    by auto
  moreover have "clear_tables fails schema (rev xs) (\<lambda>u. if u \<in> set (t # ys) then [] else d u)
      = Inr (\<lambda>u. if u \<in> set (xs @ t # ys) then [] else d u)"
    by (rule snoc.IH) (use snoc.prems in \<open>auto simp del: parents_first.simps\<close>)
  ultimately show ?case
    using assms(6) by simp
qed simp

lemma insert_rows_ok:
  assumes "\<And>r. r \<in> set rs \<Longrightarrow> list_all (holds_key d) (fr_refs r)"
    and "distinct (map fr_key (d t @ rs))"
  shows "insert_rows t rs d = Some (d(t := d t @ rs))"
  using assms
proof (induction rs arbitrary: d)
  case (Cons r rs)
  have grow: "holds_key d tk \<Longrightarrow> holds_key (d(t := d t @ [r])) tk" for tk
    by (auto simp: holds_key_def)
  have "insert_rows t rs (d(t := d t @ [r])) = Some ((d(t := d t @ [r]))(t := (d(t := d t @ [r])) t @ rs))"
  proof (rule Cons.IH)
    show "list_all (holds_key (d(t := d t @ [r]))) (fr_refs x)" if "x \<in> set rs" for x
      using Cons.prems(1) [of x] that grow unfolding list_all_iff by auto
    show "distinct (map fr_key ((d(t := d t @ [r])) t @ rs))"
      using Cons.prems(2) by simp
  qed
  moreover have "(d(t := d t @ [r]))(t := (d(t := d t @ [r])) t @ rs) = d(t := d t @ r # rs)"
    by (rule ext) simp
  ultimately have "insert_rows t rs (d(t := d t @ [r])) = Some (d(t := d t @ r # rs))"
    by (simp only:)
  moreover have "fr_key r \<notin> fr_key ` set (d t)"
    using Cons.prems(2) by auto
  ultimately show ?case
    using Cons.prems(1) [of r] by (simp add: insert_row_def del: fun_upd_apply)
qed simp

lemma insert_tables_ok:
  assumes "parents_first tableDependencies P {} (xs @ ys)" "distinct (xs @ ys)" "set (xs @ ys) = P"
    and "follows_schema data" "\<And>t. \<not> fails (RsInsert t)"
    and "\<And>t r tk. t \<in> P \<Longrightarrow> r \<in> set (data t) \<Longrightarrow> tk \<in> set (fr_refs r) \<Longrightarrow> holds_key (if fst tk \<in> P then data else d) tk"
    and "\<And>t. t \<in> P \<Longrightarrow> distinct (map fr_key (data t))"
  shows "insert_tables fails data ys (\<lambda>t. if t \<in> set xs then data t else if t \<in> set ys then [] else d t)
       = Inr (\<lambda>t. if t \<in> P then data t else d t)"
  using assms(1-3)
proof (induction ys arbitrary: xs)
  case (Cons t ys)
  let ?d = "\<lambda>u. if u \<in> set xs then data u else if u \<in> set (t # ys) then [] else d u"
  have par: "set (parents_of tableDependencies t) \<inter> P \<subseteq> set xs"
    using Cons.prems(1) by (rule parents_first_split)
  have "holds_key ?d tk" if "r \<in> set (data t)" "tk \<in> set (fr_refs r)" for r tk
  proof -
    have "fst tk \<in> set (parents_of tableDependencies t)"
      using assms(4) that by (auto simp: follows_schema_def)
    with par have "fst tk \<in> P \<longleftrightarrow> fst tk \<in> set xs"
      using Cons.prems(3) by auto
    with assms(6) [of t r tk] that Cons.prems(3) show ?thesis
      by (auto simp: holds_key_def split: if_splits)
  qed
  moreover have "distinct (map fr_key (?d t @ data t))"
    using Cons.prems(2,3) assms(7) [of t] by auto
  ultimately have "insert_rows t (data t) ?d = Some (?d(t := ?d t @ data t))"
    by (intro insert_rows_ok) (simp_all only: list_all_iff, blast)
  then have "insertTableData fails t (data t) ?d = Some (?d(t := ?d t @ data t))"
    using assms(5) Cons.prems(2) by (simp add: insertTableData_def fun_upd_idem)
  moreover have "?d(t := ?d t @ data t) = (\<lambda>u. if u \<in> set (xs @ [t]) then data u else if u \<in> set ys then [] else d u)"
    using Cons.prems(2) by auto
  ultimately have step: "insert_tables fails data (t # ys) ?d
      = insert_tables fails data ys (\<lambda>u. if u \<in> set (xs @ [t]) then data u else if u \<in> set ys then [] else d u)"
    by simp
  show ?case
    unfolding step by (rule Cons.IH) (use Cons.prems in simp_all)
next
  case Nil
  then show ?case
    by auto
qed

text \<open>The backup is consistent with the database: its tables exist, the keys of a table are distinct, and what its
  rows refer to is in the backup, or in a table it leaves alone.\<close>

definition backup_consistent :: "go_string list \<Rightarrow> backup_data \<Rightarrow> database \<Rightarrow> bool" where
  "backup_consistent schema b d \<longleftrightarrow>
     (let P = td_name ` set (bd_tables b); data = by_table_name (bd_tables b) in
      P \<subseteq> set schema \<and> follows_schema data \<and> (\<forall>t\<in>P. distinct (map fr_key (data t)))
      \<and> (\<forall>t\<in>P. \<forall>r\<in>set (data t). \<forall>tk\<in>set (fr_refs r). holds_key (if fst tk \<in> P then data else d) tk))"

text \<open>No table outside the backup refers to one inside.\<close>

definition closed_under_children :: "backup_data \<Rightarrow> database \<Rightarrow> bool" where
  "closed_under_children b d \<longleftrightarrow>
     (\<forall>u. u \<notin> td_name ` set (bd_tables b) \<longrightarrow>
        (\<forall>r\<in>set (d u). fst ` set (fr_refs r) \<inter> td_name ` set (bd_tables b) = {}))"

text \<open>Resetting the head touches the head row alone, and leaves the head that the audit rows imply.\<close>

lemma put_head_other: "t \<noteq> ''audit_chain_head'' \<Longrightarrow> put_head sh d t = d t"
  by (simp add: put_head_def Let_def)

lemma find_map_head:
  assumes "\<And>r. fr_key (f r) = fr_key r"
  shows "find (\<lambda>r. fr_key r = k) (map f rs) = map_option f (find (\<lambda>r. fr_key r = k) rs)"
  using assms by (induction rs) auto

lemma find_snoc: "find P (rs @ [r]) = (case find P rs of None \<Rightarrow> if P r then Some r else None | Some x \<Rightarrow> Some x)"
  by (induction rs) auto

lemma head_of_put_head: "head_of (put_head (s, h) d) = Some (s, h)"
proof -
  let ?rows = "d ''audit_chain_head''"
  define g :: "fk_row \<Rightarrow> fk_row" where "g = (\<lambda>r. if fr_key r = ''1''
    then r\<lparr>fr_cells := AList.update ''last_hash'' (CText h) (AList.update ''last_seq'' (CInt s) (fr_cells r))\<rparr> else r)"
  define rows :: "fk_row list" where "rows = (if list_ex (\<lambda>r. fr_key r = ''1'') ?rows then ?rows
    else ?rows @ [\<lparr>fr_key = ''1'', fr_refs = [], fr_cells = [(''id'', CInt 1)]\<rparr>])"
  have put: "put_head (s, h) d ''audit_chain_head'' = map g rows"
    by (simp add: put_head_def g_def rows_def Let_def)
  have "list_ex (\<lambda>r. fr_key r = ''1'') rows"
    by (simp add: rows_def)
  then obtain r where r: "find (\<lambda>r. fr_key r = ''1'') rows = Some r" "fr_key r = ''1''"
    by (cases "find (\<lambda>r. fr_key r = ''1'') rows") (auto simp: find_None_iff find_Some_iff list_ex_iff)
  have "find (\<lambda>r. fr_key r = ''1'') (map g rows) = Some (g r)"
    using r(1) by (subst find_map_head) (simp_all add: g_def)
  then show ?thesis
    unfolding head_of_def put by (simp add: g_def r(2) cell_of_def cell_int_def cell_text_def update_conv')
qed

lemma ResetAuditChainHead_head:
  assumes "\<And>s. \<not> ae_fails env s"
  shows "\<exists>s h. AuditChainTip env st = Inr (s, h) \<and> fst (ResetAuditChainHead env st) = None
    \<and> as_head (snd (ResetAuditChainHead env st)) = Some (s, h)"
  using assms
  by (auto simp: ResetAuditChainHead_def AuditChainTip_def insertAuditChainHeadIfAbsent_def split: option.splits)

lemma AuditChainTip_logs: "as_logs st = as_logs st' \<Longrightarrow> AuditChainTip env st = AuditChainTip env st'"
  by (simp add: AuditChainTip_def cong: option.case_cong)

lemma resetAuditChainHead_ok:
  assumes "\<And>s. \<not> ae_fails env s" "\<not> fails RsListTables"
  obtains d' where "resetAuditChainHead fails env schema d = Inr d'"
    "\<And>t. t \<noteq> ''audit_chain_head'' \<Longrightarrow> d' t = d t"
    "{''audit_logs'', ''audit_chain_head''} \<subseteq> set schema \<Longrightarrow>
       \<exists>sh. head_of d' = Some sh \<and> AuditChainTip env (audit_store_of d') = Inr sh"
    "\<not> {''audit_logs'', ''audit_chain_head''} \<subseteq> set schema \<Longrightarrow> d' = d"
proof (cases "''audit_logs'' \<in> set schema \<and> ''audit_chain_head'' \<in> set schema")
  case False
  then show thesis
    using assms(2) by (intro that [of d]) (auto simp: resetAuditChainHead_def)
next
  case True
  obtain s h where tip: "AuditChainTip env (audit_store_of d) = Inr (s, h)"
    and head: "fst (ResetAuditChainHead env (audit_store_of d)) = None"
      "as_head (snd (ResetAuditChainHead env (audit_store_of d))) = Some (s, h)"
    using ResetAuditChainHead_head [OF assms(1)] by blast
  let ?d = "put_head (s, h) d"
  have "AuditChainTip env (audit_store_of ?d) = AuditChainTip env (audit_store_of d)"
    by (rule AuditChainTip_logs) (simp add: audit_store_of_def put_head_other)
  with tip have "AuditChainTip env (audit_store_of ?d) = Inr (s, h)"
    by simp
  then show thesis
    using True assms(2) head
    by (intro that [of ?d])
      (auto simp: resetAuditChainHead_def put_head_other head_of_put_head split: prod.splits)
qed

text \<open>C33: A valid backup that is consistent restores without ever violating a foreign key, whatever order its
  file lists the tables in: afterwards its tables hold exactly its rows and the others are as they were,
  but for \<open>audit_chain_head\<close>.  When the database has both audit tables, the head row is the one that the
  restored audit rows imply, whatever head the backup or the database held.\<close>
theorem restore_respects_foreign_keys:
  assumes "validateBackupData b = None" "backup_consistent schema b d" "closed_under_children b d" "follows_schema d"
    and "\<forall>s. \<not> fails s" "\<forall>s. \<not> ae_fails env s"
  shows "\<exists>d'. RestoreBackup fails env schema b d = (None, d')
    \<and> (\<forall>t. t \<noteq> ''audit_chain_head'' \<longrightarrow>
         d' t = (if t \<in> td_name ` set (bd_tables b) then by_table_name (bd_tables b) t else d t))
    \<and> (if {''audit_logs'', ''audit_chain_head''} \<subseteq> set schema
       then \<exists>sh. head_of d' = Some sh \<and> AuditChainTip env (audit_store_of d') = Inr sh
       else d' ''audit_chain_head'' = (if ''audit_chain_head'' \<in> td_name ` set (bd_tables b)
              then by_table_name (bd_tables b) ''audit_chain_head'' else d ''audit_chain_head''))"
proof -
  let ?P = "td_name ` set (bd_tables b)" and ?data = "by_table_name (bd_tables b)"
  obtain order where order: "topologicalOrder (map td_name (bd_tables b)) = Inr order" "set order = ?P" "distinct order"
    "parents_first tableDependencies ?P {} order"
    using topologicalOrder_ok [of "map td_name (bd_tables b)"] by (metis list.set_map)
  have "clear_tables fails schema (rev order) (\<lambda>t. if t \<in> set [] then [] else d t)
      = Inr (\<lambda>t. if t \<in> set (order @ []) then [] else d t)"
  proof (rule clear_tables_ok [where P = ?P])
    show "\<And>u r. u \<notin> set (order @ []) \<Longrightarrow> r \<in> set (d u) \<Longrightarrow> fst ` set (fr_refs r) \<inter> set order = {}"
      using assms(3) order(2) unfolding closed_under_children_def by auto
    show "?P \<subseteq> set schema"
      using assms(2) unfolding backup_consistent_def Let_def by blast
  qed (use assms(4,5) order in simp_all)
  then have clear: "clear_tables fails schema (rev order) d = Inr (\<lambda>t. if t \<in> set order then [] else d t)"
    by simp
  have "insert_tables fails ?data order (\<lambda>t. if t \<in> set [] then ?data t else if t \<in> set order then [] else d t)
      = Inr (\<lambda>t. if t \<in> ?P then ?data t else d t)"
  proof (rule insert_tables_ok [where P = ?P])
    show "follows_schema ?data"
      using assms(2) unfolding backup_consistent_def Let_def by blast
    show "\<And>t r tk. t \<in> ?P \<Longrightarrow> r \<in> set (?data t) \<Longrightarrow> tk \<in> set (fr_refs r)
        \<Longrightarrow> holds_key (if fst tk \<in> ?P then ?data else d) tk"
      using assms(2) unfolding backup_consistent_def Let_def by blast
    show "\<And>t. t \<in> ?P \<Longrightarrow> distinct (map fr_key (?data t))"
      using assms(2) unfolding backup_consistent_def Let_def by blast
  qed (use assms(5) order in simp_all)
  then have ins: "insert_tables fails ?data order (\<lambda>t. if t \<in> set order then [] else d t)
      = Inr (\<lambda>t. if t \<in> ?P then ?data t else d t)"
    by simp
  obtain d' where d': "resetAuditChainHead fails env schema (\<lambda>t. if t \<in> ?P then ?data t else d t) = Inr d'"
    "\<And>t. t \<noteq> ''audit_chain_head'' \<Longrightarrow> d' t = (if t \<in> ?P then ?data t else d t)"
    "{''audit_logs'', ''audit_chain_head''} \<subseteq> set schema \<Longrightarrow>
       \<exists>sh. head_of d' = Some sh \<and> AuditChainTip env (audit_store_of d') = Inr sh"
    "\<not> {''audit_logs'', ''audit_chain_head''} \<subseteq> set schema \<Longrightarrow> d' = (\<lambda>t. if t \<in> ?P then ?data t else d t)"
    by (rule resetAuditChainHead_ok [of env fails schema "\<lambda>t. if t \<in> ?P then ?data t else d t"])
      (use assms(5,6) in simp_all)
  have "RestoreBackup fails env schema b d = (None, d')"
    using assms(1,5) order(1) clear ins d'(1) by (simp add: RestoreBackup_def)
  moreover have "if {''audit_logs'', ''audit_chain_head''} \<subseteq> set schema
      then \<exists>sh. head_of d' = Some sh \<and> AuditChainTip env (audit_store_of d') = Inr sh
      else d' ''audit_chain_head'' = (if ''audit_chain_head'' \<in> ?P then ?data ''audit_chain_head'' else d ''audit_chain_head'')"
    using d'(3,4) by (cases "{''audit_logs'', ''audit_chain_head''} \<subseteq> set schema") simp_all
  ultimately show ?thesis
    using d'(2) by blast
qed

text \<open>A backup that lists a child before its parent, with one chained audit row and a head that lags behind it.\<close>

definition sample_backup :: backup_data where
  "sample_backup =
     \<lparr>bd_version = ''1.0'', bd_table_count = 4,
      bd_tables = [\<lparr>td_name = ''audit_chain_head'', td_rows = [\<lparr>fr_key = ''1'', fr_refs = [],
                      fr_cells = [(''id'', CInt 1), (''last_seq'', CInt 0), (''last_hash'', CText [])]\<rparr>]\<rparr>,
                   \<lparr>td_name = ''audit_logs'', td_rows = [\<lparr>fr_key = ''a1'', fr_refs = [],
                      fr_cells = [(''id'', CText ''a1''), (''prev_hash'', CText ''h1''), (''seq'', CInt 1)]\<rparr>]\<rparr>,
                   \<lparr>td_name = ''secret_tags'',
                     td_rows = [\<lparr>fr_key = ''t1'', fr_refs = [(''secrets'', ''s1'')], fr_cells = []\<rparr>]\<rparr>,
                   \<lparr>td_name = ''secrets'', td_rows = [\<lparr>fr_key = ''s1'', fr_refs = [], fr_cells = []\<rparr>]\<rparr>]\<rparr>"

definition sample_database :: database where
  "sample_database t =
     (if t = ''secrets'' then [\<lparr>fr_key = ''old'', fr_refs = [], fr_cells = []\<rparr>]
      else if t = ''secret_tags'' then [\<lparr>fr_key = ''t0'', fr_refs = [(''secrets'', ''old'')], fr_cells = []\<rparr>]
      else [])"

definition sample_schema :: "go_string list" where
  "sample_schema = [''secrets'', ''secret_tags'', ''audit_logs'', ''audit_chain_head'']"

definition calm_audit :: audit_env where
  "calm_audit = \<lparr>ae_fails = (\<lambda>_. False), ae_now = 0, ae_id = []\<rparr>"

theorem restore_respects_foreign_keys_witness:
  "\<exists>d'. RestoreBackup (\<lambda>_. False) calm_audit sample_schema sample_backup sample_database = (None, d')
     \<and> d' ''secret_tags'' = [\<lparr>fr_key = ''t1'', fr_refs = [(''secrets'', ''s1'')], fr_cells = []\<rparr>]
     \<and> head_of d' = Some (1, ''h1'')"
proof -
  have parents: "parents_of tableDependencies ''secret_tags'' = [''secrets'']"
    by (simp add: parents_of_def tableDependencies_def)
  have "validateBackupData sample_backup = None"
    by (simp add: validateBackupData_def sample_backup_def)
  moreover have "backup_consistent sample_schema sample_backup sample_database"
    using parents by (auto simp: backup_consistent_def follows_schema_def sample_backup_def sample_schema_def
        by_table_name_def holds_key_def Let_def)
  moreover have "closed_under_children sample_backup sample_database" "follows_schema sample_database"
    using parents by (auto simp: closed_under_children_def follows_schema_def sample_backup_def sample_database_def)
  ultimately obtain d' where d': "RestoreBackup (\<lambda>_. False) calm_audit sample_schema sample_backup sample_database = (None, d')"
    "\<forall>t. t \<noteq> ''audit_chain_head'' \<longrightarrow> d' t = (if t \<in> td_name ` set (bd_tables sample_backup)
        then by_table_name (bd_tables sample_backup) t else sample_database t)"
    "if {''audit_logs'', ''audit_chain_head''} \<subseteq> set sample_schema
       then \<exists>sh. head_of d' = Some sh \<and> AuditChainTip calm_audit (audit_store_of d') = Inr sh
       else d' ''audit_chain_head'' = (if ''audit_chain_head'' \<in> td_name ` set (bd_tables sample_backup)
              then by_table_name (bd_tables sample_backup) ''audit_chain_head'' else sample_database ''audit_chain_head'')"
    using restore_respects_foreign_keys [of sample_backup sample_schema sample_database "\<lambda>_. False" calm_audit]
    by (auto simp: calm_audit_def)
  have rows: "d' ''secret_tags'' = [\<lparr>fr_key = ''t1'', fr_refs = [(''secrets'', ''s1'')], fr_cells = []\<rparr>]"
    "d' ''audit_logs'' = [\<lparr>fr_key = ''a1'', fr_refs = [],
       fr_cells = [(''id'', CText ''a1''), (''prev_hash'', CText ''h1''), (''seq'', CInt 1)]\<rparr>]"
    using d'(2) by (simp_all add: sample_backup_def by_table_name_def)
  have "AuditChainTip calm_audit (audit_store_of d') = Inr (1, ''h1'')"
    using rows(2) by (simp add: AuditChainTip_def audit_store_of_def audit_log_of_def newest_def calm_audit_def
        cell_of_def cell_int_def cell_text_def)
  with d'(1,3) rows(1) show ?thesis
    by (auto simp: sample_schema_def)
qed

text \<open>A restore that reports an error has left the database as it was.\<close>
theorem failed_restore_changes_nothing:
  "fst (RestoreBackup fails env schema b d) \<noteq> None \<Longrightarrow> snd (RestoreBackup fails env schema b d) = d"
  by (auto simp: RestoreBackup_def split: option.splits sum.splits if_splits)

end
