(* ===== verification/Pwgen.thy ===== *)
theory Pwgen
  imports Prelude
begin

text \<open>
  The password generator (\<open>src/internal/pwgen/pwgen.go\<close>).  \<open>crypto/rand\<close> is the list of the numbers it is going to
  give; each draw takes one of them modulo its bound, and a draw from the empty list is a reader that
  fails.  So the retry loops are recursions on the list, and a run that returns is one on some finite list.
\<close>

section \<open>Options and draws\<close>

definition upperChars :: go_string where "upperChars = ''ABCDEFGHIJKLMNOPQRSTUVWXYZ''"
definition lowerChars :: go_string where "lowerChars = ''abcdefghijklmnopqrstuvwxyz''"
definition numberChars :: go_string where "numberChars = ''0123456789''"
definition specialChars :: go_string where "specialChars = ''!@#$%^&*()-_=+[]{}|;:,.<>?''"

record pw_options =
  po_length :: int
  po_upper :: bool
  po_lower :: bool
  po_numbers :: bool
  po_special :: bool

definition DefaultOptions :: pw_options where
  "DefaultOptions = \<lparr>po_length = 16, po_upper = True, po_lower = True, po_numbers = True, po_special = True\<rparr>"

datatype pw_error = LengthTooSmall | NoCharacterType | RandomFailed

definition enabled_sets :: "pw_options \<Rightarrow> go_string list" where
  "enabled_sets opts =
     (if po_upper opts then [upperChars] else []) @ (if po_lower opts then [lowerChars] else [])
     @ (if po_numbers opts then [numberChars] else []) @ (if po_special opts then [specialChars] else [])"

section \<open>Generating\<close>

text \<open>One character after \<open>pw\<close>: a third identical one in a row is drawn again.\<close>

fun next_char :: "go_string \<Rightarrow> go_string \<Rightarrow> nat list \<Rightarrow> (char \<times> nat list) option" where
  "next_char chars pw [] = None"
| "next_char chars pw (d # ds) =
     (let candidate = chars ! (d mod length chars); i = length pw in
      if i \<ge> 2 \<and> pw ! (i - 1) = pw ! (i - 2) \<and> pw ! (i - 2) = candidate then next_char chars pw ds
      else Some (candidate, ds))"

fun fill_password :: "nat \<Rightarrow> go_string \<Rightarrow> go_string \<Rightarrow> nat list \<Rightarrow> (go_string \<times> nat list) option" where
  "fill_password 0 chars pw ds = Some (pw, ds)"
| "fill_password (Suc n) chars pw ds =
     (case next_char chars pw ds of
        None \<Rightarrow> None
      | Some (c, ds') \<Rightarrow> fill_password n chars (pw @ [c]) ds')"

definition makes_run :: "go_string \<Rightarrow> nat \<Rightarrow> char \<Rightarrow> bool" where
  "makes_run pw idx candidate \<longleftrightarrow>
     (let n = length pw;
          prev1 = (idx > 0 \<and> pw ! (idx - 1) = candidate);
          prev2 = (idx > 1 \<and> pw ! (idx - 2) = candidate);
          next1 = (idx + 1 < n \<and> pw ! (idx + 1) = candidate);
          next2 = (idx + 2 < n \<and> pw ! (idx + 2) = candidate) in
      prev1 \<and> prev2 \<or> prev1 \<and> next1 \<or> next1 \<and> next2)"

fun injectGuaranteed :: "go_string \<Rightarrow> go_string \<Rightarrow> nat list \<Rightarrow> (go_string \<times> nat list) option" where
  "injectGuaranteed charset pw (p # c # ds) =
     (let idx = p mod length pw; candidate = charset ! (c mod length charset) in
      if makes_run pw idx candidate then injectGuaranteed charset pw ds
      else Some (pw[idx := candidate], ds))"
| "injectGuaranteed charset pw _ = None"

fun inject_sets :: "go_string list \<Rightarrow> go_string \<Rightarrow> nat list \<Rightarrow> (go_string \<times> nat list) option" where
  "inject_sets [] pw ds = Some (pw, ds)"
| "inject_sets (s # ss) pw ds =
     (case injectGuaranteed s pw ds of None \<Rightarrow> None | Some (pw', ds') \<Rightarrow> inject_sets ss pw' ds')"

definition Generate :: "pw_options \<Rightarrow> nat list \<Rightarrow> pw_error + go_string" where
  "Generate opts ds =
     (if po_length opts < 1 then Inl LengthTooSmall
      else let chars = concat (enabled_sets opts) in
      if chars = [] then Inl NoCharacterType
      else case fill_password (nat (po_length opts)) chars [] ds of
        None \<Rightarrow> Inl RandomFailed
      | Some (pw, ds') \<Rightarrow>
          (case inject_sets (enabled_sets opts) pw ds' of
             None \<Rightarrow> Inl RandomFailed
           | Some (pw', _) \<Rightarrow> Inr pw'))"

section \<open>What a password is\<close>

definition no_triple :: "go_string \<Rightarrow> bool" where
  "no_triple pw \<longleftrightarrow> (\<forall>i. i + 2 < length pw \<longrightarrow> \<not> (pw ! i = pw ! (i + 1) \<and> pw ! (i + 1) = pw ! (i + 2)))"

lemma no_triple_snoc:
  assumes "no_triple pw" "\<not> (2 \<le> length pw \<and> pw ! (length pw - 1) = pw ! (length pw - 2) \<and> pw ! (length pw - 2) = c)"
  shows "no_triple (pw @ [c])"
  unfolding no_triple_def
proof (intro allI impI)
  fix i
  assume i: "i + 2 < length (pw @ [c])"
  show "\<not> ((pw @ [c]) ! i = (pw @ [c]) ! (i + 1) \<and> (pw @ [c]) ! (i + 1) = (pw @ [c]) ! (i + 2))"
  proof (cases "i + 2 < length pw")
    case True
    with assms(1) show ?thesis
      by (simp add: no_triple_def nth_append)
  next
    case False
    with i have "length pw = Suc (Suc i)"
      by simp
    with assms(2) show ?thesis
      by (auto simp: nth_append)
  qed
qed

lemma no_triple_update:
  assumes "no_triple pw" "\<not> makes_run pw idx c" "idx < length pw"
  shows "no_triple (pw[idx := c])"
  unfolding no_triple_def
proof (intro allI impI)
  fix i
  assume i: "i + 2 < length (pw[idx := c])"
  have t: "\<not> (pw ! i = pw ! (i + 1) \<and> pw ! (i + 1) = pw ! (i + 2))"
    using assms(1) i by (simp add: no_triple_def)
  consider "idx = i" | "idx = i + 1" | "idx = i + 2" | "idx \<noteq> i \<and> idx \<noteq> i + 1 \<and> idx \<noteq> i + 2"
    by blast
  then show "\<not> (pw[idx := c] ! i = pw[idx := c] ! (i + 1) \<and> pw[idx := c] ! (i + 1) = pw[idx := c] ! (i + 2))"
    using assms(2,3) i t by cases (auto simp: makes_run_def Let_def)
qed

lemma next_char_ok:
  "next_char chars pw ds = Some (c, ds') \<Longrightarrow> chars \<noteq> [] \<Longrightarrow> no_triple pw \<Longrightarrow> c \<in> set chars \<and> no_triple (pw @ [c])"
proof (induction chars pw ds rule: next_char.induct)
  case (2 chars pw d ds)
  then show ?case
    by (auto simp: Let_def split: if_splits intro!: no_triple_snoc)
qed simp

lemma fill_password_ok:
  "fill_password n chars pw ds = Some (pw', ds') \<Longrightarrow> chars \<noteq> [] \<Longrightarrow> no_triple pw \<Longrightarrow>
     length pw' = length pw + n \<and> set pw' \<subseteq> set pw \<union> set chars \<and> no_triple pw'"
proof (induction n arbitrary: pw ds)
  case (Suc n)
  then obtain c ds1 where c: "next_char chars pw ds = Some (c, ds1)" "fill_password n chars (pw @ [c]) ds1 = Some (pw', ds')"
    by (auto split: option.splits)
  from next_char_ok [OF c(1) Suc.prems(2,3)] Suc.IH [OF c(2) Suc.prems(2)] show ?case
    by auto
qed simp

lemma injectGuaranteed_ok:
  "injectGuaranteed s pw ds = Some (pw', ds') \<Longrightarrow> s \<noteq> [] \<Longrightarrow> pw \<noteq> [] \<Longrightarrow> no_triple pw \<Longrightarrow>
     length pw' = length pw \<and> set pw' \<subseteq> set pw \<union> set s \<and> no_triple pw' \<and> set pw' \<inter> set s \<noteq> {}"
proof (induction s pw ds rule: injectGuaranteed.induct)
  case (1 s pw p c ds)
  let ?i = "p mod length pw" and ?c = "s ! (c mod length s)"
  show ?case
  proof (cases "makes_run pw ?i ?c")
    case True
    with 1 show ?thesis
      by (simp add: Let_def)
  next
    case False
    have i: "?i < length pw" and c: "?c \<in> set s"
      using 1(3,4) by simp_all
    have pw': "pw' = pw[?i := ?c]"
      using 1(2) False by (simp add: Let_def)
    have "?c \<in> set pw'"
      using i by (simp add: pw' set_update_memI)
    moreover have "set pw' \<subseteq> set pw \<union> set s"
      using set_update_subset_insert [of pw ?i ?c] c by (auto simp: pw')
    ultimately show ?thesis
      using no_triple_update [OF 1(5) False i] c by (auto simp: pw')
  qed
qed simp_all

lemma inject_sets_ok:
  "inject_sets ss pw ds = Some (pw', ds') \<Longrightarrow> [] \<notin> set ss \<Longrightarrow> pw \<noteq> [] \<Longrightarrow> no_triple pw \<Longrightarrow>
     length pw' = length pw \<and> set pw' \<subseteq> set pw \<union> set (concat ss) \<and> no_triple pw'
     \<and> (ss \<noteq> [] \<longrightarrow> set pw' \<inter> set (last ss) \<noteq> {})"
proof (induction ss arbitrary: pw ds)
  case (Cons s ss)
  then obtain pw1 ds1 where s: "injectGuaranteed s pw ds = Some (pw1, ds1)" "inject_sets ss pw1 ds1 = Some (pw', ds')"
    by (auto split: option.splits)
  from Cons.prems(2) have "s \<noteq> []" "[] \<notin> set ss"
    by auto
  with injectGuaranteed_ok [OF s(1) _ Cons.prems(3,4)]
  have ok: "length pw1 = length pw" "set pw1 \<subseteq> set pw \<union> set s" "no_triple pw1" "set pw1 \<inter> set s \<noteq> {}"
    by simp_all
  moreover from ok(1) Cons.prems(3) have "pw1 \<noteq> []"
    by auto
  ultimately show ?case
    using Cons.IH [OF s(2) \<open>[] \<notin> set ss\<close>] s(2) by (cases "ss = []") auto
qed simp

text \<open>C35: A generated password has the length asked for, uses the enabled characters only, never has three identical
  characters in a row, and has a character of the last enabled set, whatever the random numbers are.\<close>
theorem Generate_ok:
  assumes "Generate opts ds = Inr pw"
  shows "int (length pw) = po_length opts \<and> set pw \<subseteq> set (concat (enabled_sets opts)) \<and> no_triple pw
    \<and> set pw \<inter> set (last (enabled_sets opts)) \<noteq> {}"
proof -
  let ?chars = "concat (enabled_sets opts)"
  have pos: "1 \<le> po_length opts" and ne: "?chars \<noteq> []"
    using assms by (auto simp: Generate_def Let_def split: if_splits)
  obtain pw0 ds0 ds1 where f: "fill_password (nat (po_length opts)) ?chars [] ds = Some (pw0, ds0)"
    and i: "inject_sets (enabled_sets opts) pw0 ds0 = Some (pw, ds1)"
    using assms by (auto simp: Generate_def Let_def split: if_splits option.splits)
  have "no_triple []"
    by (simp add: no_triple_def)
  from fill_password_ok [OF f ne this] pos
  have pw0: "int (length pw0) = po_length opts" "set pw0 \<subseteq> set ?chars" "no_triple pw0" "pw0 \<noteq> []"
    by auto
  have "[] \<notin> set (enabled_sets opts)"
    by (auto simp: enabled_sets_def upperChars_def lowerChars_def numberChars_def specialChars_def)
  from inject_sets_ok [OF i this pw0(4,3)] pw0 ne show ?thesis
    by auto
qed

theorem Generate_ok_witness:
  "\<exists>pw. Generate (DefaultOptions\<lparr>po_length := 2, po_lower := False, po_numbers := False, po_special := False\<rparr>) [0, 1, 0, 2] = Inr pw
     \<and> length pw = 2 \<and> set pw \<subseteq> set upperChars"
proof -
  have "Generate (DefaultOptions\<lparr>po_length := 2, po_lower := False, po_numbers := False, po_special := False\<rparr>) [0, 1, 0, 2]
      = Inr ''CB''"
    by (simp add: Generate_def DefaultOptions_def enabled_sets_def upperChars_def makes_run_def Let_def numeral_2_eq_2)
  from Generate_ok [OF this] this show ?thesis
    by (simp add: DefaultOptions_def enabled_sets_def)
qed
text \<open>C36: The promised character of every enabled set is not guaranteed: with the default options there are random
  numbers for which the password has no upper-case letter, because a later injection took the position
  of an earlier one.\<close>
theorem enabled_set_can_be_missing:
  "\<exists>ds pw. Generate DefaultOptions ds = Inr pw \<and> length pw = 16 \<and> set pw \<inter> set upperChars = {}"
proof -
  let ?fill = "[26, 27, 26, 27, 26, 27, 26, 27, 26, 27, 26, 27, 26, 27, 26, 27]"
  have "Generate DefaultOptions (?fill @ [0, 0] @ [0, 2] @ [1, 0] @ [2, 0]) = Inr ''c0!babababababab''"
    by code_simp
  moreover have "set ''c0!babababababab'' \<inter> set upperChars = {}"
    by (simp add: upperChars_def)
  ultimately show ?thesis
    by (intro exI conjI) (assumption | simp)+
qed

end
