(* ===== verification/Totp.thy ===== *)
theory Totp
  imports NetAddr "HOL-Library.Signed_Division"
begin

text \<open>
  One-time codes (\<open>src/internal/services/auth/totp_service.go\<close>): which step of the window a code
  belongs to, and which secrets carry no key.  The code of a counter,
  \<open>hotp.GenerateCodeCustom\<close> of the module pquerna/otp, is the parameter \<open>hotp\<close>; \<open>None\<close> is
  its error.  Go's base32 decoder is modelled as far as the length of what it decodes.
\<close>

section \<open>Base 32\<close>

definition base32_val :: "char \<Rightarrow> nat option" where
  "base32_val c =
     (let n = of_char c in
      if 65 \<le> n \<and> n \<le> 90 then Some (n - 65)
      else if 50 \<le> n \<and> n \<le> 55 then Some (n - 24) else None)"

text \<open>One quantum: how many characters it has, whether padding ended it, and what is left.\<close>

fun quantum :: "nat \<Rightarrow> go_string \<Rightarrow> (nat \<times> bool \<times> go_string) option" where
  "quantum j [] = (if j = 8 then Some (8, False, []) else None)"
| "quantum j (c # rest) =
     (if j = 8 then Some (8, False, c # rest)
      else if c = CHR ''='' \<and> 2 \<le> j \<and> length rest < 8 then
        (if length rest + j < 7 then None
         else if list_ex (\<lambda>x. x \<noteq> CHR ''='') (take (7 - j) rest) then None
         else if j = 1 \<or> j = 3 \<or> j = 6 then None
         else Some (j, True, rest))
      else if base32_val c = None then None
      else quantum (Suc j) rest)"

definition quantum_bytes :: "nat \<Rightarrow> nat" where
  "quantum_bytes dlen = (if dlen = 8 then 5 else if dlen = 7 then 4 else if dlen = 5 then 3 else if dlen = 4 then 2
     else if dlen = 2 then 1 else 0)"

lemma quantum_shorter: "quantum j s = Some (d, e, r) \<Longrightarrow> j < 8 \<Longrightarrow> length r < length s"
proof (induction j s rule: quantum.induct)
  case (2 j c rest)
  then show ?case
    by (cases "Suc j = 8"; cases rest) (auto split: if_splits)
qed (auto split: if_splits)

function base32_length :: "go_string \<Rightarrow> nat option" where
  "base32_length s =
     (if s = [] then Some 0
      else case quantum 0 s of
        None \<Rightarrow> None
      | Some (d, ended, rest) \<Rightarrow>
          if ended then Some (quantum_bytes d)
          else map_option (\<lambda>n. quantum_bytes d + n) (base32_length rest))"
  by pat_completeness auto
termination
  by (relation "measure length") (auto dest: quantum_shorter)

text \<open>
  \<open>strings.ToUpper\<close>, as far as the decoder can tell: letters of ASCII, and the two other letters
  whose upper case is one; every other byte stays outside the alphabet.
\<close>

definition upper_ascii :: "char \<Rightarrow> char" where
  "upper_ascii c = (let n = of_char c :: nat in if 97 \<le> n \<and> n \<le> 122 then char_of (n - 32) else c)"

fun upper_base32 :: "go_string \<Rightarrow> go_string" where
  "upper_base32 (a # b # s) =
     (if a = CHR 0xC4 \<and> b = CHR 0xB1 then CHR ''I'' # upper_base32 s
      else if a = CHR 0xC5 \<and> b = CHR 0xBF then CHR ''S'' # upper_base32 s
      else upper_ascii a # upper_base32 (b # s))"
| "upper_base32 [a] = [upper_ascii a]"
| "upper_base32 [] = []"

definition decoded_length :: "go_string \<Rightarrow> nat option" where
  "decoded_length s = base32_length (filter (\<lambda>c. c \<noteq> CHR 0x0A \<and> c \<noteq> CHR 0x0D) s)"

section \<open>Secrets without a key\<close>

definition totpSecretIsEmpty :: "go_string \<Rightarrow> bool" where
  "totpSecretIsEmpty secret =
     (let trimmed = TrimSpace secret in
      if TrimSpace (trim_right CHR ''='' trimmed) = [] then True
      else
        let n = length trimmed mod 8;
            padded = (if n \<noteq> 0 then trimmed @ replicate (8 - n) CHR ''='' else trimmed) in
        decoded_length (upper_base32 padded) = Some 0)"

section \<open>Codes and steps\<close>

definition totp_period :: int where "totp_period = 30"
definition totp_skew :: int where "totp_skew = 2"
definition totp_digits :: nat where "totp_digits = 6"

datatype totp_error = TotpEmptySecret | TotpGenerate

text \<open>The slots of the window in the code's order: the last match wins, an error ends the scan.\<close>

fun match_steps :: "(nat \<Rightarrow> go_string option) \<Rightarrow> go_string \<Rightarrow> int list \<Rightarrow> int \<times> bool \<Rightarrow> (int \<times> bool) option" where
  "match_steps gen code [] acc = Some acc"
| "match_steps gen code (step # steps) (matched, found) =
     (if step < 0 then match_steps gen code steps (matched, found)
      else case gen (nat step) of
        None \<Rightarrow> None
      | Some expected \<Rightarrow>
          match_steps gen code steps
            (if expected = code then step else matched, found \<or> expected = code))"

definition current_step :: "instant \<Rightarrow> int" where
  "current_step now = (now div 1000000000) sdiv totp_period"

definition window :: "instant \<Rightarrow> int list" where
  "window now = [current_step now - totp_skew .. current_step now + totp_skew]"

definition ValidateCodeWithStep ::
  "(go_string \<Rightarrow> nat \<Rightarrow> go_string option) \<Rightarrow> go_string \<Rightarrow> go_string \<Rightarrow> instant \<Rightarrow> totp_error + (int \<times> bool)" where
  "ValidateCodeWithStep hotp code0 secret now =
     (if totpSecretIsEmpty secret then Inl TotpEmptySecret
      else
        let code = TrimSpace code0 in
        if length code \<noteq> totp_digits then Inr (0, False)
        else case match_steps (hotp secret) code (window now) (0, False) of
          None \<Rightarrow> Inl TotpGenerate
        | Some (matched, found) \<Rightarrow> if found then Inr (matched, True) else Inr (0, False))"

section \<open>Lemmas\<close>

text \<open>A code is accepted exactly for the latest slot of the window that shows it.\<close>

lemma match_steps_Some:
  assumes "match_steps gen code steps (m, f) = Some (m', f')" and "sorted steps"
  shows "(f' \<longleftrightarrow> f \<or> (\<exists>s\<in>set steps. 0 \<le> s \<and> gen (nat s) = Some code))
    \<and> (if \<exists>s\<in>set steps. 0 \<le> s \<and> gen (nat s) = Some code
       then m' \<in> set steps \<and> 0 \<le> m' \<and> gen (nat m') = Some code
         \<and> (\<forall>s\<in>set steps. 0 \<le> s \<longrightarrow> gen (nat s) = Some code \<longrightarrow> s \<le> m')
       else m' = m)"
  using assms
proof (induction steps arbitrary: m f)
  case (Cons s steps)
  show ?case
  proof (cases "s < 0 \<or> (\<exists>c. gen (nat s) = Some c \<and> c \<noteq> code)")
    case True
    then show ?thesis
      using Cons.prems Cons.IH [of m f] by (auto split: option.splits if_splits)
  next
    case False
    then have s: "0 \<le> s" "gen (nat s) = Some code"
      using Cons.prems(1) by (auto split: option.splits)
    then have "match_steps gen code steps (s, True) = Some (m', f')" "sorted steps" "\<forall>t\<in>set steps. s \<le> t"
      using Cons.prems by auto
    with s Cons.IH [of s True] show ?thesis
      by (cases "\<exists>s\<in>set steps. 0 \<le> s \<and> gen (nat s) = Some code") auto
  qed
qed simp

lemma ValidateCodeWithStep_valid:
  assumes "ValidateCodeWithStep hotp code secret now = Inr (step, True)"
  shows "\<not> totpSecretIsEmpty secret \<and> length (TrimSpace code) = totp_digits \<and> 0 \<le> step
    \<and> \<bar>step - current_step now\<bar> \<le> totp_skew \<and> hotp secret (nat step) = Some (TrimSpace code)
    \<and> (\<forall>s\<in>set (window now). 0 \<le> s \<longrightarrow> hotp secret (nat s) = Some (TrimSpace code) \<longrightarrow> s \<le> step)"
proof -
  obtain m f where m: "match_steps (hotp secret) (TrimSpace code) (window now) (0, False) = Some (m, f)"
    using assms by (auto simp: ValidateCodeWithStep_def Let_def split: if_splits option.splits)
  have "sorted (window now)"
    by (simp add: window_def)
  from match_steps_Some [OF m this] show ?thesis
    using assms m
    by (auto simp: ValidateCodeWithStep_def Let_def window_def totp_skew_def split: if_splits)
qed

lemma quantum_length: "quantum j s = Some (d, e, r) \<Longrightarrow> j \<le> 8 \<Longrightarrow> d \<in> {2, 4, 5, 7, 8}"
  by (induction j s rule: quantum.induct) (auto split: if_splits)

declare base32_length.simps [simp del]

lemma base32_length_pos: "s \<noteq> [] \<Longrightarrow> base32_length s \<noteq> Some 0"
  by (subst base32_length.simps)
    (auto split: option.splits if_splits dest!: quantum_length simp: quantum_bytes_def)

lemma drop_seqs_suffix: "\<exists>p. s = p @ drop_seqs n ps s"
proof (induction n arbitrary: s)
  case (Suc n)
  show ?case
  proof (cases "find (\<lambda>p. p \<noteq> [] \<and> has_prefix s p) ps")
    case (Some p)
    obtain q where "drop (length p) s = q @ drop_seqs n ps (drop (length p) s)"
      using Suc by blast
    then have "s = (take (length p) s @ q) @ drop_seqs n ps (drop (length p) s)"
      by (metis append_assoc append_take_drop_id)
    then show ?thesis
      unfolding drop_seqs.simps Some option.case by blast
  qed simp
qed simp

lemma drop_seqs_done:
  "length s \<le> n \<Longrightarrow> p \<in> set ps \<Longrightarrow> p \<noteq> [] \<Longrightarrow> \<not> has_prefix (drop_seqs n ps s) p"
proof (induction n arbitrary: s)
  case 0
  then show ?case
    by (cases p) auto
next
  case (Suc n)
  show ?case
  proof (cases "find (\<lambda>p. p \<noteq> [] \<and> has_prefix s p) ps")
    case None
    then have "\<forall>q\<in>set ps. q = [] \<or> \<not> has_prefix s q"
      by (auto simp only: find_None_iff)
    with Suc.prems(2,3) show ?thesis
      unfolding drop_seqs.simps None option.case by blast
  next
    case (Some q)
    then have "q \<noteq> []" "has_prefix s q"
      by (auto dest: find_in_set)
    then have "length (drop (length q) s) \<le> n"
      using Suc.prems(1) by (cases q) auto
    with Suc Some show ?thesis
      by simp
  qed
qed

lemma space_newlines: "[CHR 0x0A] \<in> set space_seqs" "[CHR 0x0D] \<in> set space_seqs"
  by (simp_all add: space_seqs_def)

lemma TrimSpace_hd:
  assumes "TrimSpace s \<noteq> []"
  shows "hd (TrimSpace s) \<noteq> CHR 0x0A" "hd (TrimSpace s) \<noteq> CHR 0x0D"
proof -
  define l where "l = drop_seqs (length s) space_seqs s"
  obtain p where p: "rev l = p @ drop_seqs (length l) (map rev space_seqs) (rev l)"
    using drop_seqs_suffix by blast
  have t: "TrimSpace s = rev (drop_seqs (length l) (map rev space_seqs) (rev l))"
    by (simp add: TrimSpace_def l_def Let_def)
  from p have "l = rev (drop_seqs (length l) (map rev space_seqs) (rev l)) @ rev p"
    by (metis rev_append rev_rev_ident)
  then have l: "l = TrimSpace s @ rev p"
    using t by simp
  have no: "\<not> has_prefix l [c]" if "[c] \<in> set space_seqs" for c
    unfolding l_def using that by (intro drop_seqs_done) simp_all
  have "has_prefix l [hd (TrimSpace s)]"
    using assms l by (cases "TrimSpace s") auto
  with no [OF space_newlines(1)] no [OF space_newlines(2)]
  show "hd (TrimSpace s) \<noteq> CHR 0x0A" "hd (TrimSpace s) \<noteq> CHR 0x0D"
    by metis+
qed

lemma upper_base32_hd:
  "s \<noteq> [] \<Longrightarrow> hd s \<noteq> CHR 0x0A \<Longrightarrow> hd s \<noteq> CHR 0x0D
    \<Longrightarrow> filter (\<lambda>c. c \<noteq> CHR 0x0A \<and> c \<noteq> CHR 0x0D) (upper_base32 s) \<noteq> []"
proof -
  have nl: "upper_ascii c = CHR 0x0A \<Longrightarrow> c = CHR 0x0A" "upper_ascii c = CHR 0x0D \<Longrightarrow> c = CHR 0x0D" for c
  proof -
    have *: "upper_ascii c = c \<or> 65 \<le> (of_char (upper_ascii c) :: nat)"
      by (auto simp: upper_ascii_def Let_def)
    from * show "upper_ascii c = CHR 0x0A \<Longrightarrow> c = CHR 0x0A"
      by (elim disjE) auto
    from * show "upper_ascii c = CHR 0x0D \<Longrightarrow> c = CHR 0x0D"
      by (elim disjE) auto
  qed
  assume "s \<noteq> []" "hd s \<noteq> CHR 0x0A" "hd s \<noteq> CHR 0x0D"
  then show ?thesis
    by (cases s rule: upper_base32.cases) (auto dest: nl)
qed

text \<open>The secrets without a key are those of spaces and padding only: decoding finds no other.\<close>

lemma totpSecretIsEmpty_iff:
  "totpSecretIsEmpty s \<longleftrightarrow> TrimSpace (trim_right CHR ''='' (TrimSpace s)) = []"
proof -
  have "decoded_length (upper_base32 (t @ r)) \<noteq> Some 0" if "t = TrimSpace s" "t \<noteq> []" for t r
  proof -
    have "hd (t @ r) \<noteq> CHR 0x0A" "hd (t @ r) \<noteq> CHR 0x0D"
      using that TrimSpace_hd [of s] by simp_all
    then show ?thesis
      using that unfolding decoded_length_def by (intro base32_length_pos upper_base32_hd) simp_all
  qed
  from this [OF refl, of "[]"] this [OF refl, of "replicate (8 - length (TrimSpace s) mod 8) CHR ''=''"]
  show ?thesis
    by (cases "TrimSpace s = []")
      (auto simp: totpSecretIsEmpty_def Let_def trim_right_def trim_left_def TrimSpace_def)
qed

lemma empty_secret [simp]: "totpSecretIsEmpty []"
  by (simp add: totpSecretIsEmpty_iff TrimSpace_def trim_right_def trim_left_def)

end
