(* ===== verification/Accounts.thy ===== *)
theory Accounts
  imports RBAC LoginThrottle VaultRepository Retry CriticalAudit Sha256 Totp
begin

text \<open>
  Accounts and sessions as the database keeps them: users with their roles
  (\<open>src/internal/repositories/user_repository.go\<close>), the last accepted step of a user's one-time code
  (\<open>totp_step_repository.go\<close>), sessions (\<open>session_repository.go\<close>), service accounts
  (\<open>oauth2_client_repository.go\<close>) and the removal of a principal's grants (\<open>principal_grants.go\<close>).

  A table is the list of its rows.  \<open>en_fails\<close> says which statement the database refuses; a transaction is
  one statement, refused as a whole.  SQLite leaves foreign keys unenforced, PostgreSQL enforces them
  and cascades: \<open>sy_fk\<close> says which.  The device columns of a session are always empty and are left out.
\<close>

section \<open>Rows\<close>

record user_row =
  ur_id :: uuid
  ur_username :: go_string
  ur_hash :: go_string
  ur_totp :: go_string
  ur_legacy_role :: go_string
  ur_provider :: go_string
  ur_subject :: "go_string option"
  ur_email :: "go_string option"
  ur_last_step :: int
  ur_created :: instant

record user =
  us_id :: uuid
  us_username :: go_string
  us_hash :: go_string
  us_totp :: go_string
  us_roles :: "go_string list"
  us_provider :: go_string
  us_subject :: go_string
  us_email :: go_string
  us_created :: instant

record session =
  se_id :: uuid
  se_user :: uuid
  se_hash :: go_string
  se_expires :: instant
  se_last_used :: instant
  se_created :: instant
  se_revoked :: bool
  se_revoked_at :: "instant option"
  se_reason :: go_string

record oauth_client =
  oc_id :: uuid
  oc_name :: go_string
  oc_secret :: go_string
  oc_description :: go_string
  oc_enabled :: bool
  oc_created :: instant
  oc_expires :: "instant option"

record account_event =
  ev_user :: "uuid option"
  ev_action :: go_string
  ev_outcome :: audit_outcome
  ev_details :: go_string

record account_state =
  ac_users :: "user_row list"
  ac_roles :: "(uuid \<times> go_string) list"
  ac_sessions :: "session list"
  ac_clients :: "oauth_client list"
  ac_failures :: failure_table
  ac_assignments :: role_table
  ac_policies :: policy_table
  ac_grants :: "provisioning_grant list"
  ac_events :: "account_event list"
  ac_bootstrap :: "(go_string \<times> bool) list"

datatype account_stmt =
    StRead | StReadByUsername | StReadRoles | StReadBySubject | StCreateUser | StUpdateUser | StDeleteUser
  | StUpdateEmail | StClaimStep | StCreateSession | StFindSession | StListSessions | StTouchSession
  | StRevokeSession | StRevokeAll | StIsRevoked | StDeleteExpired | StClientGet | StClientByName
  | StClientCreate | StClientUpdate | StClientDelete | StEvent | StCountUsers | StReadToken | StWriteToken

datatype store_error = RowMissing | NameTaken | DbFault

text \<open>
  What an operation gets from outside: failing statements, the clock, the next id, random bytes and the
  next one-time-code key with its enrolment URL.
\<close>

record account_env =
  en_fails :: "account_stmt \<Rightarrow> bool"
  en_throttle_fails :: "throttle_stmt \<Rightarrow> bool"
  en_attempt_fails :: bool
  en_result_fails :: bool
  en_now :: instant
  en_id :: uuid
  en_random :: "go_string option"
  en_totp_key :: "(go_string \<times> go_string) option"

section \<open>Users\<close>

definition AuthProviderLocal :: go_string where "AuthProviderLocal = ''local''"
definition SystemUserID :: uuid where "SystemUserID = uuid_nil"
definition ValidRoles :: "go_string list" where
  "ValidRoles = [RoleAdmin, RoleSecretsManager, RoleCryptoManager, RoleCertificateManager, RoleUser]"
definition IsValidUserRole :: "go_string \<Rightarrow> bool" where
  "IsValidUserRole role = list_ex (\<lambda>r. r = role) ValidRoles"

fun normalizeRoles :: "go_string list \<Rightarrow> go_string list \<Rightarrow> go_string list" where
  "normalizeRoles seen [] = []"
| "normalizeRoles seen (role # roles) =
     (if role = [] \<or> role \<in> set seen then normalizeRoles seen roles
      else role # normalizeRoles (role # seen) roles)"

fun role_rows :: "go_string list \<Rightarrow> go_string list \<Rightarrow> go_string list" where
  "role_rows seen [] = []"
| "role_rows seen (role # roles) =
     (if role = [] \<or> role \<in> set seen then role_rows seen roles
      else if CHR '','' \<in> set role then role_rows seen roles
      else role # role_rows (role # seen) roles)"

definition replaceUserRoles ::
  "uuid \<Rightarrow> go_string list \<Rightarrow> (uuid \<times> go_string) list \<Rightarrow> (uuid \<times> go_string) list" where
  "replaceUserRoles uid roles tbl =
     filter (\<lambda>(u, _). u \<noteq> uid) tbl @ map (Pair uid) (role_rows [] roles)"

definition fetchUserRoles :: "uuid \<Rightarrow> (uuid \<times> go_string) list \<Rightarrow> go_string list" where
  "fetchUserRoles uid tbl = sort (map snd (filter (\<lambda>(u, _). u = uid) tbl))"

definition scan_user :: "account_state \<Rightarrow> user_row \<Rightarrow> user" where
  "scan_user st r =
     \<lparr>us_id = ur_id r, us_username = ur_username r, us_hash = ur_hash r, us_totp = ur_totp r,
      us_roles = fetchUserRoles (ur_id r) (ac_roles st), us_provider = ur_provider r,
      us_subject = (case ur_subject r of None \<Rightarrow> [] | Some s \<Rightarrow> s),
      us_email = (case ur_email r of None \<Rightarrow> [] | Some s \<Rightarrow> s), us_created = ur_created r\<rparr>"

definition read_user ::
  "account_env \<Rightarrow> account_stmt \<Rightarrow> (user_row \<Rightarrow> bool) \<Rightarrow> account_state \<Rightarrow> store_error + user" where
  "read_user env stmt P st =
     (if en_fails env stmt then Inl DbFault
      else case find P (ac_users st) of
        None \<Rightarrow> Inl RowMissing
      | Some r \<Rightarrow> if en_fails env StReadRoles then Inl DbFault else Inr (scan_user st r))"

definition Read :: "account_env \<Rightarrow> uuid \<Rightarrow> account_state \<Rightarrow> store_error + user" where
  "Read env uid = read_user env StRead (\<lambda>r. ur_id r = uid)"

definition ReadByUsername :: "account_env \<Rightarrow> go_string \<Rightarrow> account_state \<Rightarrow> store_error + user" where
  "ReadByUsername env username = read_user env StReadByUsername (\<lambda>r. ur_username r = username)"

definition ReadByExternalSubject ::
  "account_env \<Rightarrow> go_string \<Rightarrow> go_string \<Rightarrow> account_state \<Rightarrow> store_error + user" where
  "ReadByExternalSubject env provider subject =
     read_user env StReadBySubject (\<lambda>r. ur_provider r = provider \<and> ur_subject r = Some subject)"

text \<open>The primary key, the unique name and the unique external subject refuse an insert.\<close>

definition new_user_row :: "user \<Rightarrow> user_row" where
  "new_user_row u =
     \<lparr>ur_id = us_id u, ur_username = us_username u, ur_hash = us_hash u, ur_totp = us_totp u,
      ur_legacy_role = join_str '','' (normalizeRoles [] (us_roles u)),
      ur_provider = (if us_provider u = [] then AuthProviderLocal else us_provider u),
      ur_subject = (if us_subject u = [] then None else Some (us_subject u)),
      ur_email = (if us_email u = [] then None else Some (us_email u)),
      ur_last_step = 0, ur_created = us_created u\<rparr>"

definition user_clash :: "user_row \<Rightarrow> user_row \<Rightarrow> bool" where
  "user_clash r s \<longleftrightarrow> ur_id r = ur_id s \<or> ur_username r = ur_username s
     \<or> ur_subject s \<noteq> None \<and> ur_provider r = ur_provider s \<and> ur_subject r = ur_subject s"

definition user_create :: "account_env \<Rightarrow> user \<Rightarrow> account_state \<Rightarrow> store_error option \<times> account_state" where
  "user_create env u st =
     (if en_fails env StCreateUser then (Some DbFault, st)
      else if list_ex (\<lambda>r. ur_username r = us_username u) (ac_users st) then (Some NameTaken, st)
      else if list_ex (\<lambda>r. user_clash r (new_user_row u)) (ac_users st) then (Some DbFault, st)
      else (None, st\<lparr>ac_users := ac_users st @ [new_user_row u],
        ac_roles := replaceUserRoles (us_id u) (normalizeRoles [] (us_roles u)) (ac_roles st)\<rparr>))"

definition user_update :: "account_env \<Rightarrow> user \<Rightarrow> account_state \<Rightarrow> store_error option \<times> account_state" where
  "user_update env u st =
     (if en_fails env StUpdateUser then (Some DbFault, st)
      else if \<not> list_ex (\<lambda>r. ur_id r = us_id u) (ac_users st) then (Some RowMissing, st)
      else if list_ex (\<lambda>r. ur_id r \<noteq> us_id u \<and> ur_username r = us_username u) (ac_users st) then (Some DbFault, st)
      else (None, st\<lparr>ac_users := map (\<lambda>r. if ur_id r = us_id u
            then r\<lparr>ur_username := us_username u, ur_hash := us_hash u, ur_totp := us_totp u,
              ur_legacy_role := join_str '','' (normalizeRoles [] (us_roles u))\<rparr> else r) (ac_users st),
        ac_roles := replaceUserRoles (us_id u) (normalizeRoles [] (us_roles u)) (ac_roles st)\<rparr>))"

definition UpdateEmail ::
  "account_env \<Rightarrow> uuid \<Rightarrow> go_string \<Rightarrow> account_state \<Rightarrow> store_error option \<times> account_state" where
  "UpdateEmail env uid email st =
     (if en_fails env StUpdateEmail then (Some DbFault, st)
      else if \<not> list_ex (\<lambda>r. ur_id r = uid) (ac_users st) then (Some RowMissing, st)
      else (None, st\<lparr>ac_users := map (\<lambda>r. if ur_id r = uid then r\<lparr>ur_email := Some email\<rparr> else r) (ac_users st)\<rparr>))"

definition deletePrincipalGrants :: "uuid \<Rightarrow> account_state \<Rightarrow> account_state" where
  "deletePrincipalGrants uid st =
     st\<lparr>ac_assignments := filter (\<lambda>a. ra_principal a \<noteq> uid) (ac_assignments st),
       ac_policies := filter (\<lambda>p. pol_principal p \<noteq> uid) (ac_policies st),
       ac_grants := filter (\<lambda>g. pg_principal g \<noteq> uid) (ac_grants st)\<rparr>"

definition user_delete ::
  "bool \<Rightarrow> account_env \<Rightarrow> uuid \<Rightarrow> account_state \<Rightarrow> store_error option \<times> account_state" where
  "user_delete fk env uid st =
     (if en_fails env StDeleteUser then (Some DbFault, st)
      else if \<not> list_ex (\<lambda>r. ur_id r = uid) (ac_users st) then (Some RowMissing, st)
      else
        let st' = deletePrincipalGrants uid (st\<lparr>ac_roles := filter (\<lambda>(u, _). u \<noteq> uid) (ac_roles st)\<rparr>) in
        (None, st'\<lparr>ac_users := filter (\<lambda>r. ur_id r \<noteq> uid) (ac_users st'),
          ac_sessions := (if fk then filter (\<lambda>s. se_user s \<noteq> uid) (ac_sessions st') else ac_sessions st')\<rparr>))"

definition list_users :: "account_env \<Rightarrow> account_state \<Rightarrow> store_error + user list" where
  "list_users env st =
     (if en_fails env StRead then Inl DbFault
      else
        let rows = newest_first ur_created (filter (\<lambda>r. ur_id r \<noteq> SystemUserID) (ac_users st)) in
        if rows \<noteq> [] \<and> en_fails env StReadRoles then Inl DbFault else Inr (map (scan_user st) rows))"

definition ClaimTOTPStep ::
  "account_env \<Rightarrow> uuid \<Rightarrow> int \<Rightarrow> account_state \<Rightarrow> (store_error + bool) \<times> account_state" where
  "ClaimTOTPStep env uid step st =
     (if en_fails env StClaimStep then (Inl DbFault, st)
      else
        let newer = (\<lambda>r. ur_id r = uid \<and> ur_last_step r < step) in
        (Inr (length (filter newer (ac_users st)) = 1),
         st\<lparr>ac_users := map (\<lambda>r. if newer r then r\<lparr>ur_last_step := step\<rparr> else r) (ac_users st)\<rparr>))"

text \<open>The first account may be created with a token while no account but the system's exists.\<close>

definition ValidateBootstrapToken :: "account_env \<Rightarrow> go_string \<Rightarrow> account_state \<Rightarrow> store_error + bool" where
  "ValidateBootstrapToken env token st =
     (if en_fails env StCountUsers then Inl DbFault
      else if length (filter (\<lambda>r. ur_id r \<noteq> SystemUserID) (ac_users st)) > 0 then Inr False
      else if en_fails env StReadToken then Inl DbFault
      else case find (\<lambda>(t, _). t = token) (ac_bootstrap st) of
        None \<Rightarrow> Inr False
      | Some (_, used) \<Rightarrow> Inr (\<not> used))"

definition InvalidateBootstrapToken ::
  "account_env \<Rightarrow> go_string \<Rightarrow> account_state \<Rightarrow> store_error option \<times> account_state" where
  "InvalidateBootstrapToken env token st =
     (if en_fails env StWriteToken then (Some DbFault, st)
      else if list_ex (\<lambda>(t, _). t = token) (ac_bootstrap st)
      then (None, st\<lparr>ac_bootstrap := map (\<lambda>(t, used). (t, if t = token then True else used)) (ac_bootstrap st)\<rparr>)
      else (None, st\<lparr>ac_bootstrap := ac_bootstrap st @ [(token, True)]\<rparr>))"

section \<open>Sessions\<close>

definition CreateSession ::
  "bool \<Rightarrow> account_env \<Rightarrow> session \<Rightarrow> account_state \<Rightarrow> store_error option \<times> account_state" where
  "CreateSession fk env s st =
     (if en_fails env StCreateSession then (Some DbFault, st)
      else if list_ex (\<lambda>x. se_id x = se_id s) (ac_sessions st) then (Some DbFault, st)
      else if fk \<and> \<not> list_ex (\<lambda>r. ur_id r = se_user s) (ac_users st) then (Some DbFault, st)
      else (None, st\<lparr>ac_sessions := ac_sessions st @ [s]\<rparr>))"

definition GetSessionByID :: "account_env \<Rightarrow> uuid \<Rightarrow> account_state \<Rightarrow> store_error + session" where
  "GetSessionByID env sid st =
     (if en_fails env StFindSession then Inl DbFault
      else case find (\<lambda>s. se_id s = sid \<and> \<not> se_revoked s) (ac_sessions st) of
        None \<Rightarrow> Inl RowMissing | Some s \<Rightarrow> Inr s)"

definition GetSessionByRefreshToken :: "account_env \<Rightarrow> go_string \<Rightarrow> account_state \<Rightarrow> store_error + session" where
  "GetSessionByRefreshToken env hash st =
     (if en_fails env StFindSession then Inl DbFault
      else case find (\<lambda>s. se_hash s = hash \<and> \<not> se_revoked s \<and> se_expires s > en_now env) (ac_sessions st) of
        None \<Rightarrow> Inl RowMissing | Some s \<Rightarrow> Inr s)"

definition GetActiveSessionsByUserID :: "account_env \<Rightarrow> uuid \<Rightarrow> account_state \<Rightarrow> store_error + session list" where
  "GetActiveSessionsByUserID env uid st =
     (if en_fails env StListSessions then Inl DbFault
      else Inr (newest_first se_last_used
        (filter (\<lambda>s. se_user s = uid \<and> \<not> se_revoked s \<and> se_expires s > en_now env) (ac_sessions st))))"

definition CountActiveSessions :: "account_env \<Rightarrow> uuid \<Rightarrow> account_state \<Rightarrow> store_error + nat" where
  "CountActiveSessions env uid st =
     (if en_fails env StListSessions then Inl DbFault
      else Inr (length (filter (\<lambda>s. se_user s = uid \<and> \<not> se_revoked s \<and> se_expires s > en_now env) (ac_sessions st))))"

definition UpdateSessionLastUsed ::
  "account_env \<Rightarrow> uuid \<Rightarrow> instant \<Rightarrow> account_state \<Rightarrow> store_error option \<times> account_state" where
  "UpdateSessionLastUsed env sid moment st =
     (let hit = (\<lambda>s. se_id s = sid \<and> \<not> se_revoked s) in
      if en_fails env StTouchSession then (Some DbFault, st)
      else if \<not> list_ex hit (ac_sessions st) then (Some RowMissing, st)
      else (None, st\<lparr>ac_sessions := map (\<lambda>s. if hit s then s\<lparr>se_last_used := moment\<rparr> else s) (ac_sessions st)\<rparr>))"

definition revoke_where ::
  "(session \<Rightarrow> bool) \<Rightarrow> instant \<Rightarrow> go_string \<Rightarrow> account_state \<Rightarrow> account_state" where
  "revoke_where P now reason st =
     st\<lparr>ac_sessions := map (\<lambda>s. if P s \<and> \<not> se_revoked s
        then s\<lparr>se_revoked := True, se_revoked_at := Some now, se_reason := reason\<rparr> else s) (ac_sessions st)\<rparr>"

definition revoke_one ::
  "account_env \<Rightarrow> (session \<Rightarrow> bool) \<Rightarrow> go_string \<Rightarrow> account_state \<Rightarrow> store_error option \<times> account_state" where
  "revoke_one env P reason st =
     (if en_fails env StRevokeSession then (Some DbFault, st)
      else if \<not> list_ex (\<lambda>s. P s \<and> \<not> se_revoked s) (ac_sessions st) then (Some RowMissing, st)
      else (None, revoke_where P (en_now env) reason st))"

definition session_revoke ::
  "account_env \<Rightarrow> uuid \<Rightarrow> go_string \<Rightarrow> account_state \<Rightarrow> store_error option \<times> account_state" where
  "session_revoke env sid = revoke_one env (\<lambda>s. se_id s = sid)"

definition RevokeUserSession ::
  "account_env \<Rightarrow> uuid \<Rightarrow> uuid \<Rightarrow> go_string \<Rightarrow> account_state \<Rightarrow> store_error option \<times> account_state" where
  "RevokeUserSession env sid uid = revoke_one env (\<lambda>s. se_id s = sid \<and> se_user s = uid)"

definition session_revoke_all ::
  "account_env \<Rightarrow> uuid \<Rightarrow> go_string \<Rightarrow> account_state \<Rightarrow> store_error option \<times> account_state" where
  "session_revoke_all env uid reason st =
     (if en_fails env StRevokeAll then (Some DbFault, st)
      else (None, revoke_where (\<lambda>s. se_user s = uid) (en_now env) reason st))"

definition DeleteExpiredSessions ::
  "account_env \<Rightarrow> instant \<Rightarrow> account_state \<Rightarrow> (store_error + nat) \<times> account_state" where
  "DeleteExpiredSessions env before st =
     (let old = (\<lambda>s. se_expires s < before \<and> (se_revoked s \<or> se_expires s < en_now env)) in
      if en_fails env StDeleteExpired then (Inl DbFault, st)
      else (Inr (length (filter old (ac_sessions st))),
        st\<lparr>ac_sessions := filter (\<lambda>s. \<not> old s) (ac_sessions st)\<rparr>))"

definition IsSessionRevoked :: "account_env \<Rightarrow> uuid \<Rightarrow> account_state \<Rightarrow> store_error + bool" where
  "IsSessionRevoked env sid st =
     (if en_fails env StIsRevoked then Inl DbFault
      else case find (\<lambda>s. se_id s = sid) (ac_sessions st) of
        None \<Rightarrow> Inr True | Some s \<Rightarrow> Inr (se_revoked s))"

section \<open>Service accounts\<close>

definition client_create ::
  "account_env \<Rightarrow> oauth_client \<Rightarrow> account_state \<Rightarrow> store_error option \<times> account_state" where
  "client_create env c st =
     (if en_fails env StClientCreate then (Some DbFault, st)
      else if list_ex (\<lambda>x. oc_id x = oc_id c \<or> oc_name x = oc_name c) (ac_clients st) then (Some DbFault, st)
      else (None, st\<lparr>ac_clients := ac_clients st @ [c]\<rparr>))"

definition client_get :: "account_env \<Rightarrow> uuid \<Rightarrow> account_state \<Rightarrow> store_error + oauth_client" where
  "client_get env cid st =
     (if en_fails env StClientGet then Inl DbFault
      else case find (\<lambda>c. oc_id c = cid) (ac_clients st) of None \<Rightarrow> Inl RowMissing | Some c \<Rightarrow> Inr c)"

definition FindByName :: "account_env \<Rightarrow> go_string \<Rightarrow> account_state \<Rightarrow> store_error + oauth_client" where
  "FindByName env name st =
     (if en_fails env StClientByName then Inl DbFault
      else case find (\<lambda>c. oc_name c = name) (ac_clients st) of None \<Rightarrow> Inl RowMissing | Some c \<Rightarrow> Inr c)"

definition client_list :: "account_env \<Rightarrow> account_state \<Rightarrow> store_error + oauth_client list" where
  "client_list env st =
     (if en_fails env StClientGet then Inl DbFault else Inr (newest_first oc_created (ac_clients st)))"

text \<open>An update of a missing row is no error; a name in use is.\<close>

definition client_update ::
  "account_env \<Rightarrow> oauth_client \<Rightarrow> account_state \<Rightarrow> store_error option \<times> account_state" where
  "client_update env c st =
     (if en_fails env StClientUpdate then (Some DbFault, st)
      else if list_ex (\<lambda>x. oc_id x = oc_id c) (ac_clients st)
        \<and> list_ex (\<lambda>x. oc_id x \<noteq> oc_id c \<and> oc_name x = oc_name c) (ac_clients st) then (Some DbFault, st)
      else (None, st\<lparr>ac_clients := map (\<lambda>x. if oc_id x = oc_id c
        then c\<lparr>oc_created := oc_created x\<rparr> else x) (ac_clients st)\<rparr>))"

definition client_delete ::
  "account_env \<Rightarrow> uuid \<Rightarrow> account_state \<Rightarrow> store_error option \<times> account_state" where
  "client_delete env cid st =
     (if en_fails env StClientDelete then (Some DbFault, st)
      else (None, (deletePrincipalGrants cid st)\<lparr>ac_clients := filter (\<lambda>c. oc_id c \<noteq> cid) (ac_clients st)\<rparr>))"

end
