(* ===== verification/Auth.thy ===== *)
theory Auth
  imports Accounts
begin

text \<open>
  Tokens (\<open>src/internal/services/auth/jwt_service.go\<close>) and the authentication service
  (\<open>authentication_service.go\<close>): login with password and one-time code, sessions, refresh and
  revocation.

  The modules golang-jwt, google/uuid and bcrypt are parameters of the system \<open>sys\<close>: signing, decoding and
  checking a token, printing and parsing ids, comparing and making hashes.  An optional dependency that may
  be nil is a flag.  The text of the wait in a throttled error is left out.
\<close>

section \<open>The system\<close>

record jwt_claims =
  jc_user :: uuid
  jc_username :: go_string
  jc_roles :: "go_string list"
  jc_id :: go_string
  jc_issuer :: go_string
  jc_subject :: go_string
  jc_audience :: "go_string list"

record auth_system =
  sy_fk :: bool
  sy_has_audit :: bool
  sy_has_throttle :: bool
  sy_has_steps :: bool
  sy_has_clients :: bool
  sy_has_revoker :: bool
  sy_throttle_hash :: "go_string \<Rightarrow> go_string"
  sy_check_password :: "go_string \<Rightarrow> go_string \<Rightarrow> bool"
  sy_hash_password :: "go_string \<Rightarrow> go_string option"
  sy_hotp :: "go_string \<Rightarrow> nat \<Rightarrow> go_string option"
  sy_show_uuid :: "uuid \<Rightarrow> go_string"
  sy_parse_uuid :: "go_string \<Rightarrow> uuid option"
  sy_issuer :: go_string
  sy_audience :: go_string
  sy_expiry :: int
  sy_algorithm :: go_string
  sy_key_id :: go_string
  sy_public_keys :: "(go_string \<times> go_string) list"
  sy_sign :: "go_string \<Rightarrow> go_string \<Rightarrow> instant \<Rightarrow> instant \<Rightarrow> jwt_claims \<Rightarrow> go_string option"
  sy_decode :: "go_string \<Rightarrow> (go_string option \<times> jwt_claims) option"
  sy_verify :: "go_string \<Rightarrow> go_string \<Rightarrow> instant \<Rightarrow> bool"

datatype auth_cause =
    CauseThrottled int | CauseNotEnrolled | CauseAuditUnavailable | CauseSessionNotFound | CauseNotFound | CauseOther

type_synonym auth_error = "auth_cause go_error"

definition auth_err :: "auth_cause \<Rightarrow> go_string \<Rightarrow> auth_error" where
  "auth_err cause text =
     \<lparr>err_value = cause, err_retryable = None, err_client_fault = False, err_text = text\<rparr>"

definition wrap_err :: "go_string \<Rightarrow> auth_error \<Rightarrow> auth_error" where
  "wrap_err pre e = e\<lparr>err_text := pre @ err_text e\<rparr>"

definition throttled_err :: "int \<Rightarrow> auth_error" where
  "throttled_err wait = ClientError (auth_err (CauseThrottled wait) ''too many failed login attempts'')"

definition db_err :: "store_error \<Rightarrow> auth_error" where
  "db_err e = auth_err (if e = RowMissing then CauseNotFound else CauseOther) ''database''"

definition invalid_credentials :: auth_error where
  "invalid_credentials = auth_err CauseOther ''invalid credentials''"

definition invalidTOTPCodeMessage :: go_string where "invalidTOTPCodeMessage = ''invalid TOTP code''"

section \<open>Tokens\<close>

definition signing_methods :: "go_string list" where
  "signing_methods = [''RS256'', ''ES256'', ''ES384'', ''ES512'']"

definition token_claims :: "auth_system \<Rightarrow> uuid \<Rightarrow> go_string \<Rightarrow> go_string list \<Rightarrow> uuid \<Rightarrow> jwt_claims" where
  "token_claims sys uid username roles sid =
     \<lparr>jc_user = uid, jc_username = username, jc_roles = roles, jc_id = sy_show_uuid sys sid,
      jc_issuer = sy_issuer sys, jc_subject = sy_show_uuid sys uid, jc_audience = [sy_audience sys]\<rparr>"

definition GenerateToken ::
  "auth_system \<Rightarrow> instant \<Rightarrow> uuid \<Rightarrow> go_string \<Rightarrow> go_string list \<Rightarrow> uuid \<Rightarrow> go_string option" where
  "GenerateToken sys now uid username roles sid =
     (if sy_algorithm sys \<notin> set signing_methods then None
      else sy_sign sys (sy_algorithm sys) (sy_key_id sys) now (now + sy_expiry sys)
        (token_claims sys uid username roles sid))"

definition validateCommonClaims :: "auth_system \<Rightarrow> jwt_claims \<Rightarrow> bool" where
  "validateCommonClaims sys c \<longleftrightarrow>
     jc_issuer c = sy_issuer sys \<and> list_ex (\<lambda>a. a = sy_audience sys) (jc_audience c)"

definition validateAsymmetric ::
  "auth_system \<Rightarrow> instant \<Rightarrow> go_string \<Rightarrow> go_string \<Rightarrow> jwt_claims option" where
  "validateAsymmetric sys now token kid =
     (case find (\<lambda>(k, _). k = kid) (sy_public_keys sys) of
        None \<Rightarrow> None
      | Some (_, key) \<Rightarrow>
          (case sy_decode sys token of
             None \<Rightarrow> None
           | Some (_, claims) \<Rightarrow>
               if \<not> validateCommonClaims sys claims then None
               else if sy_verify sys token key now then Some claims else None))"

definition ValidateToken :: "auth_system \<Rightarrow> instant \<Rightarrow> go_string \<Rightarrow> jwt_claims option" where
  "ValidateToken sys now token =
     (case sy_decode sys token of
        None \<Rightarrow> None
      | Some (None, _) \<Rightarrow> None
      | Some (Some kid, _) \<Rightarrow> if kid = [] then None else validateAsymmetric sys now token kid)"

definition ParseToken :: "auth_system \<Rightarrow> go_string \<Rightarrow> jwt_claims option" where
  "ParseToken sys token = map_option snd (sy_decode sys token)"

definition hex_encode :: "go_string \<Rightarrow> go_string" where
  "hex_encode s = concat (map (\<lambda>c. let n = of_char c in [hex_digits ! (n div 16), hex_digits ! (n mod 16)]) s)"

definition generateRefreshToken :: "account_env \<Rightarrow> go_string option" where
  "generateRefreshToken env = map_option hex_encode (en_random env)"

definition hashRefreshToken :: "go_string \<Rightarrow> go_string" where
  "hashRefreshToken token = sha256_hex token"

section \<open>Issuing a session\<close>

record auth_result =
  ar_token :: go_string
  ar_refresh :: go_string
  ar_user :: uuid
  ar_username :: go_string
  ar_roles :: "go_string list"

definition record_event ::
  "auth_system \<Rightarrow> account_env \<Rightarrow> account_event \<Rightarrow> account_state \<Rightarrow> account_state" where
  "record_event sys env ev st =
     (if sy_has_audit sys \<and> \<not> en_fails env StEvent then st\<lparr>ac_events := ac_events st @ [ev]\<rparr> else st)"

definition put_event ::
  "uuid option \<Rightarrow> go_string \<Rightarrow> audit_outcome \<Rightarrow> account_state \<Rightarrow> account_state" where
  "put_event uid action outcome st =
     st\<lparr>ac_events := ac_events st @
       [\<lparr>ev_user = uid, ev_action = action, ev_outcome = outcome, ev_details = []\<rparr>]\<rparr>"

definition day7 :: int where "day7 = 7 * 24 * 60 * 60 * 1000000000"

definition new_session :: "account_env \<Rightarrow> uuid \<Rightarrow> go_string \<Rightarrow> session" where
  "new_session env uid refresh =
     \<lparr>se_id = en_id env, se_user = uid, se_hash = hashRefreshToken refresh, se_expires = en_now env + day7,
      se_last_used = en_now env, se_created = en_now env, se_revoked = False, se_revoked_at = None, se_reason = []\<rparr>"

definition createSessionAndToken ::
  "auth_system \<Rightarrow> account_env \<Rightarrow> user \<Rightarrow> go_string \<Rightarrow> account_state \<Rightarrow> (auth_error + go_string) \<times> account_state" where
  "createSessionAndToken sys env u refresh st =
     (case CreateSession (sy_fk sys) env (new_session env (us_id u) refresh) st of
        (Some e, st1) \<Rightarrow> (Inl (wrap_err ''authentication failed: '' (db_err e)), st1)
      | (None, st1) \<Rightarrow>
          (case GenerateToken sys (en_now env) (us_id u) (us_username u) (us_roles u) (en_id env) of
             None \<Rightarrow> (Inl (auth_err CauseOther ''authentication failed: token''), st1)
           | Some token \<Rightarrow> (Inr token, st1)))"

text \<open>A critical operation that answers a value: the token a closure sets is part of the state.\<close>

definition critical_value ::
  "auth_system \<Rightarrow> account_env \<Rightarrow> uuid option \<Rightarrow> go_string \<Rightarrow> (account_state \<Rightarrow> (auth_error + 'a) \<times> account_state)
     \<Rightarrow> account_state \<Rightarrow> (auth_error + 'a) \<times> account_state" where
  "critical_value sys env uid action op st =
     (if \<not> sy_has_audit sys then op st
      else
        case WithCritical (en_attempt_fails env) (en_result_fails env)
            (\<lambda>outcome (s, v). (put_event uid action outcome s, v))
            (\<lambda>(s, v). case op s of (Inl e, s') \<Rightarrow> (Some e, (s', v)) | (Inr x, s') \<Rightarrow> (None, (s', Some x)))
            (st, None) of
          (Some ErrAuditUnavailable, (st', _)) \<Rightarrow> (Inl (auth_err CauseAuditUnavailable ''audit unavailable''), st')
        | (Some (OpError e), (st', _)) \<Rightarrow> (Inl e, st')
        | (None, (st', Some v)) \<Rightarrow> (Inr v, st')
        | (None, (st', None)) \<Rightarrow> (Inl (auth_err CauseOther []), st'))"

definition issueSession ::
  "auth_system \<Rightarrow> account_env \<Rightarrow> user \<Rightarrow> go_string \<Rightarrow> account_state \<Rightarrow> (auth_error + auth_result) \<times> account_state" where
  "issueSession sys env u action st =
     (case generateRefreshToken env of
        None \<Rightarrow> (Inl (auth_err CauseOther ''authentication failed: random''), st)
      | Some refresh \<Rightarrow>
          (case critical_value sys env (Some (us_id u)) action (createSessionAndToken sys env u refresh) st of
             (Inl e, st') \<Rightarrow> (Inl e, st')
           | (Inr token, st') \<Rightarrow>
               (Inr \<lparr>ar_token = token, ar_refresh = refresh, ar_user = us_id u, ar_username = us_username u,
                  ar_roles = us_roles u\<rparr>, st')))"

definition IssueSessionForUser ::
  "auth_system \<Rightarrow> account_env \<Rightarrow> user \<Rightarrow> account_state \<Rightarrow> (auth_error + auth_result) \<times> account_state" where
  "IssueSessionForUser sys env u = issueSession sys env u ''issue_session_for_user''"

section \<open>Login\<close>

definition recordLoginFailure ::
  "auth_system \<Rightarrow> account_env \<Rightarrow> go_string \<Rightarrow> account_state \<Rightarrow> account_state" where
  "recordLoginFailure sys env username st =
     (if sy_has_throttle sys
      then st\<lparr>ac_failures :=
        RecordFailure (en_throttle_fails env) (sy_throttle_hash sys) (en_now env) username (ac_failures st)\<rparr>
      else st)"

definition login_event :: "uuid option \<Rightarrow> go_string \<Rightarrow> account_event" where
  "login_event uid details =
     \<lparr>ev_user = uid, ev_action = ''authenticate_user'', ev_outcome = OutcomeFailure, ev_details = details\<rparr>"

text \<open>A rejected attempt: its audit row, then its count.\<close>

definition reject_login ::
  "auth_system \<Rightarrow> account_env \<Rightarrow> go_string \<Rightarrow> uuid option \<Rightarrow> go_string \<Rightarrow> account_state \<Rightarrow> account_state" where
  "reject_login sys env username uid details st =
     recordLoginFailure sys env username (record_event sys env (login_event uid details) st)"

definition claimTOTPStep ::
  "auth_system \<Rightarrow> account_env \<Rightarrow> uuid \<Rightarrow> int \<Rightarrow> account_state \<Rightarrow> auth_error option \<times> account_state" where
  "claimTOTPStep sys env uid step st =
     (if \<not> sy_has_steps sys
      then (Some (auth_err CauseOther ''authentication failed: TOTP replay protection is not configured''), st)
      else case ClaimTOTPStep env uid step st of
        (Inl e, st1) \<Rightarrow>
          (Some (wrap_err ''authentication failed: '' (db_err e)),
           record_event sys env (login_event (Some uid) ''TOTP step claim error'') st1)
      | (Inr False, st1) \<Rightarrow>
          (Some (ClientError (auth_err CauseOther invalidTOTPCodeMessage)),
           record_event sys env (login_event (Some uid) ''replayed TOTP code'') st1)
      | (Inr True, st1) \<Rightarrow> (None, st1))"

definition throttle_check :: "auth_system \<Rightarrow> account_env \<Rightarrow> go_string \<Rightarrow> account_state \<Rightarrow> int option" where
  "throttle_check sys env username st =
     (if sy_has_throttle sys
      then Check (en_throttle_fails env) (sy_throttle_hash sys) (en_now env) username (ac_failures st) else None)"

text \<open>After both factors: claim the step, issue the session, clear the counter.\<close>

definition finish_login ::
  "auth_system \<Rightarrow> account_env \<Rightarrow> go_string \<Rightarrow> user \<Rightarrow> int \<Rightarrow> account_state
     \<Rightarrow> (auth_error + auth_result) \<times> account_state" where
  "finish_login sys env username u step st =
     (case claimTOTPStep sys env (us_id u) step st of
        (Some e, st1) \<Rightarrow> (Inl e, recordLoginFailure sys env username st1)
      | (None, st1) \<Rightarrow>
          (case issueSession sys env u ''authenticate_user'' st1 of
             (Inl e, st2) \<Rightarrow> (Inl (NonRetryable e), st2)
           | (Inr r, st2) \<Rightarrow>
               (Inr r, if sy_has_throttle sys
                  then st2\<lparr>ac_failures :=
                    Reset (en_throttle_fails env) (sy_throttle_hash sys) username (ac_failures st2)\<rparr>
                  else st2)))"

definition AuthenticateUser ::
  "auth_system \<Rightarrow> account_env \<Rightarrow> go_string \<Rightarrow> go_string \<Rightarrow> go_string \<Rightarrow> account_state
     \<Rightarrow> (auth_error + auth_result) \<times> account_state" where
  "AuthenticateUser sys env username password code st =
     (case throttle_check sys env username st of
        Some wait \<Rightarrow> (Inl (throttled_err wait), st)
      | None \<Rightarrow>
     (case ReadByUsername env username st of
        Inl e \<Rightarrow>
          (Inl (if e = RowMissing then ClientError invalid_credentials else invalid_credentials),
           reject_login sys env username None ''user not found'' st)
      | Inr u \<Rightarrow>
          if \<not> sy_check_password sys password (us_hash u) then
            (Inl (ClientError invalid_credentials),
             reject_login sys env username (Some (us_id u)) ''invalid password'' st)
          else if totpSecretIsEmpty (us_totp u) then
            (Inl (ClientError (auth_err CauseNotEnrolled invalidTOTPCodeMessage)),
             reject_login sys env username (Some (us_id u)) ''TOTP not enrolled'' st)
          else
            (case ValidateCodeWithStep (sy_hotp sys) code (us_totp u) (en_now env) of
               Inl _ \<Rightarrow>
                 (Inl (ClientError (auth_err CauseOther ''authentication failed: TOTP validation error'')),
                  reject_login sys env username (Some (us_id u)) ''TOTP validation error'' st)
             | Inr (step, valid) \<Rightarrow>
                 if \<not> valid then
                   (Inl (ClientError (auth_err CauseOther invalidTOTPCodeMessage)),
                    reject_login sys env username (Some (us_id u)) ''invalid TOTP code'' st)
                 else finish_login sys env username u step st)))"

section \<open>Using a session\<close>

definition check_client :: "account_env \<Rightarrow> uuid \<Rightarrow> account_state \<Rightarrow> auth_error option" where
  "check_client env cid st =
     (case client_get env cid st of
        Inl RowMissing \<Rightarrow> Some (ClientError (auth_err CauseOther ''service account not found or revoked''))
      | Inl _ \<Rightarrow> Some (auth_err CauseOther ''service account not found or revoked'')
      | Inr c \<Rightarrow>
          if \<not> oc_enabled c then Some (ClientError (auth_err CauseOther ''service account disabled''))
          else (case oc_expires c of
              Some t \<Rightarrow> if t < en_now env then Some (ClientError (auth_err CauseOther ''service account expired'')) else None
            | None \<Rightarrow> None))"

definition check_user_session :: "account_env \<Rightarrow> jwt_claims \<Rightarrow> uuid \<Rightarrow> account_state \<Rightarrow> auth_error option" where
  "check_user_session env claims sid st =
     (case IsSessionRevoked env sid st of
        Inl _ \<Rightarrow> Some (auth_err CauseOther ''invalid session: revocation check failed'')
      | Inr True \<Rightarrow> Some (ClientError (auth_err CauseOther ''session revoked''))
      | Inr False \<Rightarrow>
          (case Read env (jc_user claims) st of
             Inl RowMissing \<Rightarrow> Some (ClientError (auth_err CauseOther ''invalid session''))
           | Inl _ \<Rightarrow> Some (auth_err CauseOther ''invalid session'')
           | Inr _ \<Rightarrow> None))"

definition ValidateSession ::
  "auth_system \<Rightarrow> account_env \<Rightarrow> go_string \<Rightarrow> account_state \<Rightarrow> auth_error + jwt_claims" where
  "ValidateSession sys env token st =
     (case ValidateToken sys (en_now env) token of
        None \<Rightarrow> Inl (ClientError (auth_err CauseOther ''invalid session: invalid JWT token''))
      | Some claims \<Rightarrow>
          (case sy_parse_uuid sys (jc_id claims) of
             None \<Rightarrow> Inl (ClientError (auth_err CauseOther ''invalid session: malformed jti''))
           | Some sid \<Rightarrow>
               (case (if RoleServiceAccount \<in> set (jc_roles claims)
                      then (if \<not> sy_has_clients sys then Some (auth_err CauseOther ''invalid session'')
                            else check_client env sid st)
                      else check_user_session env claims sid st) of
                  Some e \<Rightarrow> Inl e
                | None \<Rightarrow> Inr claims)))"

definition mint_refresh ::
  "auth_system \<Rightarrow> account_env \<Rightarrow> user \<Rightarrow> session \<Rightarrow> account_state \<Rightarrow> (auth_error + go_string) \<times> account_state" where
  "mint_refresh sys env u s st =
     (case GenerateToken sys (en_now env) (us_id u) (us_username u) (us_roles u) (se_id s) of
        None \<Rightarrow> (Inl (auth_err CauseOther ''failed to generate access token''), st)
      | Some token \<Rightarrow> (Inr token, snd (UpdateSessionLastUsed env (se_id s) (en_now env) st)))"

text \<open>The answer is the new pair of tokens, and the time the caller is told the access token ends.\<close>

definition hour :: int where "hour = 60 * 60 * 1000000000"

definition RefreshAccessToken ::
  "auth_system \<Rightarrow> account_env \<Rightarrow> go_string \<Rightarrow> account_state
     \<Rightarrow> (auth_error + (auth_result \<times> instant)) \<times> account_state" where
  "RefreshAccessToken sys env refresh st =
     (case GetSessionByRefreshToken env (hashRefreshToken refresh) st of
        Inl RowMissing \<Rightarrow> (Inl (ClientError (auth_err CauseOther ''invalid refresh token'')), st)
      | Inl _ \<Rightarrow> (Inl (auth_err CauseOther ''invalid refresh token''), st)
      | Inr s \<Rightarrow>
          if se_revoked s then (Inl (ClientError (auth_err CauseOther ''session revoked'')), st)
          else if en_now env > se_expires s then (Inl (ClientError (auth_err CauseOther ''session expired'')), st)
          else
            (case Read env (se_user s) st of
               Inl RowMissing \<Rightarrow> (Inl (ClientError (auth_err CauseOther ''user not found'')), st)
             | Inl _ \<Rightarrow> (Inl (auth_err CauseOther ''user not found''), st)
             | Inr u \<Rightarrow>
                 (case critical_value sys env (Some (us_id u)) ''refresh_access_token'' (mint_refresh sys env u s) st of
                    (Inl e, st') \<Rightarrow> (Inl e, st')
                  | (Inr token, st') \<Rightarrow>
                      (Inr (\<lparr>ar_token = token, ar_refresh = refresh, ar_user = us_id u,
                         ar_username = us_username u, ar_roles = us_roles u\<rparr>, en_now env + hour), st'))))"

section \<open>Revoking\<close>

record revoke_request =
  rv_session :: go_string
  rv_caller :: uuid
  rv_roles :: "go_string list"
  rv_reason :: go_string

definition RevokeSession ::
  "auth_system \<Rightarrow> account_env \<Rightarrow> revoke_request \<Rightarrow> account_state \<Rightarrow> auth_error option \<times> account_state" where
  "RevokeSession sys env req st =
     (case sy_parse_uuid sys (rv_session req) of
        None \<Rightarrow> (Some (auth_err CauseOther ''invalid session ID format''), st)
      | Some sid \<Rightarrow>
          (case (if RoleAdmin \<in> set (rv_roles req) then session_revoke env sid (rv_reason req) st
                 else RevokeUserSession env sid (rv_caller req) (rv_reason req) st) of
             (None, st') \<Rightarrow> (None, st')
           | (Some RowMissing, st') \<Rightarrow> (Some (auth_err CauseSessionNotFound ''session not found''), st')
           | (Some e, st') \<Rightarrow> (Some (wrap_err ''failed to revoke session: '' (db_err e)), st')))"

definition RevokeAllUserSessions ::
  "account_env \<Rightarrow> uuid \<Rightarrow> go_string \<Rightarrow> account_state \<Rightarrow> auth_error option \<times> account_state" where
  "RevokeAllUserSessions env uid reason st =
     (case session_revoke_all env uid reason st of
        (None, st') \<Rightarrow> (None, st')
      | (Some e, st') \<Rightarrow> (Some (wrap_err ''failed to revoke all user sessions: '' (db_err e)), st'))"

definition ListActiveSessions :: "account_env \<Rightarrow> uuid \<Rightarrow> account_state \<Rightarrow> store_error + session list" where
  "ListActiveSessions env uid st = GetActiveSessionsByUserID env uid st"

section \<open>Lemmas\<close>

lemma record_event_only: "\<exists>ev. record_event sys env e st = st\<lparr>ac_events := ev\<rparr>"
  by (cases st) (auto simp: record_event_def)

lemma recordLoginFailure_only: "\<exists>f. recordLoginFailure sys env name st = st\<lparr>ac_failures := f\<rparr>"
  by (cases st) (auto simp: recordLoginFailure_def)

lemma reject_login_only: "\<exists>ev f. reject_login sys env name uid d st = st\<lparr>ac_events := ev, ac_failures := f\<rparr>"
proof -
  obtain ev where "record_event sys env (login_event uid d) st = st\<lparr>ac_events := ev\<rparr>"
    using record_event_only by blast
  then show ?thesis
    using recordLoginFailure_only [of sys env name "st\<lparr>ac_events := ev\<rparr>"] by (auto simp: reject_login_def)
qed

lemma unchanged_failures: "\<exists>f. st = st\<lparr>ac_failures := f\<rparr>"
  by (rule exI [of _ "ac_failures st"]) simp

text \<open>A critical operation is refused, or runs between changes of the audit rows.\<close>

lemma critical_value_cases:
  assumes "critical_value sys env uid action op st = (r, st')"
  shows "(st' = st \<and> (\<exists>e. r = Inl e))
    \<or> (\<exists>ev s2 ev'. op (st\<lparr>ac_events := ev\<rparr>) = (r, s2) \<and> st' = s2\<lparr>ac_events := ev'\<rparr>
        \<and> (sy_has_audit sys \<longrightarrow> ev = ac_events (put_event uid action OutcomeAttempt st) \<and> \<not> en_attempt_fails env))"
proof (cases "sy_has_audit sys")
  case False
  with assms have "op (st\<lparr>ac_events := ac_events st\<rparr>) = (r, st'\<lparr>ac_events := ac_events st'\<rparr>)"
    by (simp add: critical_value_def)
  with False show ?thesis
    by (metis account_state.surjective account_state.update_convs(9))
next
  case True
  note audit = this
  show ?thesis
  proof (cases "en_attempt_fails env")
    case True
    with audit assms show ?thesis
      by (auto simp: critical_value_def WithCritical_def RecordAttempt_def)
  next
    case False
    define ev where "ev = ac_events (put_event uid action OutcomeAttempt st)"
    have put: "put_event uid action OutcomeAttempt st = st\<lparr>ac_events := ev\<rparr>"
      by (simp add: ev_def put_event_def)
    obtain r2 s2 where op: "op (st\<lparr>ac_events := ev\<rparr>) = (r2, s2)"
      by fastforce
    have puts: "put_event uid action out s2 = s2\<lparr>ac_events := ac_events (put_event uid action out s2)\<rparr>" for out
      by (simp add: put_event_def)
    have same: "s2 = s2\<lparr>ac_events := ac_events s2\<rparr>"
      by simp
    have "r = r2 \<and> (st' = s2 \<or> st' = put_event uid action OutcomeSuccess s2 \<or> st' = put_event uid action OutcomeFailure s2)"
      using audit False assms op
      by (cases r2; cases "en_result_fails env")
        (auto simp: critical_value_def WithCritical_def RecordAttempt_def put)
    then have "r = r2 \<and> (\<exists>ev'. st' = s2\<lparr>ac_events := ev'\<rparr>)"
      using puts same by metis
    with op False show ?thesis
      unfolding ev_def by blast
  qed
qed

lemma CreateSession_None:
  "CreateSession fk env s st = (None, st') \<Longrightarrow>
     st' = st\<lparr>ac_sessions := ac_sessions st @ [s]\<rparr> \<and> se_id s \<notin> se_id ` set (ac_sessions st)"
  by (auto simp: CreateSession_def list_ex_iff split: if_splits)

lemma CreateSession_Some: "CreateSession fk env s st = (Some e, st') \<Longrightarrow> st' = st"
  by (auto simp: CreateSession_def split: if_splits)

lemma createSessionAndToken_cases:
  assumes "createSessionAndToken sys env u refresh st = (r, st')"
  shows "(st' = st \<and> (\<exists>e. r = Inl e))
    \<or> st' = st\<lparr>ac_sessions := ac_sessions st @ [new_session env (us_id u) refresh]\<rparr>
      \<and> en_id env \<notin> se_id ` set (ac_sessions st)
      \<and> (\<forall>t. r = Inr t \<longrightarrow>
          GenerateToken sys (en_now env) (us_id u) (us_username u) (us_roles u) (en_id env) = Some t)"
proof -
  obtain e st1 where c: "CreateSession (sy_fk sys) env (new_session env (us_id u) refresh) st = (e, st1)"
    by fastforce
  have sid: "se_id (new_session env (us_id u) refresh) = en_id env"
    by (simp add: new_session_def)
  show ?thesis
  proof (cases e)
    case None
    show ?thesis
    proof (cases "GenerateToken sys (en_now env) (us_id u) (us_username u) (us_roles u) (en_id env)")
      case None
      then have "st' = st1 \<and> (\<exists>x. r = Inl x)"
        using assms c \<open>e = None\<close> unfolding createSessionAndToken_def by force
      then show ?thesis
        using CreateSession_None [OF c [unfolded \<open>e = None\<close>]] sid by auto
    next
      case (Some t)
      then have "st' = st1 \<and> r = Inr t"
        using assms c \<open>e = None\<close> unfolding createSessionAndToken_def by simp
      then show ?thesis
        using CreateSession_None [OF c [unfolded \<open>e = None\<close>]] sid Some by auto
    qed
  next
    case (Some x)
    then have "st' = st1 \<and> (\<exists>x. r = Inl x)"
      using assms c unfolding createSessionAndToken_def by force
    then show ?thesis
      using CreateSession_Some [OF c [unfolded Some]] by simp
  qed
qed

text \<open>What issuing a session does: at most one session row, and with a result exactly one and its token.\<close>

definition issued_session ::
  "auth_system \<Rightarrow> account_env \<Rightarrow> user \<Rightarrow> account_state \<Rightarrow> auth_error + auth_result \<Rightarrow> account_state \<Rightarrow> bool" where
  "issued_session sys env u st r st' \<longleftrightarrow>
     (\<exists>ss ev. st' = st\<lparr>ac_sessions := ac_sessions st @ ss, ac_events := ev\<rparr>
       \<and> (ss = [] \<or> (\<exists>refresh. ss = [new_session env (us_id u) refresh]
            \<and> en_id env \<notin> se_id ` set (ac_sessions st) \<and> generateRefreshToken env = Some refresh
            \<and> (sy_has_audit sys \<longrightarrow> \<not> en_attempt_fails env)))
       \<and> (\<forall>a. r = Inr a \<longrightarrow> ss \<noteq> []
            \<and> GenerateToken sys (en_now env) (us_id u) (us_username u) (us_roles u) (en_id env) = Some (ar_token a)
            \<and> generateRefreshToken env = Some (ar_refresh a)
            \<and> ar_user a = us_id u \<and> ar_username a = us_username u \<and> ar_roles a = us_roles u))"

lemma issueSession_issued:
  assumes "issueSession sys env u action st = (r, st')"
  shows "issued_session sys env u st r st'"
proof (cases "generateRefreshToken env")
  case None
  with assms show ?thesis
    unfolding issued_session_def
    by (intro exI [of _ "[]"] exI [of _ "ac_events st"]) (auto simp: issueSession_def)
next
  case (Some refresh)
  obtain r1 where c: "critical_value sys env (Some (us_id u)) action (createSessionAndToken sys env u refresh) st = (r1, st')"
    and r: "r = (case r1 of Inl e \<Rightarrow> Inl e | Inr t \<Rightarrow> Inr \<lparr>ar_token = t, ar_refresh = refresh, ar_user = us_id u,
      ar_username = us_username u, ar_roles = us_roles u\<rparr>)"
    using assms Some by (auto simp: issueSession_def split: prod.splits sum.splits)
  from critical_value_cases [OF c] show ?thesis
  proof (elim disjE exE conjE)
    fix e
    assume "st' = st" "r1 = Inl e"
    then show ?thesis
      unfolding issued_session_def r by (intro exI [of _ "[]"] exI [of _ "ac_events st"]) simp
  next
    fix ev s2 ev'
    assume op: "createSessionAndToken sys env u refresh (st\<lparr>ac_events := ev\<rparr>) = (r1, s2)"
      and st': "st' = s2\<lparr>ac_events := ev'\<rparr>"
      and audit: "sy_has_audit sys \<longrightarrow> ev = ac_events (put_event (Some (us_id u)) action OutcomeAttempt st)
        \<and> \<not> en_attempt_fails env"
    from createSessionAndToken_cases [OF op] show ?thesis
    proof (elim disjE conjE exE)
      fix e
      assume "s2 = st\<lparr>ac_events := ev\<rparr>" "r1 = Inl e"
      then show ?thesis
        unfolding issued_session_def r st' by (intro exI [of _ "[]"] exI [of _ ev']) simp
    next
      assume "s2 = st\<lparr>ac_events := ev, ac_sessions := ac_sessions (st\<lparr>ac_events := ev\<rparr>) @ [new_session env (us_id u) refresh]\<rparr>"
        "en_id env \<notin> se_id ` set (ac_sessions (st\<lparr>ac_events := ev\<rparr>))"
        "\<forall>t. r1 = Inr t \<longrightarrow> GenerateToken sys (en_now env) (us_id u) (us_username u) (us_roles u) (en_id env) = Some t"
      then show ?thesis
        unfolding issued_session_def r st' Some
        using audit
        by (intro exI [of _ "[new_session env (us_id u) refresh]"] exI [of _ ev']) (auto split: sum.splits)
    qed
  qed
qed

text \<open>Both factors of a login, as the service checks them.\<close>

definition both_factors ::
  "auth_system \<Rightarrow> account_env \<Rightarrow> go_string \<Rightarrow> go_string \<Rightarrow> go_string \<Rightarrow> account_state \<Rightarrow> user \<Rightarrow> int \<Rightarrow> bool" where
  "both_factors sys env username password code st u step \<longleftrightarrow>
     throttle_check sys env username st = None
     \<and> ReadByUsername env username st = Inr u
     \<and> sy_check_password sys password (us_hash u)
     \<and> \<not> totpSecretIsEmpty (us_totp u)
     \<and> ValidateCodeWithStep (sy_hotp sys) code (us_totp u) (en_now env) = Inr (step, True)"

lemma AuthenticateUser_cases:
  assumes "AuthenticateUser sys env username password code st = (r, st')"
  shows "((\<exists>e. r = Inl e) \<and> (\<exists>ev f. st' = st\<lparr>ac_events := ev, ac_failures := f\<rparr>))
    \<or> (\<exists>u step. both_factors sys env username password code st u step
        \<and> finish_login sys env username u step st = (r, st'))"
proof -
  have rejected: "\<exists>ev f. reject_login sys env username uid d st = st\<lparr>ac_events := ev, ac_failures := f\<rparr>" for uid d
    by (rule reject_login_only)
  have same: "st = st\<lparr>ac_events := ac_events st, ac_failures := ac_failures st\<rparr>"
    by simp
  show ?thesis
  proof (cases "throttle_check sys env username st")
    case (Some wait)
    with assms have "r = Inl (throttled_err wait) \<and> st' = st"
      unfolding AuthenticateUser_def by simp
    with same show ?thesis
      by metis
  next
    case None
    note throttle = this
    show ?thesis
    proof (cases "ReadByUsername env username st")
      case (Inl e)
      with throttle assms have "(\<exists>e. r = Inl e) \<and> st' = reject_login sys env username None ''user not found'' st"
        unfolding AuthenticateUser_def by force
      with rejected show ?thesis
        by metis
    next
      case (Inr u)
      note factors = throttle Inr
      show ?thesis
      proof (cases "sy_check_password sys password (us_hash u) \<and> \<not> totpSecretIsEmpty (us_totp u)
          \<and> (\<exists>step. ValidateCodeWithStep (sy_hotp sys) code (us_totp u) (en_now env) = Inr (step, True))")
        case True
        with factors assms show ?thesis
          unfolding AuthenticateUser_def both_factors_def by auto
      next
        case False
        have "(\<exists>e. r = Inl e) \<and> (\<exists>d. st' = reject_login sys env username (Some (us_id u)) d st)"
          using factors assms False unfolding AuthenticateUser_def
          by (cases "ValidateCodeWithStep (sy_hotp sys) code (us_totp u) (en_now env)") (auto split: if_splits)
        with rejected show ?thesis
          by metis
      qed
    qed
  qed
qed

definition claim_rows :: "uuid \<Rightarrow> int \<Rightarrow> user_row list \<Rightarrow> user_row list" where
  "claim_rows uid step =
     map (\<lambda>r. if ur_id r = uid \<and> ur_last_step r < step then r\<lparr>ur_last_step := step\<rparr> else r)"

lemma ClaimTOTPStep_cases:
  assumes "ClaimTOTPStep env uid step st = (r, st')"
  shows "(st' = st \<and> r = Inl DbFault)
    \<or> st' = st\<lparr>ac_users := claim_rows uid step (ac_users st)\<rparr>
      \<and> (\<exists>b. r = Inr b \<and> (b \<longrightarrow> (\<exists>row\<in>set (ac_users st). ur_id row = uid \<and> ur_last_step row < step)))"
proof (cases "en_fails env StClaimStep")
  case False
  have "length (filter P xs) = 1 \<Longrightarrow> \<exists>x\<in>set xs. P x" for P and xs :: "user_row list"
    by (metis filter_False length_0_conv zero_neq_one)
  with assms False show ?thesis
    by (auto simp: ClaimTOTPStep_def claim_rows_def Let_def)
qed (use assms in \<open>simp add: ClaimTOTPStep_def\<close>)

text \<open>After both factors: the step is claimed first; a session comes only from a claimed step.\<close>

lemma finish_login_cases:
  assumes "finish_login sys env username u step st = (r, st')"
  shows "((\<exists>e. r = Inl e) \<and> (\<exists>us ev f. st' = st\<lparr>ac_users := us, ac_events := ev, ac_failures := f\<rparr>
        \<and> us \<in> {ac_users st, claim_rows (us_id u) step (ac_users st)}))
    \<or> (\<exists>r1 st2 f row. row \<in> set (ac_users st) \<and> ur_id row = us_id u \<and> ur_last_step row < step
        \<and> issueSession sys env u ''authenticate_user''
            (st\<lparr>ac_users := claim_rows (us_id u) step (ac_users st)\<rparr>) = (r1, st2)
        \<and> st' = st2\<lparr>ac_failures := f\<rparr> \<and> (\<forall>a. r = Inr a \<longleftrightarrow> r1 = Inr a))"
proof (cases "claimTOTPStep sys env (us_id u) step st")
  case (Pair e st1)
  note claim = this
  show ?thesis
  proof (cases e)
    case (Some x)
    have "\<exists>us ev. st1 = st\<lparr>ac_users := us, ac_events := ev\<rparr>
        \<and> (us = ac_users st \<or> us = claim_rows (us_id u) step (ac_users st))"
    proof (cases "sy_has_steps sys")
      case False
      with claim have "st1 = st\<lparr>ac_users := ac_users st, ac_events := ac_events st\<rparr>"
        unfolding claimTOTPStep_def by simp
      then show ?thesis
        by blast
    next
      case True
      obtain c st0 where c: "ClaimTOTPStep env (us_id u) step st = (c, st0)"
        by fastforce
      have "\<exists>d. st1 = record_event sys env (login_event (Some (us_id u)) d) st0"
        using True claim c Some unfolding claimTOTPStep_def by (cases c) (auto split: bool.splits)
      then obtain ev where st1: "st1 = st0\<lparr>ac_events := ev\<rparr>"
        using record_event_only by metis
      from ClaimTOTPStep_cases [OF c] consider "st0 = st\<lparr>ac_users := ac_users st\<rparr>"
        | "st0 = st\<lparr>ac_users := claim_rows (us_id u) step (ac_users st)\<rparr>"
        by auto
      then show ?thesis
        unfolding st1 by cases blast+
    qed
    then obtain us ev where st1: "st1 = st\<lparr>ac_users := us, ac_events := ev\<rparr>"
      and us: "us = ac_users st \<or> us = claim_rows (us_id u) step (ac_users st)"
      by blast
    obtain f where "recordLoginFailure sys env username st1 = st1\<lparr>ac_failures := f\<rparr>"
      using recordLoginFailure_only by blast
    with assms claim Some st1 us show ?thesis
      unfolding finish_login_def by auto
  next
    case None
    with claim have steps: "sy_has_steps sys"
      unfolding claimTOTPStep_def by (auto split: if_splits)
    obtain c st0 where c: "ClaimTOTPStep env (us_id u) step st = (c, st0)"
      by fastforce
    have "c = Inr True \<and> st1 = st0"
      using steps claim c None unfolding claimTOTPStep_def by (cases c) (auto split: bool.splits)
    with ClaimTOTPStep_cases [OF c] obtain row where row: "row \<in> set (ac_users st)" "ur_id row = us_id u"
        "ur_last_step row < step" and st1: "st1 = st\<lparr>ac_users := claim_rows (us_id u) step (ac_users st)\<rparr>"
      by auto
    obtain r1 st2 where i: "issueSession sys env u ''authenticate_user'' st1 = (r1, st2)"
      by fastforce
    have "(\<exists>f. st' = st2\<lparr>ac_failures := f\<rparr>) \<and> (\<forall>a. r = Inr a \<longleftrightarrow> r1 = Inr a)"
    proof (cases r1)
      case (Inl x)
      with assms claim None i have "r = Inl (NonRetryable x) \<and> st' = st2"
        unfolding finish_login_def by simp
      with Inl unchanged_failures show ?thesis
        by auto
    next
      case (Inr a)
      with assms claim None i
      have "r = Inr a \<and> (st' = st2
          \<or> st' = st2\<lparr>ac_failures := Reset (en_throttle_fails env) (sy_throttle_hash sys) username (ac_failures st2)\<rparr>)"
        unfolding finish_login_def by (auto split: if_splits)
      with Inr unchanged_failures show ?thesis
        by auto
    qed
    with row i st1 show ?thesis
      by blast
  qed
qed

section \<open>Properties\<close>

text \<open>C37: no session without both factors.  A login that answers with tokens passed the throttle, gave the
  password of the account and a code of its enrolled secret for a step at most two away from the present
  one and newer than every step accepted before; the step is now the last one accepted, one session was
  created, and the attempt is in the audit trail where there is one.\<close>

theorem login_needs_both_factors:
  assumes "AuthenticateUser sys env username password code st = (Inr a, st')"
  shows "\<exists>u row step.
    throttle_check sys env username st = None \<and> ReadByUsername env username st = Inr u
    \<and> sy_check_password sys password (us_hash u) \<and> \<not> totpSecretIsEmpty (us_totp u)
    \<and> sy_hotp sys (us_totp u) (nat step) = Some (TrimSpace code) \<and> 0 \<le> step
    \<and> \<bar>step - current_step (en_now env)\<bar> \<le> totp_skew
    \<and> row \<in> set (ac_users st) \<and> ur_id row = us_id u \<and> ur_last_step row < step
    \<and> ac_users st' = claim_rows (us_id u) step (ac_users st)
    \<and> ac_sessions st' = ac_sessions st @ [new_session env (us_id u) (ar_refresh a)]
    \<and> (sy_has_audit sys \<longrightarrow> \<not> en_attempt_fails env)"
proof -
  from AuthenticateUser_cases [OF assms] obtain u step
    where b: "both_factors sys env username password code st u step"
      and f: "finish_login sys env username u step st = (Inr a, st')"
    by blast
  from finish_login_cases [OF f] obtain st2 fl row
    where row: "row \<in> set (ac_users st)" "ur_id row = us_id u" "ur_last_step row < step"
      and i: "issueSession sys env u ''authenticate_user''
            (st\<lparr>ac_users := claim_rows (us_id u) step (ac_users st)\<rparr>) = (Inr a, st2)"
      and st': "st' = st2\<lparr>ac_failures := fl\<rparr>"
    by (metis sum.distinct(1))
  from issueSession_issued [OF i] have "ac_users st' = claim_rows (us_id u) step (ac_users st)
      \<and> ac_sessions st' = ac_sessions st @ [new_session env (us_id u) (ar_refresh a)]
      \<and> (sy_has_audit sys \<longrightarrow> \<not> en_attempt_fails env)"
    unfolding issued_session_def st' by auto
  moreover from b have "ValidateCodeWithStep (sy_hotp sys) code (us_totp u) (en_now env) = Inr (step, True)"
    by (simp add: both_factors_def)
  note ValidateCodeWithStep_valid [OF this]
  ultimately show ?thesis
    using b row unfolding both_factors_def by metis
qed

text \<open>A concrete system, whose tokens are their claims in an escaped form and are never forged.\<close>

fun escape :: "go_string \<Rightarrow> go_string" where
  "escape [] = ''.''"
| "escape (c # s) = CHR ''c'' # c # escape s"

fun unescape :: "go_string \<Rightarrow> go_string \<times> go_string" where
  "unescape (x # c # s) = (if x = CHR ''c'' then (case unescape s of (a, r) \<Rightarrow> (c # a, r)) else ([], c # s))"
| "unescape [x] = ([], [])"
| "unescape [] = ([], [])"

fun escape_list :: "go_string list \<Rightarrow> go_string" where
  "escape_list [] = ''.''"
| "escape_list (s # ss) = CHR ''e'' # escape s @ escape_list ss"

fun unescape_list :: "nat \<Rightarrow> go_string \<Rightarrow> go_string list \<times> go_string" where
  "unescape_list (Suc n) (x # s) =
     (if x = CHR ''e'' then (case unescape s of (a, r) \<Rightarrow> case unescape_list n r of (l, r') \<Rightarrow> (a # l, r')) else ([], s))"
| "unescape_list n s = ([], s)"

lemma unescape_escape [simp]: "unescape (escape s @ r) = (s, r)"
proof (induction s)
  case Nil
  then show ?case
    by (cases r) auto
qed simp

lemma escape_length: "length (escape s) = Suc (2 * length s)"
  by (induction s) auto

lemma unescape_list_escape: "length ss < n \<Longrightarrow> unescape_list n (escape_list ss @ r) = (ss, r)"
proof (induction ss arbitrary: n)
  case (Cons s ss)
  then show ?case
    by (cases n) auto
next
  case Nil
  then show ?case
    by (cases n) auto
qed

lemma escape_list_length: "length ss < length (escape_list ss @ r)"
  by (induction ss) auto

definition encode_claims :: "go_string \<Rightarrow> jwt_claims \<Rightarrow> go_string" where
  "encode_claims kid c = escape kid @ escape (replicate (unat (jc_user c)) CHR ''x'') @ escape (jc_username c)
     @ escape (jc_id c) @ escape (jc_issuer c) @ escape (jc_subject c)
     @ escape_list (jc_roles c) @ escape_list (jc_audience c)"

definition decode_claims :: "go_string \<Rightarrow> (go_string option \<times> jwt_claims) option" where
  "decode_claims t =
     (case unescape t of (kid, t1) \<Rightarrow> case unescape t1 of (u, t2) \<Rightarrow> case unescape t2 of (n, t3) \<Rightarrow>
      case unescape t3 of (i, t4) \<Rightarrow> case unescape t4 of (iss, t5) \<Rightarrow> case unescape t5 of (sub, t6) \<Rightarrow>
      case unescape_list (length t6) t6 of (rs, t7) \<Rightarrow> case unescape_list (length t7) t7 of (aud, _) \<Rightarrow>
        Some (Some kid, \<lparr>jc_user = of_nat (length u), jc_username = n, jc_roles = rs, jc_id = i, jc_issuer = iss,
          jc_subject = sub, jc_audience = aud\<rparr>))"

lemma decode_encode: "decode_claims (encode_claims kid c) = Some (Some kid, c)"
proof -
  have lists: "unescape_list (length (escape_list ss @ r)) (escape_list ss @ r) = (ss, r)" for ss r
    by (intro unescape_list_escape escape_list_length)
  from lists [of _ "[]"] lists [of _ "escape_list _"] show ?thesis
    by (simp add: decode_claims_def encode_claims_def)
qed

definition example_system :: auth_system where
  "example_system =
     \<lparr>sy_fk = False, sy_has_audit = True, sy_has_throttle = True, sy_has_steps = True, sy_has_clients = True,
      sy_has_revoker = True, sy_throttle_hash = id, sy_check_password = (=), sy_hash_password = Some,
      sy_hotp = (\<lambda>_ n. Some (replicate 6 (char_of (48 + n mod 10)))),
      sy_show_uuid = (\<lambda>u. replicate (unat u) CHR ''x''), sy_parse_uuid = (\<lambda>s. Some (of_nat (length s))),
      sy_issuer = ''rv'', sy_audience = ''PM'', sy_expiry = hour, sy_algorithm = ''ES256'', sy_key_id = ''k1'',
      sy_public_keys = [(''k1'', ''pub'')],
      sy_sign = (\<lambda>alg kid t0 t1 c. Some (encode_claims kid c)), sy_decode = decode_claims,
      sy_verify = (\<lambda>t k now. True)\<rparr>"

definition example_alice :: user_row where
  "example_alice = \<lparr>ur_id = 7, ur_username = ''alice'', ur_hash = ''pw'', ur_totp = ''AAAA'', ur_legacy_role = ''user'',
     ur_provider = ''local'', ur_subject = None, ur_email = None, ur_last_step = 0, ur_created = 0\<rparr>"

definition example_accounts :: account_state where
  "example_accounts = \<lparr>ac_users = [example_alice], ac_roles = [(7, ''user'')], ac_sessions = [], ac_clients = [],
     ac_failures = (\<lambda>_. None), ac_assignments = [], ac_policies = [], ac_grants = [], ac_events = [], ac_bootstrap = []\<rparr>"

definition example_call :: "uuid \<Rightarrow> instant \<Rightarrow> account_env" where
  "example_call i now = \<lparr>en_fails = (\<lambda>_. False), en_throttle_fails = (\<lambda>_. False), en_attempt_fails = False,
     en_result_fails = False, en_now = now, en_id = i, en_random = Some [], en_totp_key = Some (''BBBB'', ''url'')\<rparr>"

lemma AuthenticateUser_both:
  "both_factors sys env username password code st u step
    \<Longrightarrow> AuthenticateUser sys env username password code st = finish_login sys env username u step st"
  unfolding both_factors_def AuthenticateUser_def by simp

lemma example_login:
  "\<exists>a st'. AuthenticateUser example_system (example_call 9 60000000000) ''alice'' ''pw'' ''222222'' example_accounts = (Inr a, st')
     \<and> ar_token a = encode_claims ''k1'' (token_claims example_system 7 ''alice'' [''user''] 9)
     \<and> ac_users st' = [example_alice\<lparr>ur_last_step := 2\<rparr>] \<and> ac_roles st' = [(7, ''user'')]
     \<and> ac_sessions st' = [new_session (example_call 9 60000000000) 7 []]"
proof -
  have code: "TrimSpace ''222222'' = ''222222''"
    by code_simp
  have secret: "\<not> totpSecretIsEmpty ''AAAA''"
    by code_simp
  have valid: "ValidateCodeWithStep (sy_hotp example_system) ''222222'' ''AAAA'' 60000000000 = Inr (2, True)"
  proof -
    have w: "window 60000000000 = [0, 1, 2, 3, 4]"
      by code_simp
    have m: "match_steps (sy_hotp example_system ''AAAA'') ''222222'' [0, 1, 2, 3, 4] (0, False) = Some (2, True)"
      unfolding example_system_def auth_system.simps by code_simp
    show ?thesis
      unfolding ValidateCodeWithStep_def Let_def code w m using secret by (simp add: totp_digits_def)
  qed
  have roles: "fetchUserRoles 7 [(7, ''user'')] = [''user'']"
    by (simp add: fetchUserRoles_def)
  have check: "throttle_check example_system (example_call 9 60000000000) ''alice'' example_accounts = None"
    by (simp add: throttle_check_def Check_def lf_get_def example_accounts_def)
  have read: "ReadByUsername (example_call 9 60000000000) ''alice'' example_accounts = Inr (scan_user example_accounts example_alice)"
    by (simp add: ReadByUsername_def read_user_def example_call_def example_accounts_def example_alice_def)
  have u: "scan_user example_accounts example_alice = \<lparr>us_id = 7, us_username = ''alice'', us_hash = ''pw'',
      us_totp = ''AAAA'', us_roles = [''user''], us_provider = ''local'', us_subject = [], us_email = [], us_created = 0\<rparr>"
    by (simp add: scan_user_def example_alice_def example_accounts_def roles)
  have "AuthenticateUser example_system (example_call 9 60000000000) ''alice'' ''pw'' ''222222'' example_accounts
      = finish_login example_system (example_call 9 60000000000) ''alice'' (scan_user example_accounts example_alice) 2 example_accounts"
  proof (rule AuthenticateUser_both)
    have "sy_check_password example_system ''pw'' ''pw''" "en_now (example_call 9 60000000000) = 60000000000"
      by (simp_all add: example_system_def example_call_def)
    then show "both_factors example_system (example_call 9 60000000000) ''alice'' ''pw'' ''222222'' example_accounts
        (scan_user example_accounts example_alice) 2"
      unfolding both_factors_def using check read secret valid by (simp add: u)
  qed
  moreover have "\<exists>a st'. finish_login example_system (example_call 9 60000000000) ''alice''
      (scan_user example_accounts example_alice) 2 example_accounts = (Inr a, st')
     \<and> ar_token a = encode_claims ''k1'' (token_claims example_system 7 ''alice'' [''user''] 9)
     \<and> ac_users st' = [example_alice\<lparr>ur_last_step := 2\<rparr>] \<and> ac_roles st' = [(7, ''user'')]
     \<and> ac_sessions st' = [new_session (example_call 9 60000000000) 7 []]"
    unfolding u
    by (simp add: finish_login_def claimTOTPStep_def ClaimTOTPStep_def issueSession_def critical_value_def
        WithCritical_def RecordAttempt_def createSessionAndToken_def CreateSession_def GenerateToken_def
        generateRefreshToken_def hex_encode_def put_event_def signing_methods_def
        example_system_def example_call_def example_accounts_def example_alice_def token_claims_def)
  ultimately show ?thesis
    by simp
qed

lemma login_needs_both_factors_witness:
  "\<exists>row step. row \<in> set (ac_users example_accounts) \<and> ur_last_step row < step
     \<and> sy_hotp example_system ''AAAA'' (nat step) = Some (TrimSpace ''222222'')"
proof -
  from example_login obtain a st' where
    "AuthenticateUser example_system (example_call 9 60000000000) ''alice'' ''pw'' ''222222'' example_accounts = (Inr a, st')"
    by blast
  from login_needs_both_factors [OF this] show ?thesis
    by (auto simp: ReadByUsername_def read_user_def scan_user_def example_call_def example_accounts_def example_alice_def
        split: if_splits)
qed

text \<open>C39: a failed first factor tells nothing.  With the counters the same, an attempt for an account that
  does not exist and an attempt with a wrong password get the same answer and leave the same counters.\<close>

theorem unknown_user_like_wrong_password:
  assumes "ac_failures st1 = ac_failures st2"
    and "ReadByUsername env username st1 = Inl RowMissing"
    and "ReadByUsername env username st2 = Inr u" and "\<not> sy_check_password sys password (us_hash u)"
  shows "fst (AuthenticateUser sys env username password code st1)
       = fst (AuthenticateUser sys env username password code st2)
    \<and> ac_failures (snd (AuthenticateUser sys env username password code st1))
       = ac_failures (snd (AuthenticateUser sys env username password code st2))"
proof -
  have counters: "ac_failures (reject_login sys env username uid d st)
      = (if sy_has_throttle sys then RecordFailure (en_throttle_fails env) (sy_throttle_hash sys) (en_now env) username
          (ac_failures st) else ac_failures st)" for uid d st
    by (simp add: reject_login_def recordLoginFailure_def record_event_def)
  have "throttle_check sys env username st1 = throttle_check sys env username st2"
    using assms(1) by (simp add: throttle_check_def)
  with assms counters show ?thesis
    unfolding AuthenticateUser_def by (cases "throttle_check sys env username st2") simp_all
qed

lemma unknown_user_like_wrong_password_witness:
  "fst (AuthenticateUser example_system (example_call 9 0) ''alice'' ''no'' ''1'' (example_accounts\<lparr>ac_users := []\<rparr>))
   = fst (AuthenticateUser example_system (example_call 9 0) ''alice'' ''no'' ''1'' example_accounts)"
  using unknown_user_like_wrong_password [of "example_accounts\<lparr>ac_users := []\<rparr>" example_accounts "example_call 9 0"
      "''alice''" "scan_user example_accounts example_alice" example_system "''no''" "''1''"]
  by (simp add: ReadByUsername_def read_user_def example_call_def example_accounts_def example_alice_def
      example_system_def scan_user_def)

text \<open>A failed second factor tells nothing.  With the right password, an account without a second factor,
  a wrong code and a code already used get the same message, class and count.\<close>

theorem second_factor_failures_alike:
  assumes "throttle_check sys env username st = None" and "ReadByUsername env username st = Inr u"
    and "sy_check_password sys password (us_hash u)" and "sy_has_steps sys" and "\<not> en_fails env StClaimStep"
    and "totpSecretIsEmpty (us_totp u)
      \<or> (\<exists>step. ValidateCodeWithStep (sy_hotp sys) code (us_totp u) (en_now env) = Inr (step, False))
      \<or> (\<exists>step. ValidateCodeWithStep (sy_hotp sys) code (us_totp u) (en_now env) = Inr (step, True)
          \<and> (\<forall>row\<in>set (ac_users st). ur_id row = us_id u \<longrightarrow> step \<le> ur_last_step row))"
  shows "\<exists>e. fst (AuthenticateUser sys env username password code st) = Inl e
    \<and> err_text e = invalidTOTPCodeMessage \<and> err_retryable e = Some False \<and> err_client_fault e
    \<and> ac_failures (snd (AuthenticateUser sys env username password code st))
        = ac_failures (recordLoginFailure sys env username st)"
proof -
  have counters: "ac_failures (reject_login sys env username uid d st) = ac_failures (recordLoginFailure sys env username st)"
    for uid d
    by (simp add: reject_login_def recordLoginFailure_def record_event_def)
  consider "totpSecretIsEmpty (us_totp u)"
    | step where "\<not> totpSecretIsEmpty (us_totp u)"
      "ValidateCodeWithStep (sy_hotp sys) code (us_totp u) (en_now env) = Inr (step, False)"
    | step where "\<not> totpSecretIsEmpty (us_totp u)"
      "ValidateCodeWithStep (sy_hotp sys) code (us_totp u) (en_now env) = Inr (step, True)"
      "\<forall>row\<in>set (ac_users st). ur_id row = us_id u \<longrightarrow> step \<le> ur_last_step row"
    using assms(6) by blast
  then show ?thesis
  proof cases
    case 1
    with assms counters show ?thesis
      unfolding AuthenticateUser_def by (simp add: ClientError_def auth_err_def)
  next
    case 2
    with assms counters show ?thesis
      unfolding AuthenticateUser_def by (simp add: ClientError_def auth_err_def)
  next
    case 3
    then have none: "filter (\<lambda>r. ur_id r = us_id u \<and> ur_last_step r < step) (ac_users st) = []"
      by (auto simp: filter_empty_conv)
    then have same: "map (\<lambda>r. if ur_id r = us_id u \<and> ur_last_step r < step then r\<lparr>ur_last_step := step\<rparr> else r) (ac_users st)
        = ac_users st"
      by (intro map_idI) (auto simp: filter_empty_conv)
    have claim: "claimTOTPStep sys env (us_id u) step st
        = (Some (ClientError (auth_err CauseOther invalidTOTPCodeMessage)),
           record_event sys env (login_event (Some (us_id u)) ''replayed TOTP code'') st)"
      using assms(4,5) none same unfolding claimTOTPStep_def ClaimTOTPStep_def by (simp add: Let_def)
    with assms 3 show ?thesis
      unfolding AuthenticateUser_def finish_login_def
      by (simp add: ClientError_def auth_err_def recordLoginFailure_def record_event_def)
  qed
qed

lemma second_factor_failures_alike_witness:
  "\<exists>e. fst (AuthenticateUser example_system (example_call 9 0) ''alice'' ''pw'' ''222222''
      (example_accounts\<lparr>ac_users := [example_alice\<lparr>ur_totp := []\<rparr>]\<rparr>)) = Inl e \<and> err_text e = invalidTOTPCodeMessage"
  using second_factor_failures_alike [of example_system "example_call 9 0" "''alice''"
      "example_accounts\<lparr>ac_users := [example_alice\<lparr>ur_totp := []\<rparr>]\<rparr>"
      "scan_user example_accounts (example_alice\<lparr>ur_totp := []\<rparr>)" "''pw''" "''222222''"]
  by (auto simp: ReadByUsername_def read_user_def example_call_def example_accounts_def example_alice_def
      example_system_def scan_user_def throttle_check_def Check_def lf_get_def)

end
