(* ===== verification/Users.thy ===== *)
theory Users
  imports Auth
begin

text \<open>
  The user service (\<open>src/internal/services/users/user_service.go\<close>), the policy for external users
  (\<open>external_user_policy.go\<close>), service accounts (\<open>src/internal/services/oauth2/oauth2_service.go\<close>) and the
  callback that signs an external user in (\<open>src/api/oidc.go\<close>).

  Claim names and domains are ASCII: on it \<open>EqualFold\<close> and \<open>ToLower\<close> are the ones below.
  Required claims are the entries of a Go map, whose order does not matter to the answer.
\<close>

section \<open>The policy for external users\<close>

datatype claim_value = ClaimString go_string | ClaimStrings "go_string list" | ClaimList "claim_value list" | ClaimOther

datatype deny_reason = ReasonJITDisabled | ReasonDomain | ReasonEmailUnverified | ReasonClaim

record external_policy =
  xp_jit :: bool
  xp_domains :: "go_string list"
  xp_verified :: bool
  xp_claims :: "(go_string \<times> go_string) list"
  xp_role :: go_string
  xp_enforce :: bool

record external_identity =
  xi_email :: go_string
  xi_verified :: bool
  xi_claims :: "(go_string \<times> claim_value) list"

definition equal_fold :: "go_string \<Rightarrow> go_string \<Rightarrow> bool" where
  "equal_fold a b \<longleftrightarrow> to_lower a = to_lower b"

definition valid_domain :: "go_string \<Rightarrow> bool" where
  "valid_domain d \<longleftrightarrow> d \<noteq> [] \<and> list_all (\<lambda>c. c \<notin> set ''@*:/'') d
     \<and> list_all (\<lambda>p. \<not> contains_str d p) space_seqs"

definition NewExternalUserPolicy :: "external_policy \<Rightarrow> external_policy option" where
  "NewExternalUserPolicy cfg =
     (let domains = map (\<lambda>d. to_lower (TrimSpace d)) (xp_domains cfg);
          role = (if xp_role cfg = [] then RoleUser else xp_role cfg) in
      if \<not> list_all valid_domain domains then None
      else if list_ex (\<lambda>(k, _). TrimSpace k = []) (xp_claims cfg) then None
      else if role \<noteq> RoleUser then None
      else Some (cfg\<lparr>xp_domains := domains, xp_role := role\<rparr>))"

text \<open>A nil policy is \<open>None\<close>.\<close>

definition DefaultRole :: "external_policy option \<Rightarrow> go_string" where
  "DefaultRole p = (case p of None \<Rightarrow> RoleUser | Some cfg \<Rightarrow> xp_role cfg)"

definition domainAllowed :: "external_policy \<Rightarrow> go_string \<Rightarrow> bool" where
  "domainAllowed p email =
     (case split_on CHR ''@'' (to_lower (TrimSpace email)) of
        [local_part, domain] \<Rightarrow> local_part \<noteq> [] \<and> list_ex (\<lambda>d. domain = d) (xp_domains p)
      | _ \<Rightarrow> False)"

fun claimValueMatches :: "claim_value \<Rightarrow> go_string \<Rightarrow> bool" where
  "claimValueMatches (ClaimString s) want = (s = want)"
| "claimValueMatches (ClaimStrings ss) want = list_ex (\<lambda>s. s = want) ss"
| "claimValueMatches (ClaimList vs) want = list_ex (\<lambda>v. v = ClaimString want) vs"
| "claimValueMatches ClaimOther want = False"

fun claim_scan :: "bool \<Rightarrow> (go_string \<times> claim_value) list \<Rightarrow> go_string \<Rightarrow> go_string \<Rightarrow> bool" where
  "claim_scan found [] name want = found"
| "claim_scan found ((k, v) # claims) name want =
     (if \<not> equal_fold k name then claim_scan found claims name want
      else if \<not> claimValueMatches v want then False
      else claim_scan True claims name want)"

definition claimMatches :: "(go_string \<times> claim_value) list \<Rightarrow> go_string \<Rightarrow> go_string \<Rightarrow> bool" where
  "claimMatches claims name want = claim_scan False claims name want"

definition Evaluate :: "external_policy option \<Rightarrow> external_identity \<Rightarrow> bool \<Rightarrow> deny_reason option" where
  "Evaluate policy i is_new =
     (case policy of
        None \<Rightarrow> if is_new then Some ReasonJITDisabled else None
      | Some p \<Rightarrow>
          if is_new \<and> \<not> xp_jit p then Some ReasonJITDisabled
          else if \<not> is_new \<and> \<not> xp_enforce p then None
          else if xp_domains p \<noteq> [] \<and> \<not> domainAllowed p (xi_email i) then Some ReasonDomain
          else if (xp_verified p \<or> xp_domains p \<noteq> []) \<and> \<not> xi_verified i then Some ReasonEmailUnverified
          else if \<not> list_all (\<lambda>(name, want). claimMatches (xi_claims i) name want) (xp_claims p)
            then Some ReasonClaim else None)"

section \<open>The user service\<close>

datatype user_error =
    ErrForbidden | ErrBadRole | ErrHashing | ErrTotpKey | ErrCreateUser store_error | ErrUserMissing store_error
  | ErrUpdate store_error | ErrReserved | ErrRevokerMissing | ErrRevoke store_error | ErrDelete store_error
  | ErrNotAllowed deny_reason | ErrLookup store_error

text \<open>The roles of a request: trimmed, without repetition, each of them known, at least one.\<close>

fun collect_roles :: "go_string list \<Rightarrow> go_string list \<Rightarrow> go_string list option" where
  "collect_roles seen [] = Some []"
| "collect_roles seen (r0 # rs) =
     (let r = TrimSpace r0 in
      if r = [] \<or> r \<in> set seen then collect_roles seen rs
      else if \<not> IsValidUserRole r then None
      else map_option (\<lambda>roles. r # roles) (collect_roles (r # seen) rs))"

definition requested_roles :: "go_string list \<Rightarrow> go_string list option" where
  "requested_roles rs = (case collect_roles [] rs of Some [] \<Rightarrow> None | x \<Rightarrow> x)"

definition guardSystemUser :: "uuid \<Rightarrow> bool" where
  "guardSystemUser uid \<longleftrightarrow> uid = SystemUserID"

definition sameRoles :: "go_string list \<Rightarrow> go_string list \<Rightarrow> bool" where
  "sameRoles a b \<longleftrightarrow> length a = length b \<and> list_all (\<lambda>r. r \<in> set a) b"

definition revokeSessions ::
  "auth_system \<Rightarrow> account_env \<Rightarrow> uuid \<Rightarrow> go_string \<Rightarrow> account_state \<Rightarrow> user_error option \<times> account_state" where
  "revokeSessions sys env uid reason st =
     (if \<not> sy_has_revoker sys then (Some ErrRevokerMissing, st)
      else case session_revoke_all env uid reason st of
        (Some e, st') \<Rightarrow> (Some (ErrRevoke e), st')
      | (None, st') \<Rightarrow> (None, st'))"

record create_user_request =
  cu_username :: go_string
  cu_password :: go_string
  cu_roles :: "go_string list"
  cu_caller_roles :: "go_string list"

definition CreateUser ::
  "auth_system \<Rightarrow> account_env \<Rightarrow> create_user_request \<Rightarrow> account_state \<Rightarrow> (user_error + user) \<times> account_state" where
  "CreateUser sys env req st =
     (if \<not> HasAnyRole (cu_caller_roles req) [RoleAdmin] then (Inl ErrForbidden, st)
      else case requested_roles (cu_roles req) of
        None \<Rightarrow> (Inl ErrBadRole, st)
      | Some roles \<Rightarrow>
          (case sy_hash_password sys (cu_password req) of
             None \<Rightarrow> (Inl ErrHashing, st)
           | Some hash \<Rightarrow>
               (case en_totp_key env of
                  None \<Rightarrow> (Inl ErrTotpKey, st)
                | Some (secret, _) \<Rightarrow>
                    (let u = \<lparr>us_id = en_id env, us_username = cu_username req, us_hash = hash, us_totp = secret,
                         us_roles = roles, us_provider = [], us_subject = [], us_email = [],
                         us_created = en_now env\<rparr> in
                     case user_create env u st of
                       (Some e, st') \<Rightarrow> (Inl (ErrCreateUser e), st')
                     | (None, st') \<Rightarrow> (Inr u, st')))))"

record update_user_request =
  uu_id :: uuid
  uu_caller_roles :: "go_string list"
  uu_username :: "go_string option"
  uu_password :: "go_string option"
  uu_roles :: "go_string list option"

definition new_roles :: "update_user_request \<Rightarrow> user_error + go_string list option" where
  "new_roles req =
     (case uu_roles req of
        None \<Rightarrow> Inr None
      | Some rs \<Rightarrow>
          if \<not> HasAnyRole (uu_caller_roles req) [RoleAdmin] then Inl ErrForbidden
          else (case requested_roles rs of None \<Rightarrow> Inl ErrBadRole | Some roles \<Rightarrow> Inr (Some roles)))"

definition set_password ::
  "auth_system \<Rightarrow> account_env \<Rightarrow> go_string option \<Rightarrow> user \<Rightarrow> user_error + (user \<times> go_string)" where
  "set_password sys env password u =
     (case password of
        None \<Rightarrow> Inr (u, [])
      | Some pw \<Rightarrow>
          (case sy_hash_password sys pw of
             None \<Rightarrow> Inl ErrHashing
           | Some hash \<Rightarrow>
               if us_totp u = [] then
                 (case en_totp_key env of
                    None \<Rightarrow> Inl ErrTotpKey
                  | Some (secret, url) \<Rightarrow> Inr (u\<lparr>us_hash := hash, us_totp := secret\<rparr>, url))
               else Inr (u\<lparr>us_hash := hash\<rparr>, [])))"

definition UpdateUser ::
  "auth_system \<Rightarrow> account_env \<Rightarrow> update_user_request \<Rightarrow> account_state \<Rightarrow> (user_error + go_string) \<times> account_state" where
  "UpdateUser sys env req st =
     (if guardSystemUser (uu_id req) then (Inl ErrReserved, st)
      else case new_roles req of
        Inl e \<Rightarrow> (Inl e, st)
      | Inr roles \<Rightarrow>
     (case Read env (uu_id req) st of
        Inl e \<Rightarrow> (Inl (ErrUserMissing e), st)
      | Inr existing \<Rightarrow>
     (case set_password sys env (uu_password req)
          (existing\<lparr>us_username := (case uu_username req of None \<Rightarrow> us_username existing | Some n \<Rightarrow> n)\<rparr>) of
        Inl e \<Rightarrow> (Inl e, st)
      | Inr (u1, url) \<Rightarrow>
          let u2 = (case roles of None \<Rightarrow> u1 | Some rs \<Rightarrow> u1\<lparr>us_roles := rs\<rparr>);
              revoke = (uu_password req \<noteq> None
                \<or> (case roles of None \<Rightarrow> False | Some rs \<Rightarrow> \<not> sameRoles (us_roles existing) rs)) in
          if revoke \<and> \<not> sy_has_revoker sys then (Inl ErrRevokerMissing, st)
          else
            (case user_update env u2 st of
               (Some e, st1) \<Rightarrow> (Inl (ErrUpdate e), st1)
             | (None, st1) \<Rightarrow>
                 if \<not> revoke then (Inr url, st1)
                 else (case revokeSessions sys env (uu_id req) ''password or roles changed'' st1 of
                     (Some e, st2) \<Rightarrow> (Inl e, st2)
                   | (None, st2) \<Rightarrow> (Inr url, st2))))))"

definition auditActor :: "uuid \<Rightarrow> uuid option" where
  "auditActor actor = (if actor = uuid_nil then None else Some actor)"

definition remove_user ::
  "auth_system \<Rightarrow> account_env \<Rightarrow> uuid \<Rightarrow> account_state \<Rightarrow> user_error option \<times> account_state" where
  "remove_user sys env uid st =
     (case revokeSessions sys env uid ''user deleted'' st of
        (Some e, st1) \<Rightarrow> (Some e, st1)
      | (None, st1) \<Rightarrow>
          (case user_delete (sy_fk sys) env uid st1 of
             (Some e, st2) \<Rightarrow> (Some (ErrDelete e), st2)
           | (None, st2) \<Rightarrow> (None, st2)))"

definition DeleteUser ::
  "auth_system \<Rightarrow> account_env \<Rightarrow> uuid \<Rightarrow> uuid \<Rightarrow> account_state \<Rightarrow> user_error critical_error option \<times> account_state" where
  "DeleteUser sys env uid actor st =
     (if guardSystemUser uid then (Some (OpError ErrReserved), st)
      else if sy_has_audit sys
      then WithCritical (en_attempt_fails env) (en_result_fails env) (put_event (auditActor actor) ''delete_user'')
        (remove_user sys env uid) st
      else (case remove_user sys env uid st of (r, st') \<Rightarrow> (map_option OpError r, st')))"

record external_request =
  xr_provider :: go_string
  xr_subject :: go_string
  xr_username :: go_string
  xr_email :: go_string
  xr_verified :: bool
  xr_claims :: "(go_string \<times> claim_value) list"

definition refresh_email ::
  "account_env \<Rightarrow> go_string \<Rightarrow> user \<Rightarrow> account_state \<Rightarrow> user \<times> account_state" where
  "refresh_email env email u st =
     (if email \<noteq> [] \<and> email \<noteq> us_email u then
        (case UpdateEmail env (us_id u) email st of
           (Some _, st') \<Rightarrow> (u, st')
         | (None, st') \<Rightarrow> (u\<lparr>us_email := email\<rparr>, st'))
      else (u, st))"

definition provision_user ::
  "auth_system \<Rightarrow> account_env \<Rightarrow> go_string \<Rightarrow> external_request \<Rightarrow> account_state \<Rightarrow> (user_error + user) \<times> account_state" where
  "provision_user sys env role req st =
     (let name = (if xr_username req = [] then xr_subject req else xr_username req);
          u = \<lparr>us_id = en_id env, us_username = name, us_hash = [], us_totp = [], us_roles = [role],
            us_provider = xr_provider req, us_subject = xr_subject req, us_email = xr_email req,
            us_created = en_now env\<rparr> in
      case user_create env u st of
        (None, st') \<Rightarrow> (Inr u, st')
      | (Some _, st1) \<Rightarrow>
          (let u' = u\<lparr>us_username := name @ ''-'' @ take 8 (sy_show_uuid sys (en_id env))\<rparr> in
           case user_create env u' st1 of
             (None, st') \<Rightarrow> (Inr u', st')
           | (Some e, st') \<Rightarrow> (Inl (ErrCreateUser e), st')))"

definition FindOrCreateExternalUser ::
  "auth_system \<Rightarrow> external_policy option \<Rightarrow> account_env \<Rightarrow> external_request \<Rightarrow> account_state
     \<Rightarrow> (user_error + user) \<times> account_state" where
  "FindOrCreateExternalUser sys policy env req st =
     (let i = \<lparr>xi_email = xr_email req, xi_verified = xr_verified req, xi_claims = xr_claims req\<rparr> in
      case ReadByExternalSubject env (xr_provider req) (xr_subject req) st of
        Inr u \<Rightarrow>
          (case Evaluate policy i False of
             Some r \<Rightarrow> (Inl (ErrNotAllowed r), st)
           | None \<Rightarrow> (case refresh_email env (xr_email req) u st of (u', st') \<Rightarrow> (Inr u', st')))
      | Inl RowMissing \<Rightarrow>
          (case Evaluate policy i True of
             Some r \<Rightarrow> (Inl (ErrNotAllowed r), st)
           | None \<Rightarrow> provision_user sys env (DefaultRole policy) req st)
      | Inl e \<Rightarrow> (Inl (ErrLookup e), st))"

text \<open>The callback: the identity the provider verified becomes a user, and the user gets a session.\<close>

definition AuthProviderOIDC :: go_string where "AuthProviderOIDC = ''oidc''"

datatype callback_error = CallbackUser user_error | CallbackSession auth_error

definition oidcCallback ::
  "auth_system \<Rightarrow> external_policy option \<Rightarrow> account_env \<Rightarrow> account_env \<Rightarrow> external_request \<Rightarrow> account_state
     \<Rightarrow> (callback_error + auth_result) \<times> account_state" where
  "oidcCallback sys policy env env' identity st =
     (case FindOrCreateExternalUser sys policy env (identity\<lparr>xr_provider := AuthProviderOIDC\<rparr>) st of
        (Inl e, st1) \<Rightarrow> (Inl (CallbackUser e), st1)
      | (Inr u, st1) \<Rightarrow>
          (case IssueSessionForUser sys env' u st1 of
             (Inl e, st2) \<Rightarrow> (Inl (CallbackSession e), st2)
           | (Inr r, st2) \<Rightarrow> (Inr r, st2)))"

section \<open>Service accounts\<close>

datatype oauth_error = InvalidClientCredentials | ErrIssueToken | ErrClientSecret | ErrClientHash | ErrClient store_error

text \<open>The answer is the token and the seconds the client is told it lasts: the service's own setting.\<close>

definition IssueToken ::
  "auth_system \<Rightarrow> int \<Rightarrow> account_env \<Rightarrow> go_string \<Rightarrow> go_string \<Rightarrow> account_state \<Rightarrow> oauth_error + (go_string \<times> int)" where
  "IssueToken sys expiry env name secret st =
     (case FindByName env name st of
        Inl _ \<Rightarrow> Inl InvalidClientCredentials
      | Inr c \<Rightarrow>
          if \<not> oc_enabled c \<or> (case oc_expires c of None \<Rightarrow> False | Some t \<Rightarrow> t < en_now env)
          then Inl InvalidClientCredentials
          else if \<not> sy_check_password sys secret (oc_secret c) then Inl InvalidClientCredentials
          else (case GenerateToken sys (en_now env) (oc_id c) (oc_name c) [RoleServiceAccount] (oc_id c) of
              None \<Rightarrow> Inl ErrIssueToken
            | Some token \<Rightarrow> Inr (token, expiry div 1000000000)))"

definition generateSecret :: "account_env \<Rightarrow> go_string option" where
  "generateSecret env = map_option hex_encode (en_random env)"

definition CreateClient ::
  "auth_system \<Rightarrow> account_env \<Rightarrow> go_string \<Rightarrow> go_string \<Rightarrow> instant option \<Rightarrow> account_state
     \<Rightarrow> (oauth_error + (oauth_client \<times> go_string)) \<times> account_state" where
  "CreateClient sys env name description expires st =
     (case generateSecret env of
        None \<Rightarrow> (Inl ErrClientSecret, st)
      | Some plain_text \<Rightarrow>
          (case sy_hash_password sys plain_text of
             None \<Rightarrow> (Inl ErrClientHash, st)
           | Some hash \<Rightarrow>
               (let c = \<lparr>oc_id = en_id env, oc_name = name, oc_secret = hash, oc_description = description,
                    oc_enabled = True, oc_created = en_now env, oc_expires = expires\<rparr> in
                case client_create env c st of
                  (Some e, st') \<Rightarrow> (Inl (ErrClient e), st')
                | (None, st') \<Rightarrow> (Inr (c, plain_text), st'))))"

definition GetClient :: "account_env \<Rightarrow> uuid \<Rightarrow> account_state \<Rightarrow> oauth_error + oauth_client" where
  "GetClient env cid st =
     (case client_get env cid st of Inl e \<Rightarrow> Inl (ErrClient e) | Inr c \<Rightarrow> Inr (c\<lparr>oc_secret := []\<rparr>))"

definition ListClients :: "account_env \<Rightarrow> account_state \<Rightarrow> oauth_error + oauth_client list" where
  "ListClients env st =
     (case client_list env st of
        Inl e \<Rightarrow> Inl (ErrClient e)
      | Inr cs \<Rightarrow> Inr (map (\<lambda>c. c\<lparr>oc_secret := []\<rparr>) cs))"

definition RotateSecret ::
  "auth_system \<Rightarrow> account_env \<Rightarrow> uuid \<Rightarrow> account_state \<Rightarrow> (oauth_error + go_string) \<times> account_state" where
  "RotateSecret sys env cid st =
     (case client_get env cid st of
        Inl e \<Rightarrow> (Inl (ErrClient e), st)
      | Inr c \<Rightarrow>
          (case generateSecret env of
             None \<Rightarrow> (Inl ErrClientSecret, st)
           | Some plain_text \<Rightarrow>
               (case sy_hash_password sys plain_text of
                  None \<Rightarrow> (Inl ErrClientHash, st)
                | Some hash \<Rightarrow>
                    (case client_update env (c\<lparr>oc_secret := hash\<rparr>) st of
                       (Some e, st') \<Rightarrow> (Inl (ErrClient e), st')
                     | (None, st') \<Rightarrow> (Inr plain_text, st')))))"

definition DeleteClient ::
  "account_env \<Rightarrow> uuid \<Rightarrow> account_state \<Rightarrow> oauth_error option \<times> account_state" where
  "DeleteClient env cid st =
     (case client_delete env cid st of (Some e, st') \<Rightarrow> (Some (ErrClient e), st') | (None, st') \<Rightarrow> (None, st'))"

section \<open>Lemmas\<close>

lemma set_password_roles:
  "set_password sys env pw u = Inr (u', url) \<Longrightarrow> us_id u' = us_id u \<and> us_roles u' = us_roles u
    \<and> us_username u' = us_username u"
  by (auto simp: set_password_def split: option.splits if_splits)

definition needs_revocation :: "update_user_request \<Rightarrow> go_string list option \<Rightarrow> go_string list \<Rightarrow> bool" where
  "needs_revocation req roles current \<longleftrightarrow> uu_password req \<noteq> None
     \<or> (case roles of None \<Rightarrow> False | Some rs \<Rightarrow> \<not> sameRoles current rs)"

text \<open>An update changes nothing, or writes the row and then revokes where a revocation is due.\<close>

lemma UpdateUser_cases:
  assumes "UpdateUser sys env req st = (r, st')"
  shows "(st' = st \<and> (\<exists>e. r = Inl e))
    \<or> (\<exists>existing roles u st1. uu_id req \<noteq> SystemUserID \<and> Read env (uu_id req) st = Inr existing \<and> new_roles req = Inr roles
        \<and> us_id u = us_id existing
        \<and> us_username u = (case uu_username req of None \<Rightarrow> us_username existing | Some n \<Rightarrow> n)
        \<and> us_roles u = (case roles of None \<Rightarrow> us_roles existing | Some rs \<Rightarrow> rs)
        \<and> user_update env u st = (None, st1)
        \<and> (if needs_revocation req roles (us_roles existing)
           then sy_has_revoker sys \<and> (\<exists>e. revokeSessions sys env (uu_id req) ''password or roles changed'' st1 = (e, st')
              \<and> (\<forall>x. e = Some x \<longleftrightarrow> r = Inl x))
           else st' = st1 \<and> (\<exists>url. r = Inr url)))"
proof (cases "guardSystemUser (uu_id req)")
  case True
  with assms show ?thesis
    by (auto simp: UpdateUser_def)
next
  case False
  note guard = this
  show ?thesis
  proof (cases "new_roles req")
    case (Inl e)
    with guard assms show ?thesis
      by (auto simp: UpdateUser_def)
  next
    case (Inr roles)
    note roles = this
    show ?thesis
    proof (cases "Read env (uu_id req) st")
      case (Inl e)
      with guard roles assms show ?thesis
        by (auto simp: UpdateUser_def)
    next
      case (Inr existing)
      note read = this
      define named where "named = existing\<lparr>us_username := (case uu_username req of None \<Rightarrow> us_username existing | Some n \<Rightarrow> n)\<rparr>"
      show ?thesis
      proof (cases "set_password sys env (uu_password req) named")
        case (Inl e)
        with guard roles read assms show ?thesis
          unfolding UpdateUser_def named_def by auto
      next
        case (Inr p)
        obtain u1 url where p: "p = (u1, url)"
          by fastforce
        with set_password_roles Inr have u1: "us_id u1 = us_id existing" "us_roles u1 = us_roles existing"
            "us_username u1 = (case uu_username req of None \<Rightarrow> us_username existing | Some n \<Rightarrow> n)"
          unfolding named_def by fastforce+
        define u where "u = (case roles of None \<Rightarrow> u1 | Some rs \<Rightarrow> u1\<lparr>us_roles := rs\<rparr>)"
        have u: "us_id u = us_id existing"
            "us_username u = (case uu_username req of None \<Rightarrow> us_username existing | Some n \<Rightarrow> n)"
            "us_roles u = (case roles of None \<Rightarrow> us_roles existing | Some rs \<Rightarrow> rs)"
          using u1 by (auto simp: u_def split: option.split)
        define revoke where "revoke = needs_revocation req roles (us_roles existing)"
        have eq: "UpdateUser sys env req st =
          (if revoke \<and> \<not> sy_has_revoker sys then (Inl ErrRevokerMissing, st)
          else
            (case user_update env u st of
               (Some e, st1) \<Rightarrow> (Inl (ErrUpdate e), st1)
             | (None, st1) \<Rightarrow>
                 if \<not> revoke then (Inr url, st1)
                 else (case revokeSessions sys env (uu_id req) ''password or roles changed'' st1 of
                     (Some e, st2) \<Rightarrow> (Inl e, st2)
                   | (None, st2) \<Rightarrow> (Inr url, st2))))"
          using guard roles read Inr p
          unfolding UpdateUser_def named_def u_def revoke_def needs_revocation_def
          by (simp only: Let_def if_False sum.case prod.case)
        obtain r1 st1 where up: "user_update env u st = (r1, st1)"
          by fastforce
        show ?thesis
        proof (cases r1)
          case (Some e)
          with up have "st1 = st"
            unfolding user_update_def by (auto split: if_splits)
          with eq up Some assms show ?thesis
            by (auto split: if_splits)
        next
          case None
          note written = up [unfolded None]
          show ?thesis
          proof (cases "revoke")
            case False
            with eq written assms have "st' = st1" "r = Inr url"
              by simp_all
            with False guard read roles u written show ?thesis
              unfolding revoke_def guardSystemUser_def by auto
          next
            case True
            obtain e st2 where rv: "revokeSessions sys env (uu_id req) ''password or roles changed'' st1 = (e, st2)"
              by fastforce
            show ?thesis
            proof (cases "sy_has_revoker sys")
              case False
              with eq True assms show ?thesis
                by auto
            next
              case has: True
              with eq True written rv assms have "st' = st2 \<and> (\<forall>x. e = Some x \<longleftrightarrow> r = Inl x)"
                by (cases e) auto
              with True has guard read roles u written rv show ?thesis
                unfolding revoke_def guardSystemUser_def by auto
            qed
          qed
        qed
      qed
    qed
  qed
qed

lemma revokeSessions_cases:
  assumes "revokeSessions sys env uid reason st = (e, st')"
  shows "(e \<noteq> None \<and> st' = st \<and> (en_fails env StRevokeAll \<or> \<not> sy_has_revoker sys))
    \<or> (e = None \<and> sy_has_revoker sys \<and> st' = revoke_where (\<lambda>s. se_user s = uid) (en_now env) reason st)"
  using assms by (auto simp: revokeSessions_def session_revoke_all_def split: if_splits)

lemma RefreshAccessToken_cases:
  assumes "RefreshAccessToken sys env refresh st = (r, st')"
  shows "(st' = st \<and> (\<exists>e. r = Inl e))
    \<or> (\<exists>s u r1. s \<in> set (ac_sessions st) \<and> se_hash s = hashRefreshToken refresh \<and> \<not> se_revoked s
        \<and> en_now env < se_expires s \<and> Read env (se_user s) st = Inr u
        \<and> critical_value sys env (Some (us_id u)) ''refresh_access_token'' (mint_refresh sys env u s) st = (r1, st')
        \<and> (\<forall>a t. r = Inr (a, t) \<longrightarrow> r1 = Inr (ar_token a)))"
proof (cases "GetSessionByRefreshToken env (hashRefreshToken refresh) st")
  case (Inl e)
  with assms show ?thesis
    unfolding RefreshAccessToken_def by (cases e) auto
next
  case (Inr s)
  then have s: "s \<in> set (ac_sessions st)" "se_hash s = hashRefreshToken refresh" "\<not> se_revoked s" "en_now env < se_expires s"
    using find_in_set by (fastforce simp: GetSessionByRefreshToken_def split: if_splits option.splits)+
  show ?thesis
  proof (cases "Read env (se_user s) st")
    case (Inl e)
    with Inr s assms show ?thesis
      unfolding RefreshAccessToken_def by (cases e) auto
  next
    case (Inr u)
    obtain r1 st1 where c: "critical_value sys env (Some (us_id u)) ''refresh_access_token'' (mint_refresh sys env u s) st = (r1, st1)"
      by fastforce
    have "st' = st1 \<and> (\<forall>a t. r = Inr (a, t) \<longrightarrow> r1 = Inr (ar_token a))"
      using assms \<open>GetSessionByRefreshToken env (hashRefreshToken refresh) st = Inr s\<close> s Inr c
      unfolding RefreshAccessToken_def by (cases r1) auto
    with s Inr c show ?thesis
      by blast
  qed
qed

end
