(* ===== verification/AccountRuns.thy ===== *)
theory AccountRuns
  imports Users
begin

text \<open>
  Runs of the authentication, user and service-account services: logins, callbacks, refreshes,
  revocations, changes of accounts and of service accounts, in any order and with any failing
  statements.  A configuration is the tables, the tokens handed out so far and the ids ever used; a step
  uses new ids, as \<open>uuid.New\<close> does.  \<open>allowed\<close> restricts the steps a theorem speaks about.
\<close>

section \<open>Steps\<close>

datatype account_op =
    DoLogin account_env go_string go_string go_string
  | DoCallback account_env account_env external_request
  | DoRefresh account_env go_string
  | DoRevoke account_env revoke_request
  | DoRevokeAll account_env uuid go_string
  | DoExpire account_env instant
  | DoCreateUser account_env create_user_request
  | DoUpdateUser account_env update_user_request
  | DoDeleteUser account_env uuid uuid
  | DoIssueToken account_env int go_string go_string
  | DoCreateClient account_env go_string go_string "instant option"
  | DoRotateSecret account_env uuid
  | DoDeleteClient account_env uuid

fun handed_out :: "'e + auth_result \<Rightarrow> go_string list" where
  "handed_out (Inl _) = []"
| "handed_out (Inr a) = [ar_token a]"

fun account_effect ::
  "auth_system \<Rightarrow> external_policy option \<Rightarrow> account_op \<Rightarrow> account_state \<Rightarrow> account_state \<times> go_string list" where
  "account_effect sys pol (DoLogin env username password code) st =
     (case AuthenticateUser sys env username password code st of (r, st') \<Rightarrow> (st', handed_out r))"
| "account_effect sys pol (DoCallback env env' req) st =
     (case oidcCallback sys pol env env' req st of (r, st') \<Rightarrow> (st', handed_out r))"
| "account_effect sys pol (DoRefresh env refresh) st =
     (case RefreshAccessToken sys env refresh st of
        (Inl _, st') \<Rightarrow> (st', []) | (Inr (a, _), st') \<Rightarrow> (st', [ar_token a]))"
| "account_effect sys pol (DoRevoke env req) st = (snd (RevokeSession sys env req st), [])"
| "account_effect sys pol (DoRevokeAll env uid reason) st = (snd (RevokeAllUserSessions env uid reason st), [])"
| "account_effect sys pol (DoExpire env before) st = (snd (DeleteExpiredSessions env before st), [])"
| "account_effect sys pol (DoCreateUser env req) st = (snd (CreateUser sys env req st), [])"
| "account_effect sys pol (DoUpdateUser env req) st = (snd (UpdateUser sys env req st), [])"
| "account_effect sys pol (DoDeleteUser env uid actor) st = (snd (DeleteUser sys env uid actor st), [])"
| "account_effect sys pol (DoIssueToken env expiry name secret) st =
     (st, case IssueToken sys expiry env name secret st of Inl _ \<Rightarrow> [] | Inr (t, _) \<Rightarrow> [t])"
| "account_effect sys pol (DoCreateClient env name d ex) st = (snd (CreateClient sys env name d ex st), [])"
| "account_effect sys pol (DoRotateSecret env cid) st = (snd (RotateSecret sys env cid st), [])"
| "account_effect sys pol (DoDeleteClient env cid) st = (snd (DeleteClient env cid st), [])"

fun op_ids :: "account_op \<Rightarrow> uuid list" where
  "op_ids (DoLogin env _ _ _) = [en_id env]"
| "op_ids (DoCallback env env' _) = [en_id env, en_id env']"
| "op_ids (DoCreateUser env _) = [en_id env]"
| "op_ids (DoCreateClient env _ _ _) = [en_id env]"
| "op_ids _ = []"

definition fresh_ids :: "account_op \<Rightarrow> uuid set \<Rightarrow> bool" where
  "fresh_ids op used \<longleftrightarrow> distinct (op_ids op) \<and> set (op_ids op) \<inter> used = {}"

type_synonym account_config = "account_state \<times> go_string list \<times> uuid set"

inductive account_run ::
  "auth_system \<Rightarrow> external_policy option \<Rightarrow> (account_op \<Rightarrow> bool) \<Rightarrow> account_config \<Rightarrow> account_config \<Rightarrow> bool"
  for sys pol allowed c where
  run_start: "account_run sys pol allowed c c"
| run_step: "account_run sys pol allowed c (st, toks, used) \<Longrightarrow> allowed op \<Longrightarrow> fresh_ids op used
    \<Longrightarrow> account_effect sys pol op st = (st', new)
    \<Longrightarrow> account_run sys pol allowed c (st', toks @ new, used \<union> set (op_ids op))"

section \<open>What a step does to sessions, accounts and roles\<close>

definition user_ids :: "account_state \<Rightarrow> uuid set" where
  "user_ids st = ur_id ` set (ac_users st)"

definition live_rows :: "account_state \<Rightarrow> (uuid \<times> uuid) set" where
  "live_rows st = (\<lambda>s. (se_id s, se_user s)) ` {s \<in> set (ac_sessions st). \<not> se_revoked s}"

definition session_ids :: "account_state \<Rightarrow> uuid list" where
  "session_ids st = map se_id (ac_sessions st)"

named_theorems account_simps

lemma view_simps [account_simps]:
  "user_ids (st\<lparr>ac_events := x\<rparr>) = user_ids st" "user_ids (st\<lparr>ac_failures := f\<rparr>) = user_ids st"
  "user_ids (st\<lparr>ac_sessions := ss\<rparr>) = user_ids st" "user_ids (st\<lparr>ac_clients := cs\<rparr>) = user_ids st"
  "user_ids (st\<lparr>ac_roles := rs\<rparr>) = user_ids st"
  "live_rows (st\<lparr>ac_events := x\<rparr>) = live_rows st" "live_rows (st\<lparr>ac_failures := f\<rparr>) = live_rows st"
  "live_rows (st\<lparr>ac_users := us\<rparr>) = live_rows st" "live_rows (st\<lparr>ac_clients := cs\<rparr>) = live_rows st"
  "live_rows (st\<lparr>ac_roles := rs\<rparr>) = live_rows st"
  "session_ids (st\<lparr>ac_events := x\<rparr>) = session_ids st" "session_ids (st\<lparr>ac_failures := f\<rparr>) = session_ids st"
  "session_ids (st\<lparr>ac_users := us\<rparr>) = session_ids st" "session_ids (st\<lparr>ac_clients := cs\<rparr>) = session_ids st"
  "session_ids (st\<lparr>ac_roles := rs\<rparr>) = session_ids st"
  by (simp_all add: user_ids_def live_rows_def session_ids_def)

lemma grants_simps [account_simps]:
  "user_ids (deletePrincipalGrants uid st) = user_ids st" "live_rows (deletePrincipalGrants uid st) = live_rows st"
  "session_ids (deletePrincipalGrants uid st) = session_ids st"
  "ac_roles (deletePrincipalGrants uid st) = ac_roles st" "ac_users (deletePrincipalGrants uid st) = ac_users st"
  "ac_sessions (deletePrincipalGrants uid st) = ac_sessions st"
  by (simp_all add: deletePrincipalGrants_def user_ids_def live_rows_def session_ids_def)

lemma put_event_simps [account_simps]:
  "user_ids (put_event u a out st) = user_ids st" "live_rows (put_event u a out st) = live_rows st"
  "session_ids (put_event u a out st) = session_ids st" "ac_roles (put_event u a out st) = ac_roles st"
  "ac_users (put_event u a out st) = ac_users st" "ac_sessions (put_event u a out st) = ac_sessions st"
  by (simp_all add: put_event_def account_simps)

lemma claim_rows_ids [account_simps]: "ur_id ` set (claim_rows uid step us) = ur_id ` set us"
proof -
  have "map ur_id (claim_rows uid step us) = map ur_id us"
    by (simp add: claim_rows_def)
  then show ?thesis
    by (metis list.set_map)
qed

lemma fetch_replace:
  "fetchUserRoles v (replaceUserRoles uid rs tbl)
     = (if v = uid then sort (role_rows [] rs) else fetchUserRoles v tbl)"
proof -
  have "filter (\<lambda>(u, _). u = v) (filter (\<lambda>(u, _). u \<noteq> uid) tbl) = (if v = uid then [] else filter (\<lambda>(u, _). u = v) tbl)"
    by (induction tbl) auto
  moreover have "filter (\<lambda>(u, _). u = v) (map (Pair uid) xs) = (if v = uid then map (Pair uid) xs else [])" for xs
    by (induction xs) auto
  ultimately show ?thesis
    by (auto simp: fetchUserRoles_def replaceUserRoles_def comp_def)
qed

definition plain_role :: "go_string \<Rightarrow> bool" where
  "plain_role r \<longleftrightarrow> r \<noteq> [] \<and> CHR '','' \<notin> set r"

lemma role_rows_same:
  "distinct rs \<Longrightarrow> set rs \<inter> set seen = {} \<Longrightarrow> list_all plain_role rs \<Longrightarrow> role_rows seen rs = rs"
  by (induction rs arbitrary: seen) (auto simp: plain_role_def)

lemma normalizeRoles_same:
  "distinct rs \<Longrightarrow> set rs \<inter> set seen = {} \<Longrightarrow> list_all plain_role rs \<Longrightarrow> normalizeRoles seen rs = rs"
  by (induction rs arbitrary: seen) (auto simp: plain_role_def)

lemma stored_roles_same: "distinct rs \<Longrightarrow> list_all plain_role rs \<Longrightarrow> role_rows [] (normalizeRoles [] rs) = rs"
  by (simp add: role_rows_same normalizeRoles_same)

lemma collect_roles_ok:
  "collect_roles seen rs = Some out \<Longrightarrow> distinct out \<and> set out \<inter> set seen = {} \<and> set out \<subseteq> set ValidRoles"
proof (induction seen rs arbitrary: out rule: collect_roles.induct)
  case (2 seen r0 rs)
  define r where "r = TrimSpace r0"
  show ?case
  proof (cases "r = [] \<or> r \<in> set seen")
    case True
    with 2 show ?thesis
      unfolding r_def by (simp only: collect_roles.simps Let_def if_True)
  next
    case False
    with 2(3) obtain out' where out': "collect_roles (r # seen) rs = Some out'" "out = r # out'" "IsValidUserRole r"
      unfolding r_def by (auto simp only: collect_roles.simps Let_def if_False split: if_splits)
    with 2(2) [OF r_def] False have "distinct out' \<and> set out' \<inter> set (r # seen) = {} \<and> set out' \<subseteq> set ValidRoles"
      by blast
    moreover have "r \<in> set ValidRoles"
      using out'(3) by (auto simp: IsValidUserRole_def list_ex_iff)
    ultimately show ?thesis
      using False out'(2) by auto
  qed
qed simp

lemma requested_roles_ok:
  "requested_roles rs = Some out \<Longrightarrow> distinct out \<and> set out \<subseteq> set ValidRoles \<and> out \<noteq> []"
  using collect_roles_ok [of "[]" rs] by (auto simp: requested_roles_def split: option.splits list.splits)

lemma valid_roles_plain: "r \<in> set ValidRoles \<Longrightarrow> plain_role r \<and> r \<noteq> RoleServiceAccount"
  by (auto simp: ValidRoles_def plain_role_def account_roles)

text \<open>The role rows of the table: plain names, none twice, none a service account's.\<close>

definition roles_ok :: "(uuid \<times> go_string) list \<Rightarrow> bool" where
  "roles_ok tbl \<longleftrightarrow> distinct tbl \<and> list_all (\<lambda>(_, r). plain_role r \<and> r \<noteq> RoleServiceAccount) tbl"

lemma fetch_roles_ok:
  assumes "roles_ok tbl"
  shows "distinct (fetchUserRoles uid tbl)" "list_all plain_role (fetchUserRoles uid tbl)"
    "RoleServiceAccount \<notin> set (fetchUserRoles uid tbl)"
proof -
  have "inj_on snd (set (filter (\<lambda>(u, _). u = uid) tbl))"
    by (auto simp: inj_on_def)
  with assms show "distinct (fetchUserRoles uid tbl)"
    by (simp add: fetchUserRoles_def distinct_map roles_ok_def)
  from assms show "list_all plain_role (fetchUserRoles uid tbl)" "RoleServiceAccount \<notin> set (fetchUserRoles uid tbl)"
    by (auto simp: fetchUserRoles_def roles_ok_def list_all_iff)
qed

lemma roles_ok_filter: "roles_ok tbl \<Longrightarrow> roles_ok (filter P tbl)"
  by (auto simp: roles_ok_def list_all_iff)

lemma replace_roles_ok:
  assumes "roles_ok tbl" "distinct rs" "\<forall>r\<in>set rs. plain_role r \<and> r \<noteq> RoleServiceAccount"
  shows "roles_ok (replaceUserRoles uid (normalizeRoles [] rs) tbl)"
proof -
  have "role_rows [] (normalizeRoles [] rs) = rs"
    using assms by (intro stored_roles_same) (auto simp: list_all_iff)
  with assms show ?thesis
    by (auto simp: roles_ok_def replaceUserRoles_def distinct_map inj_on_def list_all_iff)
qed

lemma sort_same_roles:
  assumes "sameRoles a b" "distinct a" "distinct b" "sorted a"
  shows "sort b = a"
proof -
  have "set b \<subseteq> set a" "card (set a) = card (set b)"
    using assms by (auto simp: sameRoles_def list_all_iff distinct_card)
  then have "set b = set a"
    by (metis List.finite_set card_subset_eq)
  then show ?thesis
    using assms by (metis distinct_sort set_sort sorted_sort sorted_distinct_set_unique)
qed

lemma fetch_sorted [simp]: "sorted (fetchUserRoles uid tbl)"
  by (simp add: fetchUserRoles_def)

text \<open>
  What every step keeps: accounts and sessions only under new ids, role rows well formed, and for an
  account that stays its roles, unless no session of it is left.
\<close>

definition roles_stay :: "account_state \<Rightarrow> account_state \<Rightarrow> bool" where
  "roles_stay st st' \<longleftrightarrow>
     (\<forall>u \<in> user_ids st \<inter> user_ids st'. fetchUserRoles u (ac_roles st') = fetchUserRoles u (ac_roles st)
        \<or> (\<forall>sid. (sid, u) \<notin> live_rows st'))"

definition keeps :: "uuid set \<Rightarrow> account_state \<Rightarrow> account_state \<Rightarrow> bool" where
  "keeps ids st st' \<longleftrightarrow>
     user_ids st' \<subseteq> user_ids st \<union> ids
     \<and> set (session_ids st') \<subseteq> set (session_ids st) \<union> ids
     \<and> (distinct (session_ids st) \<longrightarrow> distinct (session_ids st'))
     \<and> (\<forall>p \<in> live_rows st'. p \<in> live_rows st \<or> fst p \<in> ids)
     \<and> (roles_ok (ac_roles st) \<longrightarrow> roles_ok (ac_roles st'))"

lemma keeps_view:
  assumes "user_ids st' = user_ids st" "session_ids st' = session_ids st" "live_rows st' = live_rows st"
    "ac_roles st' = ac_roles st"
  shows "keeps ids st st'" "roles_stay st st'"
  using assms by (simp_all add: keeps_def roles_stay_def)

lemma keeps_mono: "keeps A st st' \<Longrightarrow> A \<subseteq> B \<Longrightarrow> keeps B st st'"
  unfolding keeps_def by blast

lemma revoke_where_simps [account_simps]:
  "user_ids (revoke_where P now reason st) = user_ids st" "session_ids (revoke_where P now reason st) = session_ids st"
  "ac_roles (revoke_where P now reason st) = ac_roles st" "ac_users (revoke_where P now reason st) = ac_users st"
  by (simp_all add: revoke_where_def user_ids_def session_ids_def)

lemma revoke_where_live:
  "live_rows (revoke_where P now reason st)
    = (\<lambda>s. (se_id s, se_user s)) ` {s \<in> set (ac_sessions st). \<not> se_revoked s \<and> \<not> P s}"
proof -
  have "{s \<in> set (map f xs). \<not> se_revoked s} = {s \<in> set xs. \<not> se_revoked s \<and> \<not> P s}"
    if "f = (\<lambda>s. if P s \<and> \<not> se_revoked s
        then s\<lparr>se_revoked := True, se_revoked_at := Some now, se_reason := reason\<rparr> else s)" for f xs
    unfolding that by (auto split: if_splits)
  then show ?thesis
    by (simp add: live_rows_def revoke_where_def)
qed

lemma keeps_revoke: "keeps ids st (revoke_where P now reason st)" "roles_stay st (revoke_where P now reason st)"
proof -
  have "live_rows (revoke_where P now reason st) \<subseteq> live_rows st"
    by (subst revoke_where_live) (auto simp: live_rows_def)
  then show "keeps ids st (revoke_where P now reason st)" "roles_stay st (revoke_where P now reason st)"
    unfolding keeps_def roles_stay_def account_simps by auto
qed

lemma keeps_expire:
  "keeps ids st (snd (DeleteExpiredSessions env before st))" "roles_stay st (snd (DeleteExpiredSessions env before st))"
  by (auto simp: DeleteExpiredSessions_def Let_def keeps_def roles_stay_def user_ids_def session_ids_def live_rows_def
      distinct_map_filter)

lemma issued_session_view:
  assumes "issued_session sys env u st r st'"
  shows "keeps {en_id env} st st'" "roles_stay st st'" "ac_users st' = ac_users st" "ac_roles st' = ac_roles st"
    "\<forall>p \<in> live_rows st'. p \<in> live_rows st \<or> p = (en_id env, us_id u)"
proof -
  from assms obtain ss ev where st': "st' = st\<lparr>ac_sessions := ac_sessions st @ ss, ac_events := ev\<rparr>"
    and ss: "ss = [] \<or> (\<exists>refresh. ss = [new_session env (us_id u) refresh] \<and> (\<forall>s\<in>set (ac_sessions st). se_id s \<noteq> en_id env))"
    unfolding issued_session_def by (metis imageI)
  show "ac_users st' = ac_users st" "ac_roles st' = ac_roles st"
    by (simp_all add: st')
  show live: "\<forall>p \<in> live_rows st'. p \<in> live_rows st \<or> p = (en_id env, us_id u)"
    using ss by (auto simp: live_rows_def st' new_session_def)
  from ss live show "keeps {en_id env} st st'"
    by (auto simp: keeps_def user_ids_def session_ids_def st' new_session_def)
  show "roles_stay st st'"
    by (simp add: roles_stay_def st')
qed

lemma user_create_cases:
  assumes "user_create env u st = (r, st')"
  shows "(st' = st \<and> r \<noteq> None) \<or> (r = None \<and> us_id u \<notin> user_ids st
    \<and> st' = st\<lparr>ac_users := ac_users st @ [new_user_row u],
        ac_roles := replaceUserRoles (us_id u) (normalizeRoles [] (us_roles u)) (ac_roles st)\<rparr>)"
  using assms
  by (auto simp: user_create_def user_clash_def list_ex_iff user_ids_def new_user_row_def split: if_splits)

lemma keeps_create:
  assumes "user_create env u st = (r, st')" and "distinct (us_roles u)"
    and "\<forall>r\<in>set (us_roles u). plain_role r \<and> r \<noteq> RoleServiceAccount"
  shows "keeps {us_id u} st st'" "roles_stay st st'" "live_rows st' = live_rows st" "session_ids st' = session_ids st"
    "r = None \<Longrightarrow> us_id u \<in> user_ids st' \<and> us_id u \<notin> user_ids st
       \<and> fetchUserRoles (us_id u) (ac_roles st') = sort (us_roles u)"
    "\<forall>v\<in>user_ids st. fetchUserRoles v (ac_roles st') = fetchUserRoles v (ac_roles st)"
proof -
  have stored: "role_rows [] (normalizeRoles [] (us_roles u)) = us_roles u"
    using assms by (intro stored_roles_same) (auto simp: list_all_iff)
  note cases = user_create_cases [OF assms(1)]
  from cases show same: "live_rows st' = live_rows st" "session_ids st' = session_ids st"
    by (auto simp: account_simps live_rows_def session_ids_def)
  from cases show fetch: "\<forall>v\<in>user_ids st. fetchUserRoles v (ac_roles st') = fetchUserRoles v (ac_roles st)"
    by (auto simp: fetch_replace)
  then show "roles_stay st st'"
    by (simp add: roles_stay_def)
  from cases same show "keeps {us_id u} st st'"
    using assms replace_roles_ok [of "ac_roles st" "us_roles u" "us_id u"]
    by (auto simp: keeps_def user_ids_def new_user_row_def)
  from cases show "r = None \<Longrightarrow> us_id u \<in> user_ids st' \<and> us_id u \<notin> user_ids st
       \<and> fetchUserRoles (us_id u) (ac_roles st') = sort (us_roles u)"
    by (auto simp: fetch_replace stored user_ids_def new_user_row_def)
qed

lemma user_ids_map:
  assumes "\<And>r. ur_id (f r) = ur_id r"
  shows "user_ids (st\<lparr>ac_users := map f (ac_users st)\<rparr>) = user_ids st"
proof -
  have "map ur_id (map f (ac_users st)) = map ur_id (ac_users st)"
    using assms by simp
  then show ?thesis
    unfolding user_ids_def by (metis account_state.select_convs(1) account_state.surjective account_state.update_convs(1) list.set_map)
qed

lemma user_update_cases:
  assumes "user_update env u st = (r, st')"
  shows "(st' = st \<and> r \<noteq> None) \<or> (r = None \<and> us_id u \<in> user_ids st
    \<and> user_ids st' = user_ids st \<and> session_ids st' = session_ids st \<and> live_rows st' = live_rows st
    \<and> ac_roles st' = replaceUserRoles (us_id u) (normalizeRoles [] (us_roles u)) (ac_roles st))"
proof -
  define f where "f = (\<lambda>r :: user_row. if ur_id r = us_id u
            then r\<lparr>ur_username := us_username u, ur_hash := us_hash u, ur_totp := us_totp u,
              ur_legacy_role := join_str '','' (normalizeRoles [] (us_roles u))\<rparr> else r)"
  have ids: "user_ids (st\<lparr>ac_users := map f (ac_users st)\<rparr>) = user_ids st"
    by (rule user_ids_map) (simp add: f_def)
  consider "st' = st" "r \<noteq> None" | "r = None" "us_id u \<in> user_ids st"
      "st' = st\<lparr>ac_users := map f (ac_users st),
        ac_roles := replaceUserRoles (us_id u) (normalizeRoles [] (us_roles u)) (ac_roles st)\<rparr>"
  proof (cases "en_fails env StUpdateUser \<or> \<not> list_ex (\<lambda>r. ur_id r = us_id u) (ac_users st)
      \<or> list_ex (\<lambda>r. ur_id r \<noteq> us_id u \<and> ur_username r = us_username u) (ac_users st)")
    case True
    then have "st' = st \<and> r \<noteq> None"
      using assms unfolding user_update_def by (elim disjE) (simp_all split: if_splits, blast+)
    then show ?thesis
      using that(1) by blast
  next
    case False
    then have "us_id u \<in> user_ids st"
      by (auto simp: user_ids_def list_ex_iff intro: image_eqI [OF sym])
    moreover from False have "r = None \<and> st' = st\<lparr>ac_users := map f (ac_users st),
        ac_roles := replaceUserRoles (us_id u) (normalizeRoles [] (us_roles u)) (ac_roles st)\<rparr>"
      using assms unfolding user_update_def f_def by simp
    ultimately show ?thesis
      using that(2) by blast
  qed
  then show ?thesis
    using ids by cases (simp_all add: account_simps)
qed

lemma read_user_Inr:
  assumes "read_user env stmt P st = Inr u"
  shows "us_id u \<in> user_ids st \<and> us_roles u = fetchUserRoles (us_id u) (ac_roles st)
    \<and> (\<exists>row\<in>set (ac_users st). P row \<and> u = scan_user st row)"
proof -
  from assms obtain row where "find P (ac_users st) = Some row" "u = scan_user st row"
    by (auto simp: read_user_def split: if_splits option.splits)
  with find_in_set [OF this(1)] show ?thesis
    by (auto simp: scan_user_def user_ids_def)
qed

section \<open>The tokens of a step\<close>

text \<open>A token minted for a user: its session belongs to nobody else, its roles are the user's.\<close>

definition minted :: "auth_system \<Rightarrow> account_state \<Rightarrow> uuid \<Rightarrow> uuid \<Rightarrow> go_string \<Rightarrow> bool" where
  "minted sys st sid uid tok \<longleftrightarrow> uid \<in> user_ids st
     \<and> (\<exists>now name. GenerateToken sys now uid name (fetchUserRoles uid (ac_roles st)) sid = Some tok)
     \<and> (\<forall>u. (sid, u) \<in> live_rows st \<longrightarrow> u = uid)"

lemma issued_session_minted:
  assumes "issued_session sys env u st (Inr a) st'" and "en_id env \<notin> set (session_ids st)"
    and "us_id u \<in> user_ids st" and "us_roles u = fetchUserRoles (us_id u) (ac_roles st)"
  shows "minted sys st' (en_id env) (us_id u) (ar_token a)"
proof -
  note view = issued_session_view [OF assms(1)]
  have "GenerateToken sys (en_now env) (us_id u) (us_username u) (us_roles u) (en_id env) = Some (ar_token a)"
    using assms(1) unfolding issued_session_def by blast
  moreover have "(en_id env, v) \<notin> live_rows st" for v
    using assms(2) by (force simp: live_rows_def session_ids_def)
  ultimately show ?thesis
    using view assms(3,4) unfolding minted_def user_ids_def by (metis fst_conv snd_conv)
qed

lemma login_step:
  assumes "AuthenticateUser sys env username password code st = (r, st')"
  shows "keeps {en_id env} st st'" "roles_stay st st'"
    "r = Inr a \<Longrightarrow> en_id env \<notin> set (session_ids st) \<Longrightarrow> \<exists>uid. minted sys st' (en_id env) uid (ar_token a)"
proof -
  have claimed: "user_ids (st\<lparr>ac_users := claim_rows uid step (ac_users st)\<rparr>) = user_ids st" for uid step
    by (simp add: user_ids_def account_simps)
  from AuthenticateUser_cases [OF assms]
  have "keeps {en_id env} st st' \<and> roles_stay st st'
    \<and> (\<forall>a. r = Inr a \<longrightarrow> en_id env \<notin> set (session_ids st) \<longrightarrow> (\<exists>uid. minted sys st' (en_id env) uid (ar_token a)))"
  proof (elim disjE conjE exE)
    fix e ev f
    assume "r = Inl e" "st' = st\<lparr>ac_events := ev, ac_failures := f\<rparr>"
    then show ?thesis
      by (auto intro!: keeps_view simp: account_simps)
  next
    fix u step
    assume b: "both_factors sys env username password code st u step"
      and f: "finish_login sys env username u step st = (r, st')"
    have read: "us_id u \<in> user_ids st" "us_roles u = fetchUserRoles (us_id u) (ac_roles st)"
      using b read_user_Inr unfolding both_factors_def ReadByUsername_def by blast+
    from finish_login_cases [OF f] show ?thesis
    proof (elim disjE conjE exE)
      fix e us ev fl
      assume r: "r = Inl e" and st': "st' = st\<lparr>ac_users := us, ac_events := ev, ac_failures := fl\<rparr>"
        and us: "us \<in> {ac_users st, claim_rows (us_id u) step (ac_users st)}"
      have "user_ids st' = user_ids st"
        using us claim_rows_ids [of "us_id u" step "ac_users st"] by (elim insertE) (simp_all add: st' user_ids_def)
      moreover have "session_ids st' = session_ids st" "live_rows st' = live_rows st" "ac_roles st' = ac_roles st"
        by (simp_all add: st' account_simps)
      ultimately show ?thesis
        using r keeps_view by blast
    next
      fix r1 st2 fl row
      assume i: "issueSession sys env u ''authenticate_user'' (st\<lparr>ac_users := claim_rows (us_id u) step (ac_users st)\<rparr>) = (r1, st2)"
        and st': "st' = st2\<lparr>ac_failures := fl\<rparr>" and r: "\<forall>a. (r = Inr a) = (r1 = Inr a)"
      note iss = issueSession_issued [OF i]
      note view = issued_session_view [OF iss]
      have "keeps {en_id env} st st'" "roles_stay st st'"
        using view(1,2) by (simp_all add: keeps_def roles_stay_def st' account_simps claimed)
      moreover have "\<exists>uid. minted sys st' (en_id env) uid (ar_token a)"
        if "r = Inr a" "en_id env \<notin> set (session_ids st)" for a
      proof -
        have "issued_session sys env u (st\<lparr>ac_users := claim_rows (us_id u) step (ac_users st)\<rparr>) (Inr a) st2"
          using iss r that(1) by metis
        from issued_session_minted [OF this] have "minted sys st2 (en_id env) (us_id u) (ar_token a)"
          using read that(2) by (simp add: account_simps claimed)
        then show ?thesis
          unfolding st' minted_def by (auto simp: account_simps)
      qed
      ultimately show ?thesis
        by blast
    qed
  qed
  then show "keeps {en_id env} st st'" "roles_stay st st'"
    "r = Inr a \<Longrightarrow> en_id env \<notin> set (session_ids st) \<Longrightarrow> \<exists>uid. minted sys st' (en_id env) uid (ar_token a)"
    by blast+
qed

text \<open>A policy built by \<open>NewExternalUserPolicy\<close>, or none, gives new users the role \<open>user\<close>.\<close>

definition policy_ok :: "external_policy option \<Rightarrow> bool" where
  "policy_ok pol \<longleftrightarrow> DefaultRole pol = RoleUser"

lemma policy_ok_new: "NewExternalUserPolicy cfg = Some p \<Longrightarrow> policy_ok (Some p)"
  by (auto simp: NewExternalUserPolicy_def policy_ok_def DefaultRole_def Let_def split: if_splits)

lemma policy_ok_nil: "policy_ok None"
  by (simp add: policy_ok_def DefaultRole_def)

lemma RoleUser_plain: "plain_role RoleUser \<and> RoleUser \<noteq> RoleServiceAccount"
  by (rule valid_roles_plain) (simp add: ValidRoles_def)

definition same_for_others :: "account_state \<Rightarrow> account_state \<Rightarrow> bool" where
  "same_for_others st st' \<longleftrightarrow> live_rows st' = live_rows st \<and> session_ids st' = session_ids st
     \<and> (\<forall>v\<in>user_ids st. fetchUserRoles v (ac_roles st') = fetchUserRoles v (ac_roles st))"

lemma same_for_others_refl [simp]: "same_for_others st st"
  by (simp add: same_for_others_def)

lemma refresh_email_view:
  "refresh_email env email u st = (u', st') \<Longrightarrow>
    user_ids st' = user_ids st \<and> live_rows st' = live_rows st \<and> session_ids st' = session_ids st
    \<and> ac_roles st' = ac_roles st \<and> us_id u' = us_id u \<and> us_roles u' = us_roles u"
proof -
  assume a: "refresh_email env email u st = (u', st')"
  have ids: "user_ids (st\<lparr>ac_users := map (\<lambda>r. if ur_id r = us_id u then r\<lparr>ur_email := Some email\<rparr> else r) (ac_users st)\<rparr>) = user_ids st"
    by (rule user_ids_map) simp
  from a consider "st' = st" "u' = u" | "us_id u' = us_id u" "us_roles u' = us_roles u"
    "st' = st\<lparr>ac_users := map (\<lambda>r. if ur_id r = us_id u then r\<lparr>ur_email := Some email\<rparr> else r) (ac_users st)\<rparr>"
    unfolding refresh_email_def UpdateEmail_def by (auto split: if_splits)
  then show ?thesis
    using ids by cases (simp_all add: account_simps)
qed

lemma provision_step:
  assumes "provision_user sys env role req st = (r, st')" and "plain_role role \<and> role \<noteq> RoleServiceAccount"
  shows "keeps {en_id env} st st' \<and> same_for_others st st'
    \<and> (\<forall>u. r = Inr u \<longrightarrow> us_id u \<in> user_ids st' \<and> us_roles u = fetchUserRoles (us_id u) (ac_roles st'))"
proof -
  define u0 where "u0 = \<lparr>us_id = en_id env, us_username = (if xr_username req = [] then xr_subject req else xr_username req),
      us_hash = [], us_totp = [], us_roles = [role], us_provider = xr_provider req, us_subject = xr_subject req,
      us_email = xr_email req, us_created = en_now env\<rparr>"
  have created: "keeps {en_id env} s s' \<and> same_for_others s s' \<and> (r0 = None \<longrightarrow> us_id u \<in> user_ids s'
      \<and> us_roles u = fetchUserRoles (us_id u) (ac_roles s')) \<and> (r0 \<noteq> None \<longrightarrow> s' = s)"
    if c: "user_create env u s = (r0, s')" and u: "us_id u = en_id env" "us_roles u = [role]" for u s r0 s'
  proof -
    have "distinct (us_roles u)" "\<forall>r\<in>set (us_roles u). plain_role r \<and> r \<noteq> RoleServiceAccount"
      using u assms(2) by simp_all
    note k = keeps_create [OF c this]
    from k user_create_cases [OF c] show ?thesis
      by (auto simp: same_for_others_def u)
  qed
  obtain r1 st1 where c1: "user_create env u0 st = (r1, st1)"
    by fastforce
  note k1 = created [OF c1]
  show ?thesis
  proof (cases r1)
    case None
    with assms(1) c1 have "r = Inr u0" "st' = st1"
      unfolding provision_user_def u0_def [symmetric] Let_def by simp_all
    with k1 None show ?thesis
      by (simp add: u0_def)
  next
    case (Some e)
    define u1 where "u1 = u0\<lparr>us_username := us_username u0 @ ''-'' @ take 8 (sy_show_uuid sys (en_id env))\<rparr>"
    have same: "st1 = st"
      using k1 Some by (simp add: u0_def)
    obtain r2 st2 where c2: "user_create env u1 st = (r2, st2)"
      by fastforce
    have "st' = st2 \<and> (\<forall>u. r = Inr u \<longrightarrow> r2 = None \<and> u = u1)"
      using assms(1) c1 c2 Some same unfolding provision_user_def u0_def [symmetric] Let_def
      by (auto simp: u1_def u0_def split: option.splits)
    with created [OF c2] show ?thesis
      by (auto simp: u1_def u0_def)
  qed
qed

lemma external_step:
  assumes "FindOrCreateExternalUser sys pol env req st = (r, st')" and "policy_ok pol"
  shows "keeps {en_id env} st st' \<and> same_for_others st st'
    \<and> (\<forall>u. r = Inr u \<longrightarrow> us_id u \<in> user_ids st' \<and> us_roles u = fetchUserRoles (us_id u) (ac_roles st'))"
proof -
  define i where "i = \<lparr>xi_email = xr_email req, xi_verified = xr_verified req, xi_claims = xr_claims req\<rparr>"
  have stay: ?thesis if "st' = st" "\<exists>e. r = Inl e"
    using that keeps_view [of st st] by auto
  show ?thesis
  proof (cases "ReadByExternalSubject env (xr_provider req) (xr_subject req) st")
    case (Inr u)
    show ?thesis
    proof (cases "Evaluate pol i False")
      case (Some x)
      with Inr assms have "st' = st \<and> (\<exists>e. r = Inl e)"
        unfolding FindOrCreateExternalUser_def i_def by auto
      then show ?thesis
        using stay by blast
    next
      case None
      obtain u' st1 where e: "refresh_email env (xr_email req) u st = (u', st1)"
        by fastforce
      have rs: "r = Inr u'" "st' = st1"
        using assms(1) Inr None e unfolding FindOrCreateExternalUser_def i_def by simp_all
      have u: "us_id u \<in> user_ids st" "us_roles u = fetchUserRoles (us_id u) (ac_roles st)"
        using read_user_Inr [OF Inr [unfolded ReadByExternalSubject_def]] by blast+
      note v = refresh_email_view [OF e]
      have "keeps {en_id env} st st1"
        using v by (intro keeps_view) auto
      with v u show ?thesis
        unfolding rs same_for_others_def by simp
    qed
  next
    case (Inl e)
    show ?thesis
    proof (cases "e = RowMissing \<and> Evaluate pol i True = None")
      case True
      with Inl assms(1) have "provision_user sys env (DefaultRole pol) req st = (r, st')"
        unfolding FindOrCreateExternalUser_def i_def by simp
      from provision_step [OF this] show ?thesis
        using assms(2) RoleUser_plain by (simp add: policy_ok_def)
    next
      case False
      with Inl assms(1) have "st' = st \<and> (\<exists>e. r = Inl e)"
        unfolding FindOrCreateExternalUser_def i_def
        by (cases e; cases "Evaluate pol \<lparr>xi_email = xr_email req, xi_verified = xr_verified req, xi_claims = xr_claims req\<rparr> True") auto
      then show ?thesis
        using stay by blast
    qed
  qed
qed

lemma callback_step:
  assumes "oidcCallback sys pol env env' req st = (r, st')" and "policy_ok pol"
    and "en_id env' \<notin> set (session_ids st)"
  shows "keeps {en_id env, en_id env'} st st'" "roles_stay st st'"
    "r = Inr a \<Longrightarrow> \<exists>uid. minted sys st' (en_id env') uid (ar_token a)"
proof -
  obtain r1 st1 where f: "FindOrCreateExternalUser sys pol env (req\<lparr>xr_provider := AuthProviderOIDC\<rparr>) st = (r1, st1)"
    by fastforce
  note x = external_step [OF f assms(2)]
  have "keeps {en_id env, en_id env'} st st' \<and> roles_stay st st'
    \<and> (\<forall>a. r = Inr a \<longrightarrow> (\<exists>uid. minted sys st' (en_id env') uid (ar_token a)))"
  proof (cases r1)
    case (Inl e)
    with assms(1) f have "r = Inl (CallbackUser e) \<and> st' = st1"
      unfolding oidcCallback_def by simp
    then have rs: "st' = st1" "\<exists>e. r = Inl e"
      by blast+
    have "keeps {en_id env, en_id env'} st st1"
      using x by (auto intro: keeps_mono [of "{en_id env}" st st1])
    moreover have "roles_stay st st1"
      using x unfolding same_for_others_def roles_stay_def by blast
    ultimately show ?thesis
      using rs by auto
  next
    case (Inr u)
    obtain r2 st2 where i: "IssueSessionForUser sys env' u st1 = (r2, st2)"
      by fastforce
    have "st' = st2 \<and> r = (case r2 of Inl e \<Rightarrow> Inl (CallbackSession e) | Inr x \<Rightarrow> Inr x)"
      using assms(1) f Inr i unfolding oidcCallback_def by (cases r2) auto
    then have rs: "st' = st2" "\<forall>a. r = Inr a \<longrightarrow> r2 = Inr a"
      by (cases r2; simp)+
    have iss: "issued_session sys env' u st1 r2 st2"
      using i unfolding IssueSessionForUser_def by (rule issueSession_issued)
    note v = issued_session_view [OF iss]
    have k1: "keeps {en_id env} st st1" and s1: "same_for_others st st1"
      using x by blast+
    have "keeps {en_id env, en_id env'} st st2"
      using k1 v(1,3,4) s1 unfolding keeps_def same_for_others_def by (auto simp: user_ids_def)
    moreover have "roles_stay st st2"
      using s1 v(4) unfolding roles_stay_def same_for_others_def by auto
    moreover have "\<exists>uid. minted sys st2 (en_id env') uid (ar_token a)" if "r = Inr a" for a
    proof -
      have "issued_session sys env' u st1 (Inr a) st2"
        using iss rs(2) that by metis
      from issued_session_minted [OF this] show ?thesis
        using x Inr assms(3) s1 unfolding same_for_others_def by auto
    qed
    ultimately show ?thesis
      unfolding rs(1) by blast
  qed
  then show "keeps {en_id env, en_id env'} st st'" "roles_stay st st'"
    "r = Inr a \<Longrightarrow> \<exists>uid. minted sys st' (en_id env') uid (ar_token a)"
    by blast+
qed

lemma touch_view:
  "snd (UpdateSessionLastUsed env sid now st) = st'
    \<Longrightarrow> user_ids st' = user_ids st \<and> session_ids st' = session_ids st \<and> live_rows st' = live_rows st
      \<and> ac_roles st' = ac_roles st \<and> ac_users st' = ac_users st"
proof -
  define f where "f = (\<lambda>s :: session. if se_id s = sid \<and> \<not> se_revoked s then s\<lparr>se_last_used := now\<rparr> else s)"
  assume "snd (UpdateSessionLastUsed env sid now st) = st'"
  then consider "st' = st" | "st' = st\<lparr>ac_sessions := map f (ac_sessions st)\<rparr>"
    unfolding UpdateSessionLastUsed_def Let_def f_def by (auto split: if_splits)
  then show ?thesis
  proof cases
    case 2
    have f: "se_id (f s) = se_id s" "se_user (f s) = se_user s" "se_revoked (f s) = se_revoked s" for s
      by (simp_all add: f_def)
    have "{s \<in> f ` set xs. \<not> se_revoked s} = f ` {s \<in> set xs. \<not> se_revoked s}" for xs
      using f by auto
    with f 2 show ?thesis
      by (simp add: user_ids_def session_ids_def live_rows_def image_image comp_def)
  qed simp
qed

lemma refresh_step:
  assumes "RefreshAccessToken sys env refresh st = (r, st')" and "distinct (session_ids st)"
  shows "keeps ids st st'" "roles_stay st st'"
    "r = Inr (a, t) \<Longrightarrow> \<exists>sid uid. sid \<in> set (session_ids st) \<and> minted sys st' sid uid (ar_token a)"
proof -
  have stay: "keeps ids st st" "roles_stay st st"
    by (rule keeps_view; rule refl)+
  from RefreshAccessToken_cases [OF assms(1)]
  have "keeps ids st st' \<and> roles_stay st st' \<and> (\<forall>a t. r = Inr (a, t) \<longrightarrow>
    (\<exists>sid uid. sid \<in> set (session_ids st) \<and> minted sys st' sid uid (ar_token a)))"
  proof (elim disjE exE conjE)
    fix e
    assume "st' = st" "r = Inl e"
    with stay show ?thesis
      by simp
  next
    fix s u r1
    assume s: "s \<in> set (ac_sessions st)" "\<not> se_revoked s" and u: "Read env (se_user s) st = Inr u"
      and c: "critical_value sys env (Some (us_id u)) ''refresh_access_token'' (mint_refresh sys env u s) st = (r1, st')"
      and r: "\<forall>a t. r = Inr (a, t) \<longrightarrow> r1 = Inr (ar_token a)"
    have read: "us_id u \<in> user_ids st" "us_roles u = fetchUserRoles (us_id u) (ac_roles st)" "us_id u = se_user s"
      using read_user_Inr [OF u [unfolded Read_def]] by (auto simp: scan_user_def)
    from critical_value_cases [OF c] show ?thesis
    proof (elim disjE exE conjE)
      fix e
      assume "st' = st" "r1 = Inl e"
      with stay r show ?thesis
        by auto
    next
      fix ev s2 ev'
      assume op: "mint_refresh sys env u s (st\<lparr>ac_events := ev\<rparr>) = (r1, s2)" and st': "st' = s2\<lparr>ac_events := ev'\<rparr>"
      have "user_ids s2 = user_ids st \<and> session_ids s2 = session_ids st \<and> live_rows s2 = live_rows st
          \<and> ac_roles s2 = ac_roles st \<and> (\<forall>x. r1 = Inr x \<longrightarrow>
            GenerateToken sys (en_now env) (us_id u) (us_username u) (us_roles u) (se_id s) = Some x)"
      proof (cases "GenerateToken sys (en_now env) (us_id u) (us_username u) (us_roles u) (se_id s)")
        case None
        with op have "s2 = st\<lparr>ac_events := ev\<rparr>" "\<exists>e. r1 = Inl e"
          unfolding mint_refresh_def by auto
        then show ?thesis
          by (auto simp: account_simps)
      next
        case (Some x)
        with op have "r1 = Inr x" "snd (UpdateSessionLastUsed env (se_id s) (en_now env) (st\<lparr>ac_events := ev\<rparr>)) = s2"
          unfolding mint_refresh_def by auto
        with touch_view [OF this(2)] Some show ?thesis
          by (simp add: account_simps)
      qed
      then have v: "user_ids st' = user_ids st" "session_ids st' = session_ids st" "live_rows st' = live_rows st"
          "ac_roles st' = ac_roles st" "\<And>x. r1 = Inr x \<Longrightarrow>
            GenerateToken sys (en_now env) (us_id u) (us_username u) (us_roles u) (se_id s) = Some x"
        by (simp_all add: st' account_simps)
      have "(se_id s, v) \<in> live_rows st \<Longrightarrow> v = se_user s" for v
        using s assms(2) by (auto simp: live_rows_def session_ids_def distinct_map inj_on_def)
      then have "minted sys st' (se_id s) (us_id u) x" if "r1 = Inr x" for x
        using v(5) [OF that] read v(1,3,4) unfolding minted_def by metis
      moreover have "se_id s \<in> set (session_ids st)"
        using s by (simp add: session_ids_def)
      ultimately show ?thesis
        using keeps_view [OF v(1-4)] r by blast
    qed
  qed
  then show "keeps ids st st'" "roles_stay st st'"
    "r = Inr (a, t) \<Longrightarrow> \<exists>sid uid. sid \<in> set (session_ids st) \<and> minted sys st' sid uid (ar_token a)"
    by blast+
qed

lemma create_step:
  assumes "CreateUser sys env req st = (r, st')"
  shows "keeps {en_id env} st st'" "roles_stay st st'"
proof -
  have stay: "keeps {en_id env} st st" "roles_stay st st"
    by (rule keeps_view; rule refl)+
  have "st' = st \<or> (\<exists>u e roles. user_create env u st = (e, st') \<and> us_id u = en_id env
      \<and> us_roles u = roles \<and> requested_roles (cu_roles req) = Some roles)"
    using assms by (auto simp: CreateUser_def Let_def split: if_splits option.splits prod.splits)
  then show "keeps {en_id env} st st'" "roles_stay st st'"
    using stay keeps_create(1,2) [of env _ st _ st'] requested_roles_ok valid_roles_plain
    by (metis subsetD)+
qed

lemma update_step:
  assumes "UpdateUser sys env req st = (r, st')"
  shows "keeps ids st st'" "roles_ok (ac_roles st) \<Longrightarrow> \<not> en_fails env StRevokeAll \<Longrightarrow> roles_stay st st'"
proof -
  have stay: "keeps ids st st" "roles_stay st st"
    by (rule keeps_view; rule refl)+
  have "keeps ids st st' \<and> (roles_ok (ac_roles st) \<longrightarrow> \<not> en_fails env StRevokeAll \<longrightarrow> roles_stay st st')"
    using UpdateUser_cases [OF assms]
  proof (elim disjE exE conjE)
    fix e
    assume "st' = st" "r = Inl e"
    with stay show ?thesis
      by simp
  next
    fix existing roles u st1
    assume read: "Read env (uu_id req) st = Inr existing" and roles: "new_roles req = Inr roles"
      and u: "us_id u = us_id existing" "us_roles u = (case roles of None \<Rightarrow> us_roles existing | Some rs \<Rightarrow> rs)"
      and up: "user_update env u st = (None, st1)"
      and rest: "if needs_revocation req roles (us_roles existing)
           then sy_has_revoker sys \<and> (\<exists>e. revokeSessions sys env (uu_id req) ''password or roles changed'' st1 = (e, st')
              \<and> (\<forall>x. e = Some x \<longleftrightarrow> r = Inl x))
           else st' = st1 \<and> (\<exists>url. r = Inr url)"
    have ex: "us_roles existing = fetchUserRoles (us_id existing) (ac_roles st)" "us_id existing = uu_id req"
      using read_user_Inr [OF read [unfolded Read_def]] by (auto simp: scan_user_def)
    have good: "distinct (us_roles u) \<and> (\<forall>r\<in>set (us_roles u). plain_role r \<and> r \<noteq> RoleServiceAccount)"
      if ok: "roles_ok (ac_roles st)"
    proof (cases roles)
      case None
      with u ex fetch_roles_ok [OF ok] show ?thesis
        by (auto simp: list_all_iff)
    next
      case (Some rs)
      with roles obtain rs0 where "requested_roles rs0 = Some rs"
        by (auto simp: new_roles_def split: option.splits if_splits)
      from requested_roles_ok [OF this] show ?thesis
        using Some u(2) valid_roles_plain by auto
    qed
    note v1 = user_update_cases [OF up]
    have k1: "keeps ids st st1"
      using v1 good replace_roles_ok unfolding keeps_def by auto
    have fetch: "fetchUserRoles v (ac_roles st1)
        = (if v = uu_id req then sort (role_rows [] (normalizeRoles [] (us_roles u))) else fetchUserRoles v (ac_roles st))" for v
      using v1 u(1) ex(2) by (simp add: fetch_replace)
    show ?thesis
    proof (cases "needs_revocation req roles (us_roles existing)")
      case False
      then have st': "st' = st1"
        using rest by simp
      have "sort (us_roles u) = us_roles existing" if ok: "roles_ok (ac_roles st)"
      proof (cases roles)
        case None
        then show ?thesis
          using u(2) ex(1) by (simp add: sorted_sort_id)
      next
        case (Some rs)
        with False have "sameRoles (us_roles existing) (us_roles u)"
          using u(2) by (simp add: needs_revocation_def)
        then show ?thesis
          using sort_same_roles good [OF ok] fetch_roles_ok [OF ok] ex(1) by simp
      qed
      then have "roles_stay st st1" if "roles_ok (ac_roles st)"
        using that good [OF that] fetch ex stored_roles_same unfolding roles_stay_def by (auto simp: list_all_iff)
      then show ?thesis
        using k1 st' by simp
    next
      case True
      then obtain e where rv: "revokeSessions sys env (uu_id req) ''password or roles changed'' st1 = (e, st')"
        and has: "sy_has_revoker sys"
        using rest by auto
      from revokeSessions_cases [OF rv] show ?thesis
      proof (elim disjE conjE)
        assume "st' = st1" "en_fails env StRevokeAll"
        with k1 show ?thesis
          by simp
      next
        assume "\<not> sy_has_revoker sys"
        with has show ?thesis
          by simp
      next
        assume st': "st' = revoke_where (\<lambda>s. se_user s = uu_id req) (en_now env) ''password or roles changed'' st1"
        have "keeps ids st st'"
          using k1 keeps_revoke(1) [of ids st1 "\<lambda>s. se_user s = uu_id req" "en_now env" "''password or roles changed''"]
          unfolding st' keeps_def by (auto simp: account_simps)
        moreover have "(sid, uu_id req) \<notin> live_rows st'" for sid
          unfolding st' by (subst revoke_where_live) auto
        moreover have "ac_roles st' = ac_roles st1"
          by (simp add: st' account_simps)
        ultimately show ?thesis
          using fetch unfolding roles_stay_def by auto
      qed
    qed
  qed
  then show "keeps ids st st'" "roles_ok (ac_roles st) \<Longrightarrow> \<not> en_fails env StRevokeAll \<Longrightarrow> roles_stay st st'"
    by blast+
qed

lemma user_delete_cases:
  assumes "user_delete fk env uid st = (r, st')"
  shows "(r \<noteq> None \<and> st' = st) \<or> (r = None \<and> uid \<in> user_ids st \<and> user_ids st' = user_ids st - {uid}
    \<and> ac_roles st' = filter (\<lambda>(u, _). u \<noteq> uid) (ac_roles st)
    \<and> ac_sessions st' = (if fk then filter (\<lambda>s. se_user s \<noteq> uid) (ac_sessions st) else ac_sessions st)
    \<and> ac_assignments st' = filter (\<lambda>a. ra_principal a \<noteq> uid) (ac_assignments st)
    \<and> ac_policies st' = filter (\<lambda>p. pol_principal p \<noteq> uid) (ac_policies st)
    \<and> ac_grants st' = filter (\<lambda>g. pg_principal g \<noteq> uid) (ac_grants st))"
proof (cases "en_fails env StDeleteUser \<or> \<not> list_ex (\<lambda>r. ur_id r = uid) (ac_users st)")
  case True
  with assms show ?thesis
    unfolding user_delete_def by (auto split: if_splits)
next
  case False
  moreover from False have "uid \<in> user_ids st"
    by (auto simp: user_ids_def list_ex_iff)
  ultimately show ?thesis
    using assms unfolding user_delete_def Let_def
    by (auto simp: deletePrincipalGrants_def user_ids_def)
qed

lemma fetch_filter: "v \<noteq> uid \<Longrightarrow> fetchUserRoles v (filter (\<lambda>(u, _). u \<noteq> uid) tbl) = fetchUserRoles v tbl"
proof -
  assume "v \<noteq> uid"
  then have "filter (\<lambda>(u, _). u = v) (filter (\<lambda>(u, _). u \<noteq> uid) tbl) = filter (\<lambda>(u, _). u = v) tbl"
    by (induction tbl) auto
  then show ?thesis
    by (simp add: fetchUserRoles_def)
qed

lemma remove_step:
  assumes "remove_user sys env uid st = (r, st')"
  shows "keeps ids st st'" "roles_stay st st'"
proof -
  obtain e st1 where rv: "revokeSessions sys env uid ''user deleted'' st = (e, st1)"
    by fastforce
  have stay: "keeps ids st st" "roles_stay st st"
    by (rule keeps_view; rule refl)+
  have "keeps ids st st' \<and> roles_stay st st'"
  proof (cases e)
    case (Some x)
    with rv assms have "st' = st1"
      unfolding remove_user_def by simp
    with revokeSessions_cases [OF rv] Some stay show ?thesis
      by auto
  next
    case None
    then have st1: "st1 = revoke_where (\<lambda>s. se_user s = uid) (en_now env) ''user deleted'' st"
      using revokeSessions_cases [OF rv] by auto
    have k1: "keeps ids st st1" "roles_stay st st1"
      unfolding st1 by (rule keeps_revoke)+
    obtain d st2 where del: "user_delete (sy_fk sys) env uid st1 = (d, st2)"
      by fastforce
    have st': "st' = st2"
      using assms rv None del unfolding remove_user_def by (auto split: option.splits)
    from user_delete_cases [OF del] show ?thesis
    proof (elim disjE conjE)
      assume "st2 = st1"
      with st' k1 show ?thesis
        by simp
    next
      assume v: "user_ids st2 = user_ids st1 - {uid}" "ac_roles st2 = filter (\<lambda>(u, _). u \<noteq> uid) (ac_roles st1)"
        "ac_sessions st2 = (if sy_fk sys then filter (\<lambda>s. se_user s \<noteq> uid) (ac_sessions st1) else ac_sessions st1)"
      have sub: "live_rows st2 \<subseteq> live_rows st1" "set (session_ids st2) \<subseteq> set (session_ids st1)"
        using v(3) by (auto simp: live_rows_def session_ids_def split: if_splits)
      have dis: "distinct (session_ids st1) \<Longrightarrow> distinct (session_ids st2)"
        using v(3) by (auto simp: session_ids_def distinct_map_filter)
      have "keeps ids st st2"
        using k1(1) v sub dis roles_ok_filter unfolding keeps_def by auto
      moreover have "ac_roles st1 = ac_roles st" "user_ids st1 = user_ids st"
        by (simp_all add: st1 account_simps)
      then have "roles_stay st st2"
        using v(1,2) fetch_filter unfolding roles_stay_def by auto
      ultimately show ?thesis
        by (simp add: st')
    qed
  qed
  then show "keeps ids st st'" "roles_stay st st'"
    by blast+
qed

lemma delete_step:
  assumes "DeleteUser sys env uid actor st = (r, st')"
  shows "keeps ids st st'" "roles_stay st st'"
proof -
  have stay: "keeps ids st st" "roles_stay st st"
    by (rule keeps_view; rule refl)+
  have same: "keeps ids st s2 \<and> roles_stay st s2"
    if "remove_user sys env uid s1 = (r2, s2)" "s1 = st \<or> s1 = put_event (auditActor actor) ''delete_user'' OutcomeAttempt st" for r2 s1 s2
  proof -
    from remove_step [OF that(1)] have "keeps ids s1 s2" "roles_stay s1 s2"
      by blast+
    with that(2) show ?thesis
      unfolding keeps_def roles_stay_def by (elim disjE) (simp_all add: account_simps)
  qed
  have "keeps ids st st' \<and> roles_stay st st'"
  proof (cases "guardSystemUser uid")
    case True
    with assms stay show ?thesis
      by (simp add: DeleteUser_def)
  next
    case False
    show ?thesis
    proof (cases "sy_has_audit sys")
      case True
      with False assms have w: "WithCritical (en_attempt_fails env) (en_result_fails env)
          (put_event (auditActor actor) ''delete_user'') (remove_user sys env uid) st = (r, st')"
        by (simp add: DeleteUser_def)
      from WithCritical_cases [OF w] show ?thesis
      proof (elim disjE conjE exE)
        assume "st' = st"
        with stay show ?thesis
          by simp
      next
        fix r2 s2
        assume op: "remove_user sys env uid (put_event (auditActor actor) ''delete_user'' OutcomeAttempt st) = (r2, s2)"
          and st': "st' = s2"
        with same show ?thesis
          by blast
      next
        fix r2 s2 out
        assume op: "remove_user sys env uid (put_event (auditActor actor) ''delete_user'' OutcomeAttempt st) = (r2, s2)"
          and st': "st' = put_event (auditActor actor) ''delete_user'' out s2"
        then show ?thesis
          using same [OF op] unfolding keeps_def roles_stay_def by (simp add: account_simps)
      qed
    next
      case no_audit: False
      obtain r2 s2 where op: "remove_user sys env uid st = (r2, s2)"
        by fastforce
      with False no_audit assms have "st' = s2"
        by (simp add: DeleteUser_def)
      with same [OF op] show ?thesis
        by simp
    qed
  qed
  then show "keeps ids st st'" "roles_stay st st'"
    by blast+
qed

lemma revoke_cases:
  "snd (RevokeSession sys env req st) = st \<or> (\<exists>P reason. snd (RevokeSession sys env req st) = revoke_where P (en_now env) reason st)"
  by (cases "sy_parse_uuid sys (rv_session req)")
    (auto simp: RevokeSession_def session_revoke_def RevokeUserSession_def revoke_one_def split: store_error.splits)

lemma revoke_step:
  "keeps ids st (snd (RevokeSession sys env req st))" "roles_stay st (snd (RevokeSession sys env req st))"
  using revoke_cases [of sys env req st] keeps_revoke keeps_view [of st st] by metis+

lemma revoke_all_step:
  "keeps ids st (snd (RevokeAllUserSessions env uid reason st))" "roles_stay st (snd (RevokeAllUserSessions env uid reason st))"
proof -
  have "snd (RevokeAllUserSessions env uid reason st)
      \<in> {st, revoke_where (\<lambda>s. se_user s = uid) (en_now env) reason st}"
    by (simp add: RevokeAllUserSessions_def session_revoke_all_def)
  then show "keeps ids st (snd (RevokeAllUserSessions env uid reason st))"
    "roles_stay st (snd (RevokeAllUserSessions env uid reason st))"
    using keeps_revoke keeps_view [of st st] by (metis insertE singletonD)+
qed

lemma client_views:
  "\<exists>cs. snd (CreateClient sys env name d ex st) = st\<lparr>ac_clients := cs\<rparr>"
  "\<exists>cs. snd (RotateSecret sys env cid st) = st\<lparr>ac_clients := cs\<rparr>"
  "\<exists>cs. snd (DeleteClient env cid st) = st
     \<or> snd (DeleteClient env cid st) = (deletePrincipalGrants cid st)\<lparr>ac_clients := cs\<rparr>"
proof -
  have same: "\<exists>cs. st = st\<lparr>ac_clients := cs\<rparr>"
    by (rule exI [of _ "ac_clients st"]) simp
  have create: "snd (client_create env c st) = st \<or> (\<exists>cs. snd (client_create env c st) = st\<lparr>ac_clients := cs\<rparr>)" for c
    by (auto simp: client_create_def)
  have update: "snd (client_update env c st) = st \<or> (\<exists>cs. snd (client_update env c st) = st\<lparr>ac_clients := cs\<rparr>)" for c
    by (auto simp: client_update_def)
  have "snd (CreateClient sys env name d ex st) = st
      \<or> (\<exists>c. snd (CreateClient sys env name d ex st) = snd (client_create env c st))"
    by (auto simp: CreateClient_def Let_def split: option.splits prod.splits) (metis snd_conv)+
  with same create show "\<exists>cs. snd (CreateClient sys env name d ex st) = st\<lparr>ac_clients := cs\<rparr>"
    by metis
  have "snd (RotateSecret sys env cid st) = st
      \<or> (\<exists>c. snd (RotateSecret sys env cid st) = snd (client_update env c st))"
    by (auto simp: RotateSecret_def split: option.splits sum.splits prod.splits) (metis snd_conv)+
  with same update show "\<exists>cs. snd (RotateSecret sys env cid st) = st\<lparr>ac_clients := cs\<rparr>"
    by metis
  show "\<exists>cs. snd (DeleteClient env cid st) = st
     \<or> snd (DeleteClient env cid st) = (deletePrincipalGrants cid st)\<lparr>ac_clients := cs\<rparr>"
    by (auto simp: DeleteClient_def client_delete_def)
qed

lemma client_keeps:
  assumes "\<exists>cs. st' = st\<lparr>ac_clients := cs\<rparr> \<or> st' = st \<or> st' = (deletePrincipalGrants cid st)\<lparr>ac_clients := cs\<rparr>"
  shows "keeps ids st st'" "roles_stay st st'"
proof -
  from assms have "user_ids st' = user_ids st" "session_ids st' = session_ids st" "live_rows st' = live_rows st"
      "ac_roles st' = ac_roles st"
    by (elim exE disjE; simp add: account_simps)+
  then show "keeps ids st st'" "roles_stay st st'"
    by (rule keeps_view)+
qed

lemma client_steps:
  "keeps ids st (snd (CreateClient sys env name d ex st)) \<and> roles_stay st (snd (CreateClient sys env name d ex st))"
  "keeps ids st (snd (RotateSecret sys env cid st)) \<and> roles_stay st (snd (RotateSecret sys env cid st))"
  "keeps ids st (snd (DeleteClient env cid st)) \<and> roles_stay st (snd (DeleteClient env cid st))"
  using client_keeps client_views by metis+

section \<open>The invariant of a run\<close>

text \<open>What the token library and the id library promise: signing, then decoding, gives the claims back.\<close>

definition lib_ok :: "auth_system \<Rightarrow> bool" where
  "lib_ok sys \<longleftrightarrow> (\<forall>u. sy_parse_uuid sys (sy_show_uuid sys u) = Some u)
     \<and> (\<forall>alg kid t0 t1 c tok. sy_sign sys alg kid t0 t1 c = Some tok \<longrightarrow> sy_decode sys tok = Some (Some kid, c))"

fun revocation_works :: "account_op \<Rightarrow> bool" where
  "revocation_works (DoUpdateUser env _) \<longleftrightarrow> \<not> en_fails env StRevokeAll"
| "revocation_works _ \<longleftrightarrow> True"

definition service_token :: "auth_system \<Rightarrow> go_string \<Rightarrow> bool" where
  "service_token sys tok \<longleftrightarrow> (\<exists>now cid name. GenerateToken sys now cid name [RoleServiceAccount] cid = Some tok)"

lemma effect_step:
  assumes "account_effect sys pol op st = (st', new)" and "policy_ok pol"
    and "set (op_ids op) \<inter> set (session_ids st) = {}" and "distinct (session_ids st)" and "roles_ok (ac_roles st)"
  shows "keeps (set (op_ids op)) st st'"
    and "revocation_works op \<Longrightarrow> roles_stay st st'"
    and "tok \<in> set new \<Longrightarrow> service_token sys tok
      \<or> (\<exists>sid uid. sid \<in> set (op_ids op) \<union> set (session_ids st) \<and> minted sys st' sid uid tok)"
proof -
  have "keeps (set (op_ids op)) st st' \<and> (revocation_works op \<longrightarrow> roles_stay st st')
    \<and> (\<forall>tok\<in>set new. service_token sys tok
      \<or> (\<exists>sid uid. sid \<in> set (op_ids op) \<union> set (session_ids st) \<and> minted sys st' sid uid tok))"
  proof (cases op)
    case (DoLogin env username password code)
    obtain r s' where l: "AuthenticateUser sys env username password code st = (r, s')"
      by fastforce
    with assms(1) DoLogin have "st' = s'" "new = handed_out r"
      by simp_all
    with login_step [OF l] assms(3) DoLogin show ?thesis
      by (cases r) auto
  next
    case (DoCallback env env' req)
    obtain r s' where l: "oidcCallback sys pol env env' req st = (r, s')"
      by fastforce
    with assms(1) DoCallback have "st' = s'" "new = handed_out r"
      by simp_all
    with callback_step [OF l assms(2)] assms(3) DoCallback show ?thesis
      by (cases r) auto
  next
    case (DoRefresh env refresh)
    obtain r s' where l: "RefreshAccessToken sys env refresh st = (r, s')"
      by fastforce
    with assms(1) DoRefresh have "st' = s'" "\<forall>tok\<in>set new. \<exists>a t. r = Inr (a, t) \<and> tok = ar_token a"
      by (auto split: sum.splits prod.splits)
    with refresh_step [OF l assms(4)] DoRefresh show ?thesis
      by auto
  next
    case (DoRevoke env req)
    with assms(1) revoke_step show ?thesis
      by auto
  next
    case (DoRevokeAll env uid reason)
    with assms(1) revoke_all_step show ?thesis
      by auto
  next
    case (DoExpire env before)
    with assms(1) keeps_expire show ?thesis
      by auto
  next
    case (DoCreateUser env req)
    with assms(1) create_step [of sys env req st _ st'] show ?thesis
      by (auto simp: prod_eq_iff)
  next
    case (DoUpdateUser env req)
    obtain r s' where l: "UpdateUser sys env req st = (r, s')"
      by fastforce
    with assms(1,5) DoUpdateUser update_step [OF l] show ?thesis
      by auto
  next
    case (DoDeleteUser env uid actor)
    obtain r s' where l: "DeleteUser sys env uid actor st = (r, s')"
      by fastforce
    with assms(1) DoDeleteUser delete_step [OF l] show ?thesis
      by auto
  next
    case (DoIssueToken env expiry name secret)
    have "\<forall>tok\<in>set new. service_token sys tok" "st' = st"
      using assms(1) DoIssueToken
      by (auto simp: IssueToken_def service_token_def split: sum.splits if_splits option.splits) blast+
    with keeps_view [of st st] show ?thesis
      by simp
  next
    case (DoCreateClient env name d ex)
    with assms(1) client_steps show ?thesis
      by auto
  next
    case (DoRotateSecret env cid)
    with assms(1) client_steps show ?thesis
      by auto
  next
    case (DoDeleteClient env cid)
    with assms(1) client_steps show ?thesis
      by auto
  qed
  then show "keeps (set (op_ids op)) st st'" "revocation_works op \<Longrightarrow> roles_stay st st'"
    "tok \<in> set new \<Longrightarrow> service_token sys tok
      \<or> (\<exists>sid uid. sid \<in> set (op_ids op) \<union> set (session_ids st) \<and> minted sys st' sid uid tok)"
    by blast+
qed

text \<open>A token handed out names a session that belongs to its user alone, and while both are there its roles
  are the user's.\<close>

definition token_current :: "auth_system \<Rightarrow> uuid set \<Rightarrow> account_state \<Rightarrow> go_string \<Rightarrow> bool" where
  "token_current sys used st tok \<longleftrightarrow> (\<exists>kid c. sy_decode sys tok = Some (Some kid, c)
     \<and> (RoleServiceAccount \<in> set (jc_roles c)
        \<or> (\<exists>sid. sy_parse_uuid sys (jc_id c) = Some sid \<and> sid \<in> used \<and> jc_user c \<in> used
            \<and> (\<forall>u. (sid, u) \<in> live_rows st \<longrightarrow> u = jc_user c
                 \<and> (u \<in> user_ids st \<longrightarrow> jc_roles c = fetchUserRoles u (ac_roles st))))))"

definition accounts_ok :: "uuid set \<Rightarrow> account_state \<Rightarrow> bool" where
  "accounts_ok used st \<longleftrightarrow> user_ids st \<subseteq> used \<and> set (session_ids st) \<subseteq> used \<and> distinct (session_ids st)
     \<and> roles_ok (ac_roles st)"

lemma token_claims_decode:
  assumes "lib_ok sys" "GenerateToken sys now uid name roles sid = Some tok"
  shows "\<exists>kid. sy_decode sys tok = Some (Some kid, token_claims sys uid name roles sid)"
  using assms by (auto simp: lib_ok_def GenerateToken_def split: if_splits)

lemma minted_current:
  assumes "lib_ok sys" "minted sys st sid uid tok" "sid \<in> used" "user_ids st \<subseteq> used"
  shows "token_current sys used st tok"
proof -
  obtain now name where "GenerateToken sys now uid name (fetchUserRoles uid (ac_roles st)) sid = Some tok"
    and m: "uid \<in> user_ids st" "\<forall>u. (sid, u) \<in> live_rows st \<longrightarrow> u = uid"
    using assms(2) unfolding minted_def by blast
  from token_claims_decode [OF assms(1) this(1)] obtain kid
    where "sy_decode sys tok = Some (Some kid, token_claims sys uid name (fetchUserRoles uid (ac_roles st)) sid)"
    by blast
  then show ?thesis
    using assms m unfolding token_current_def by (auto simp: token_claims_def lib_ok_def)
qed

lemma service_current: "lib_ok sys \<Longrightarrow> service_token sys tok \<Longrightarrow> token_current sys used st tok"
  unfolding service_token_def token_current_def
  by (auto dest!: token_claims_decode simp: token_claims_def)

lemma token_current_step:
  assumes "token_current sys used st tok" "keeps ids st st'" "roles_stay st st'" "ids \<inter> used = {}" "user_ids st \<subseteq> used"
  shows "token_current sys (used \<union> ids) st' tok"
proof -
  from assms(1) obtain kid c where d: "sy_decode sys tok = Some (Some kid, c)"
    and cases: "RoleServiceAccount \<in> set (jc_roles c) \<or> (\<exists>sid. sy_parse_uuid sys (jc_id c) = Some sid \<and> sid \<in> used
      \<and> jc_user c \<in> used \<and> (\<forall>u. (sid, u) \<in> live_rows st \<longrightarrow> u = jc_user c
                 \<and> (u \<in> user_ids st \<longrightarrow> jc_roles c = fetchUserRoles u (ac_roles st))))"
    unfolding token_current_def by blast
  have "u = jc_user c \<and> (u \<in> user_ids st' \<longrightarrow> jc_roles c = fetchUserRoles u (ac_roles st'))"
    if sid: "sid \<in> used" "jc_user c \<in> used" "(sid, u) \<in> live_rows st'"
      and old: "\<forall>u. (sid, u) \<in> live_rows st \<longrightarrow> u = jc_user c \<and> (u \<in> user_ids st \<longrightarrow> jc_roles c = fetchUserRoles u (ac_roles st))"
    for sid u
  proof -
    have "(sid, u) \<in> live_rows st"
      using assms(2,4) sid unfolding keeps_def by fastforce
    with old have u: "u = jc_user c" "u \<in> user_ids st \<longrightarrow> jc_roles c = fetchUserRoles u (ac_roles st)"
      by blast+
    moreover have "u \<in> user_ids st" if "u \<in> user_ids st'"
      using that assms(2,4) sid(2) u(1) unfolding keeps_def by blast
    moreover have "fetchUserRoles u (ac_roles st') = fetchUserRoles u (ac_roles st)"
      if "u \<in> user_ids st" "u \<in> user_ids st'"
      using assms(3) that sid(3) unfolding roles_stay_def by blast
    ultimately show ?thesis
      by auto
  qed
  with cases d show ?thesis
    unfolding token_current_def by blast
qed

lemma account_run_inv:
  assumes "account_run sys pol allowed (st0, toks0, used0) c"
    and "accounts_ok used0 st0" "policy_ok pol" "lib_ok sys" "\<And>op. allowed op \<Longrightarrow> revocation_works op"
    and "\<forall>tok\<in>set toks0. token_current sys used0 st0 tok"
  shows "case c of (st, toks, used) \<Rightarrow> accounts_ok used st \<and> (\<forall>tok\<in>set toks. token_current sys used st tok)"
  using assms(1)
proof (induction rule: account_run.induct)
  case run_start
  with assms show ?case
    by simp
next
  case (run_step st toks used op st' new)
  then have ok: "accounts_ok used st" and toks: "\<forall>tok\<in>set toks. token_current sys used st tok"
    by auto
  have fresh: "set (op_ids op) \<inter> set (session_ids st) = {}" "set (op_ids op) \<inter> used = {}"
    using run_step.hyps(3) ok unfolding fresh_ids_def accounts_ok_def by blast+
  have e: "distinct (session_ids st)" "roles_ok (ac_roles st)" "user_ids st \<subseteq> used" "set (session_ids st) \<subseteq> used"
    using ok unfolding accounts_ok_def by blast+
  note eff = effect_step [OF run_step.hyps(4) assms(3) fresh(1) e(1,2)]
  have ok': "accounts_ok (used \<union> set (op_ids op)) st'"
    using eff(1) e unfolding accounts_ok_def keeps_def by blast
  have "token_current sys (used \<union> set (op_ids op)) st' tok" if "tok \<in> set (toks @ new)" for tok
  proof (cases "tok \<in> set toks")
    case True
    then show ?thesis
      using toks token_current_step [OF _ eff(1) eff(2) fresh(2) e(3)] assms(5) [OF run_step.hyps(2)] by blast
  next
    case False
    with that have "tok \<in> set new"
      by simp
    from eff(3) [OF this] show ?thesis
      using service_current [OF assms(4)] minted_current [OF assms(4)] e(4) ok'
      unfolding accounts_ok_def by blast
  qed
  with ok' show ?case
    by simp
qed

lemma check_user_session_None:
  assumes "check_user_session env c sid st = None"
  shows "(\<exists>u. (sid, u) \<in> live_rows st) \<and> jc_user c \<in> user_ids st"
proof -
  have "IsSessionRevoked env sid st = Inr False"
    using assms by (auto simp: check_user_session_def split: sum.splits store_error.splits bool.splits)
  then obtain s where "find (\<lambda>s. se_id s = sid) (ac_sessions st) = Some s" "\<not> se_revoked s"
    by (auto simp: IsSessionRevoked_def split: if_splits option.splits)
  then have "(sid, se_user s) \<in> live_rows st"
    by (auto simp: live_rows_def dest!: find_in_set)
  moreover have "\<exists>u. Read env (jc_user c) st = Inr u"
    using assms by (auto simp: check_user_session_def split: sum.splits store_error.splits bool.splits)
  then have "jc_user c \<in> user_ids st"
    using read_user_Inr [of env StRead "\<lambda>r. ur_id r = jc_user c" st]
    by (auto simp: Read_def scan_user_def user_ids_def)
  ultimately show ?thesis
    by blast
qed

lemma ValidateSession_Inr:
  assumes "ValidateSession sys env tok st = Inr c"
  shows "(\<exists>kid. sy_decode sys tok = Some (Some kid, c)) \<and> (\<exists>sid. sy_parse_uuid sys (jc_id c) = Some sid
    \<and> (if RoleServiceAccount \<in> set (jc_roles c) then sy_has_clients sys \<and> check_client env sid st = None
       else check_user_session env c sid st = None))"
proof -
  have v: "ValidateToken sys (en_now env) tok = Some c"
    using assms by (auto simp: ValidateSession_def split: option.splits if_splits)
  then have "\<exists>kid. sy_decode sys tok = Some (Some kid, c)"
    by (auto simp: ValidateToken_def validateAsymmetric_def split: option.splits prod.splits if_splits)
  moreover have "\<exists>sid. sy_parse_uuid sys (jc_id c) = Some sid
    \<and> (if RoleServiceAccount \<in> set (jc_roles c) then sy_has_clients sys \<and> check_client env sid st = None
       else check_user_session env c sid st = None)"
    using assms v by (auto simp: ValidateSession_def split: option.splits if_splits)
  ultimately show ?thesis
    by blast
qed

section \<open>Properties\<close>

text \<open>C38: an accepted user token carries the present roles.  Take any run in which no update of an account
  fails to revoke its sessions, and a token that was handed out during the run and is not a service
  account's (its roles do not contain the service role).  If the session check accepts it, it names a
  session row that is not revoked and an account that exists, and its roles are exactly those of the
  account now.\<close>

theorem accepted_tokens_carry_current_roles:
  assumes "account_run sys pol revocation_works (st0, [], used0) (st, toks, used)"
    and "accounts_ok used0 st0" and "policy_ok pol" and "lib_ok sys"
    and "tok \<in> set toks" and "ValidateSession sys env tok st = Inr c" and "RoleServiceAccount \<notin> set (jc_roles c)"
  shows "\<exists>sid. sy_parse_uuid sys (jc_id c) = Some sid \<and> (sid, jc_user c) \<in> live_rows st
    \<and> jc_user c \<in> user_ids st \<and> jc_roles c = fetchUserRoles (jc_user c) (ac_roles st)"
proof -
  have cur: "token_current sys used st tok"
    using account_run_inv [OF assms(1-4)] assms(5) by simp
  from ValidateSession_Inr [OF assms(6)] assms(7) obtain kid sid
    where d: "sy_decode sys tok = Some (Some kid, c)" and sid: "sy_parse_uuid sys (jc_id c) = Some sid"
      and ck: "check_user_session env c sid st = None"
    by auto
  from cur d sid assms(7) check_user_session_None [OF ck] show ?thesis
    unfolding token_current_def by (metis option.inject prod.inject)
qed

lemma example_lib_ok: "lib_ok example_system"
  by (simp add: lib_ok_def example_system_def decode_encode)

lemma example_accounts_ok: "accounts_ok {7} example_accounts"
  by (simp add: accounts_ok_def user_ids_def session_ids_def roles_ok_def plain_role_def account_roles
      example_accounts_def example_alice_def)

lemma example_validates:
  assumes "ac_users st' = [example_alice\<lparr>ur_last_step := 2\<rparr>]" "ac_roles st' = [(7, ''user'')]"
    and "ac_sessions st' = [new_session (example_call 9 60000000000) 7 []]"
  shows "ValidateSession example_system (example_call 0 60000000001)
      (encode_claims ''k1'' (token_claims example_system 7 ''alice'' [''user''] 9)) st'
    = Inr (token_claims example_system 7 ''alice'' [''user''] 9)"
  using assms
  by (simp add: ValidateSession_def ValidateToken_def validateAsymmetric_def validateCommonClaims_def decode_encode
      check_user_session_def IsSessionRevoked_def Read_def read_user_def new_session_def token_claims_def
      example_system_def example_call_def example_alice_def account_roles)

lemma accepted_tokens_carry_current_roles_witness:
  "\<exists>st c. ValidateSession example_system (example_call 0 60000000001)
      (encode_claims ''k1'' (token_claims example_system 7 ''alice'' [''user''] 9)) st = Inr c
    \<and> jc_roles c = fetchUserRoles 7 (ac_roles st)"
proof -
  from example_login obtain a st' where login:
      "AuthenticateUser example_system (example_call 9 60000000000) ''alice'' ''pw'' ''222222'' example_accounts = (Inr a, st')"
    and a: "ar_token a = encode_claims ''k1'' (token_claims example_system 7 ''alice'' [''user''] 9)"
    and st': "ac_users st' = [example_alice\<lparr>ur_last_step := 2\<rparr>]" "ac_roles st' = [(7, ''user'')]"
      "ac_sessions st' = [new_session (example_call 9 60000000000) 7 []]"
    by blast
  have eff: "account_effect example_system None (DoLogin (example_call 9 60000000000) ''alice'' ''pw'' ''222222'') example_accounts
      = (st', [ar_token a])"
    using login by simp
  have "account_run example_system None revocation_works (example_accounts, [], {7})
      (st', [] @ [ar_token a], {7} \<union> set (op_ids (DoLogin (example_call 9 60000000000) ''alice'' ''pw'' ''222222'')))"
    by (rule run_step [OF run_start _ _ eff]) (simp_all add: fresh_ids_def example_call_def)
  from accepted_tokens_carry_current_roles [OF this [simplified append_Nil] example_accounts_ok policy_ok_nil
      example_lib_ok _ example_validates [OF st', folded a]]
  have "fetchUserRoles 7 (ac_roles st') = [''user'']"
    by (auto simp: token_claims_def account_roles a)
  then show ?thesis
    using example_validates [OF st']
    by (intro exI [of _ st'] exI [of _ "token_claims example_system 7 ''alice'' [''user''] 9"])
      (simp add: token_claims_def)
qed

end
