(* ===== verification/SecretTables.thy ===== *)
theory SecretTables
  imports Scope ItemLifecycle VaultRepository
begin

text \<open>
  Secrets, their tags and their archived versions in the database: \<open>src/model/secret.go\<close>,
  \<open>src/internal/repositories/secret_repository.go\<close>, \<open>tag_repository.go\<close> and
  \<open>versioning_repository.go\<close>.

  The rows of \<open>secrets\<close> and \<open>secret_tags\<close> are an item table of \<open>ItemLifecycle\<close> whose other columns are
  \<open>secret_body\<close>; values are encrypted.  The id of a version row is left out: nothing reads it.
  The users the user repository finds and the vaults are part of the state, read only.  SQLite
  runs without foreign keys; where they are enforced (\<open>fk\<close>), a purge takes the version rows along.
\<close>

section \<open>Rows and entities\<close>

record secret_body =
  sb_user :: uuid
  sb_name :: go_string
  sb_value :: go_string
  sb_version :: int
  sb_created :: instant
  sb_type :: go_string
  sb_enabled :: bool
  sb_expires :: "instant option"
  sb_not_before :: "instant option"

record secret =
  sr_id :: uuid
  sr_user :: uuid
  sr_vault :: uuid
  sr_name :: go_string
  sr_value :: go_string
  sr_version :: int
  sr_tags :: "go_string list"
  sr_created :: instant
  sr_deleted :: "instant option"
  sr_protected :: bool
  sr_expires :: "instant option"
  sr_not_before :: "instant option"
  sr_enabled :: bool
  sr_type :: go_string

record secret_version =
  sv_secret :: uuid
  sv_user :: uuid
  sv_name :: go_string
  sv_value :: go_string
  sv_version :: int
  sv_created :: instant

definition IsExpired :: "instant \<Rightarrow> secret \<Rightarrow> bool" where
  "IsExpired now s = (case sr_expires s of None \<Rightarrow> False | Some t \<Rightarrow> now > t)"

definition IsActive :: "instant \<Rightarrow> secret \<Rightarrow> bool" where
  "IsActive now s = (case sr_not_before s of None \<Rightarrow> True | Some t \<Rightarrow> now > t)"

definition IsAccessible :: "instant \<Rightarrow> secret \<Rightarrow> bool" where
  "IsAccessible now s \<longleftrightarrow> sr_deleted s = None \<and> sr_enabled s \<and> IsActive now s \<and> \<not> IsExpired now s"

record secret_db =
  sd_items :: "secret_body item_table"
  sd_versions :: "secret_version list"
  sd_users :: "uuid list"
  sd_vaults :: vault_table

datatype secret_stmt =
    SxInsert | SxInsertTag go_string | SxRead | SxParent | SxFind | SxUpdate | SxList | SxItem item_stmt
  | SxAddTag go_string | SxRemoveTag go_string | SxClearTags | SxGetTags uuid | SxByTags
  | SxUser | SxInsertVersion | SxVersions | SxVersion | SxLatest | SxDeleteVersions | SxDeleteVersion
  | SxVault vault_row_stmt

text \<open>Whether the caller recognises the error: a missing row, a name that is taken, or anything else.\<close>

datatype secret_repo_error = RowNotFound | NameTaken | ScopeInvalid | StmtFailed

section \<open>Secrets\<close>

definition as_scoped :: "secret_body item_row \<Rightarrow> secret_body item_row scoped_row" where
  "as_scoped r = \<lparr>row_vault = it_vault r, row_user = sb_user (it_body r), row_data = r\<rparr>"

definition scanSecretRow :: "secret_body item_row scoped_row \<Rightarrow> unit + secret" where
  "scanSecretRow x =
     (let r = row_data x; b = it_body r in
      Inr \<lparr>sr_id = it_id r, sr_user = sb_user b, sr_vault = it_vault r, sr_name = sb_name b, sr_value = sb_value b,
        sr_version = sb_version b, sr_tags = [], sr_created = sb_created b, sr_deleted = it_deleted r,
        sr_protected = it_protected r, sr_expires = sb_expires b, sr_not_before = sb_not_before b,
        sr_enabled = sb_enabled b, sr_type = sb_type b\<rparr>)"

text \<open>The primary key, and the unique index on the names of a vault's active secrets.\<close>

definition name_used :: "uuid \<Rightarrow> uuid \<Rightarrow> go_string \<Rightarrow> secret_db \<Rightarrow> bool" where
  "name_used i v n db = list_ex (\<lambda>r. it_id r \<noteq> i \<and> it_vault r = v \<and> it_deleted r = None \<and> sb_name (it_body r) = n)
     (tb_rows (sd_items db))"

definition secret_clash :: "secret \<Rightarrow> secret_db \<Rightarrow> bool" where
  "secret_clash s db \<longleftrightarrow>
     list_ex (\<lambda>r. it_id r = sr_id s) (tb_rows (sd_items db)) \<or> name_used (sr_id s) (sr_vault s) (sr_name s) db"

definition new_secret_row :: "secret \<Rightarrow> secret_body item_row" where
  "new_secret_row s =
     \<lparr>it_id = sr_id s, it_vault = sr_vault s, it_deleted = None, it_scheduled = None, it_protected = False,
      it_body = \<lparr>sb_user = sr_user s, sb_name = sr_name s, sb_value = sr_value s, sb_version = sr_version s,
        sb_created = sr_created s, sb_type = sr_type s, sb_enabled = sr_enabled s, sb_expires = sr_expires s,
        sb_not_before = sr_not_before s\<rparr>\<rparr>"

text \<open>One statement per tag; a tag given twice violates the primary key of \<open>secret_tags\<close>.\<close>

fun insert_tags ::
  "(secret_stmt \<Rightarrow> bool) \<Rightarrow> uuid \<Rightarrow> go_string list \<Rightarrow> 'b item_table \<Rightarrow> secret_repo_error option \<times> 'b item_table" where
  "insert_tags fails i [] t = (None, t)"
| "insert_tags fails i (x # xs) t =
     (if fails (SxInsertTag x) \<or> (i, x) \<in> set (tb_tags t) then (Some StmtFailed, t)
      else insert_tags fails i xs (t\<lparr>tb_tags := tb_tags t @ [(i, x)]\<rparr>))"

definition secret_create ::
  "(secret_stmt \<Rightarrow> bool) \<Rightarrow> secret \<Rightarrow> secret_db \<Rightarrow> secret_repo_error option \<times> secret_db" where
  "secret_create fails s db =
     (if fails SxInsert then (Some StmtFailed, db)
      else if secret_clash s db then (Some NameTaken, db)
      else
        let t = (sd_items db)\<lparr>tb_rows := tb_rows (sd_items db) @ [new_secret_row s]\<rparr> in
        case insert_tags fails (sr_id s) (sr_tags s) t of (e, t') \<Rightarrow> (e, db\<lparr>sd_items := t'\<rparr>))"

definition secret_read ::
  "(secret_stmt \<Rightarrow> bool) \<Rightarrow> secret_stmt \<Rightarrow> uuid \<Rightarrow> scope \<Rightarrow> secret_db \<Rightarrow> secret_repo_error + secret" where
  "secret_read fails stmt i scope db =
     (case ScopedGet (fails stmt) (\<lambda>x. it_id (row_data x) = i \<and> it_deleted (row_data x) = None) scope scanSecretRow
         (map as_scoped (tb_rows (sd_items db))) of
        Inl (ErrInvalidScope _) \<Rightarrow> Inl ScopeInvalid
      | Inl ErrNoRows \<Rightarrow> Inl RowNotFound
      | Inl _ \<Rightarrow> Inl StmtFailed
      | Inr s \<Rightarrow> Inr s)"

definition secret_find_by_name ::
  "(secret_stmt \<Rightarrow> bool) \<Rightarrow> go_string \<Rightarrow> scope \<Rightarrow> secret_db \<Rightarrow> secret_repo_error + secret" where
  "secret_find_by_name fails n scope db =
     (case ScopedGet (fails SxFind) (\<lambda>x. sb_name (it_body (row_data x)) = n \<and> it_deleted (row_data x) = None) scope
         scanSecretRow (map as_scoped (tb_rows (sd_items db))) of
        Inl (ErrInvalidScope _) \<Rightarrow> Inl ScopeInvalid
      | Inl ErrNoRows \<Rightarrow> Inl RowNotFound
      | Inl _ \<Rightarrow> Inl StmtFailed
      | Inr s \<Rightarrow> Inr s)"

definition write_body :: "secret \<Rightarrow> secret_body item_row scoped_row \<Rightarrow> secret_body item_row scoped_row option" where
  "write_body s x =
     (let r = row_data x in
      Some (x\<lparr>row_data := r\<lparr>it_body := (it_body r)\<lparr>sb_name := sr_name s, sb_value := sr_value s,
        sb_version := sr_version s, sb_type := sr_type s, sb_enabled := sr_enabled s,
        sb_expires := sr_expires s, sb_not_before := sr_not_before s\<rparr>\<rparr>\<rparr>))"

text \<open>An update that renames an active secret to the name of another active one of its vault is refused.\<close>

definition rename_clash :: "secret \<Rightarrow> secret_db \<Rightarrow> bool" where
  "rename_clash s db = list_ex (\<lambda>r. it_id r = sr_id s \<and> it_deleted r = None
     \<and> name_used (sr_id s) (it_vault r) (sr_name s) db) (tb_rows (sd_items db))"

definition secret_update ::
  "(secret_stmt \<Rightarrow> bool) \<Rightarrow> secret \<Rightarrow> scope \<Rightarrow> secret_db \<Rightarrow> secret_repo_error option \<times> secret_db" where
  "secret_update fails s scope db =
     (case ScopedExec (fails SxUpdate \<or> rename_clash s db) (\<lambda>x. it_id (row_data x) = sr_id s) (write_body s) scope
         (map as_scoped (tb_rows (sd_items db)) ) of
        (Inl (ErrInvalidScope _), _) \<Rightarrow> (Some ScopeInvalid, db)
      | (Inl (_ :: unit scoped_error), _) \<Rightarrow> (Some StmtFailed, db)
      | (Inr n, rows) \<Rightarrow>
          let db' = db\<lparr>sd_items := (sd_items db)\<lparr>tb_rows := map row_data rows\<rparr>\<rparr> in
          if n = 0 then (Some RowNotFound, db') else (None, db'))"

record secret_filter =
  sf_tags :: "go_string list"
  sf_include_deleted :: bool
  sf_only_deleted :: bool
  sf_limit :: int
  sf_offset :: int

text \<open>\<open>ORDER BY name\<close>, \<open>LIMIT\<close> and \<open>OFFSET\<close>; \<open>sf_tags\<close> is not looked at.\<close>

definition secret_list ::
  "(secret_stmt \<Rightarrow> bool) \<Rightarrow> scope \<Rightarrow> secret_filter \<Rightarrow> secret_db \<Rightarrow> secret_repo_error + secret list" where
  "secret_list fails scope flt db =
     (let wh = (\<lambda>x. if sf_only_deleted flt then it_deleted (row_data x) \<noteq> None
                else if sf_include_deleted flt then True else it_deleted (row_data x) = None);
          page = (\<lambda>rows. if sf_limit flt > 0 then take (nat (sf_limit flt)) (drop (nat (sf_offset flt)) rows) else rows) in
      case ScopedList (fails SxList) wh scope (\<lambda>rows. page (sort_key (\<lambda>x. sb_name (it_body (row_data x))) rows))
          scanSecretRow (map as_scoped (tb_rows (sd_items db))) of
        Inl (ErrInvalidScope _) \<Rightarrow> Inl ScopeInvalid
      | Inl _ \<Rightarrow> Inl StmtFailed
      | Inr ss \<Rightarrow> Inr ss)"

definition on_secret_items ::
  "(secret_body item_table \<Rightarrow> secret_body item_table item_result) \<Rightarrow> secret_db \<Rightarrow> item_error option \<times> secret_db" where
  "on_secret_items f db = (case f (sd_items db) of (e, t) \<Rightarrow> (e, db\<lparr>sd_items := t\<rparr>))"

definition secret_soft_delete ::
  "(secret_stmt \<Rightarrow> bool) \<Rightarrow> instant \<Rightarrow> uuid \<Rightarrow> secret_db \<Rightarrow> item_error option \<times> secret_db" where
  "secret_soft_delete fails now i = on_secret_items (softDeleteItem (fails \<circ> SxItem) now i)"

text \<open>A recovery that would make two active secrets of a vault have one name is refused by the index.\<close>

definition recover_clash :: "uuid \<Rightarrow> secret_db \<Rightarrow> bool" where
  "recover_clash i db = list_ex (\<lambda>r. it_id r = i \<and> it_deleted r \<noteq> None \<and> name_used i (it_vault r) (sb_name (it_body r)) db)
     (tb_rows (sd_items db))"

definition secret_recover :: "(secret_stmt \<Rightarrow> bool) \<Rightarrow> uuid \<Rightarrow> secret_db \<Rightarrow> item_error option \<times> secret_db" where
  "secret_recover fails i db =
     on_secret_items (recoverItem (\<lambda>s. fails (SxItem s) \<or> (s = ItUpdate \<and> recover_clash i db)) i) db"

definition secret_protect ::
  "(secret_stmt \<Rightarrow> bool) \<Rightarrow> uuid \<Rightarrow> bool \<Rightarrow> secret_db \<Rightarrow> item_error option \<times> secret_db" where
  "secret_protect fails i b = on_secret_items (setPurgeProtectionItem (fails \<circ> SxItem) (crud Secrets) i b)"

definition cascade_versions :: "bool \<Rightarrow> uuid \<Rightarrow> item_error option \<times> secret_db \<Rightarrow> item_error option \<times> secret_db" where
  "cascade_versions fk i r =
     (case r of (e, db) \<Rightarrow>
        (e, if fk \<and> e = None then db\<lparr>sd_versions := filter (\<lambda>v. sv_secret v \<noteq> i) (sd_versions db)\<rparr> else db))"

definition secret_purge :: "bool \<Rightarrow> (secret_stmt \<Rightarrow> bool) \<Rightarrow> uuid \<Rightarrow> secret_db \<Rightarrow> item_error option \<times> secret_db" where
  "secret_purge fk fails i db = cascade_versions fk i (on_secret_items (purgeItem (fails \<circ> SxItem) (crud Secrets) i) db)"

definition secret_delete :: "bool \<Rightarrow> (secret_stmt \<Rightarrow> bool) \<Rightarrow> uuid \<Rightarrow> secret_db \<Rightarrow> item_error option \<times> secret_db" where
  "secret_delete fk fails i db = cascade_versions fk i (on_secret_items (deleteItemWithTags (fails \<circ> SxItem) (crud Secrets) i) db)"

section \<open>Tags\<close>

fun add_tags ::
  "(secret_stmt \<Rightarrow> bool) \<Rightarrow> uuid \<Rightarrow> go_string list \<Rightarrow> 'b item_table \<Rightarrow> secret_repo_error option \<times> 'b item_table" where
  "add_tags fails i [] t = (None, t)"
| "add_tags fails i (x # xs) t =
     (if fails (SxAddTag x) then (Some StmtFailed, t)
      else add_tags fails i xs (if (i, x) \<in> set (tb_tags t) then t else t\<lparr>tb_tags := tb_tags t @ [(i, x)]\<rparr>))"

fun remove_tags ::
  "(secret_stmt \<Rightarrow> bool) \<Rightarrow> uuid \<Rightarrow> go_string list \<Rightarrow> 'b item_table \<Rightarrow> secret_repo_error option \<times> 'b item_table" where
  "remove_tags fails i [] t = (None, t)"
| "remove_tags fails i (x # xs) t =
     (if fails (SxRemoveTag x) then (Some StmtFailed, t)
      else remove_tags fails i xs (t\<lparr>tb_tags := filter (\<lambda>y. y \<noteq> (i, x)) (tb_tags t)\<rparr>))"

definition AddTags ::
  "(secret_stmt \<Rightarrow> bool) \<Rightarrow> uuid \<Rightarrow> go_string list \<Rightarrow> secret_db \<Rightarrow> secret_repo_error option \<times> secret_db" where
  "AddTags fails i tags db = (case add_tags fails i tags (sd_items db) of (e, t) \<Rightarrow> (e, db\<lparr>sd_items := t\<rparr>))"

definition RemoveTags ::
  "(secret_stmt \<Rightarrow> bool) \<Rightarrow> uuid \<Rightarrow> go_string list \<Rightarrow> secret_db \<Rightarrow> secret_repo_error option \<times> secret_db" where
  "RemoveTags fails i tags db = (case remove_tags fails i tags (sd_items db) of (e, t) \<Rightarrow> (e, db\<lparr>sd_items := t\<rparr>))"

definition RemoveAllTags ::
  "(secret_stmt \<Rightarrow> bool) \<Rightarrow> uuid \<Rightarrow> secret_db \<Rightarrow> secret_repo_error option \<times> secret_db" where
  "RemoveAllTags fails i db =
     (if fails SxClearTags then (Some StmtFailed, db)
      else (None, db\<lparr>sd_items := (sd_items db)\<lparr>tb_tags := filter (\<lambda>x. fst x \<noteq> i) (tb_tags (sd_items db))\<rparr>\<rparr>))"

definition tags_of :: "uuid \<Rightarrow> secret_db \<Rightarrow> go_string list" where
  "tags_of i db = map snd (filter (\<lambda>x. fst x = i) (tb_tags (sd_items db)))"

definition GetTags :: "(secret_stmt \<Rightarrow> bool) \<Rightarrow> uuid \<Rightarrow> secret_db \<Rightarrow> secret_repo_error + go_string list" where
  "GetTags fails i db = (if fails (SxGetTags i) then Inl StmtFailed else Inr (tags_of i db))"

definition FindSecretsByTags ::
  "(secret_stmt \<Rightarrow> bool) \<Rightarrow> uuid \<Rightarrow> go_string list \<Rightarrow> secret_db \<Rightarrow> secret_repo_error + uuid list" where
  "FindSecretsByTags fails user tags db =
     (if tags = [] then Inr []
      else if fails SxByTags then Inl StmtFailed
      else Inr (remdups (map it_id (filter (\<lambda>r. sb_user (it_body r) = user
        \<and> list_ex (\<lambda>x. x \<in> set tags) (tags_of (it_id r) db)) (tb_rows (sd_items db))))))"

section \<open>Versions\<close>

definition createVersion ::
  "(secret_stmt \<Rightarrow> bool) \<Rightarrow> secret_version \<Rightarrow> secret_db \<Rightarrow> secret_repo_error option \<times> secret_db" where
  "createVersion fails v db =
     (if fails SxInsertVersion then (Some StmtFailed, db)
      else (None, db\<lparr>sd_versions := sd_versions db @ [v]\<rparr>))"

definition versions_of :: "uuid \<Rightarrow> secret_db \<Rightarrow> secret_version list" where
  "versions_of i db = filter (\<lambda>v. sv_secret v = i) (sd_versions db)"

definition repo_GetVersions ::
  "(secret_stmt \<Rightarrow> bool) \<Rightarrow> uuid \<Rightarrow> secret_db \<Rightarrow> secret_repo_error + secret_version list" where
  "repo_GetVersions fails i db =
     (if fails SxVersions then Inl StmtFailed else Inr (sort_key (\<lambda>v. - sv_version v) (versions_of i db)))"

definition repo_GetVersion ::
  "(secret_stmt \<Rightarrow> bool) \<Rightarrow> uuid \<Rightarrow> int \<Rightarrow> secret_db \<Rightarrow> secret_repo_error + secret_version" where
  "repo_GetVersion fails i n db =
     (if fails SxVersion then Inl StmtFailed
      else case find (\<lambda>v. sv_version v = n) (versions_of i db) of None \<Rightarrow> Inl RowNotFound | Some v \<Rightarrow> Inr v)"

definition repo_GetLatestVersion ::
  "(secret_stmt \<Rightarrow> bool) \<Rightarrow> uuid \<Rightarrow> secret_db \<Rightarrow> secret_repo_error + secret_version" where
  "repo_GetLatestVersion fails i db =
     (if fails SxLatest then Inl StmtFailed
      else case sort_key (\<lambda>v. - sv_version v) (versions_of i db) of [] \<Rightarrow> Inl RowNotFound | v # _ \<Rightarrow> Inr v)"

definition repo_DeleteVersions ::
  "(secret_stmt \<Rightarrow> bool) \<Rightarrow> uuid \<Rightarrow> secret_db \<Rightarrow> secret_repo_error option \<times> secret_db" where
  "repo_DeleteVersions fails i db =
     (if fails SxDeleteVersions then (Some StmtFailed, db)
      else (None, db\<lparr>sd_versions := filter (\<lambda>v. sv_secret v \<noteq> i) (sd_versions db)\<rparr>))"

definition repo_DeleteSpecificVersion ::
  "(secret_stmt \<Rightarrow> bool) \<Rightarrow> uuid \<Rightarrow> int \<Rightarrow> secret_db \<Rightarrow> secret_repo_error option \<times> secret_db" where
  "repo_DeleteSpecificVersion fails i n db =
     (if fails SxDeleteVersion then (Some StmtFailed, db)
      else if \<not> list_ex (\<lambda>v. sv_secret v = i \<and> sv_version v = n) (sd_versions db) then (Some RowNotFound, db)
      else (None, db\<lparr>sd_versions := filter (\<lambda>v. \<not> (sv_secret v = i \<and> sv_version v = n)) (sd_versions db)\<rparr>))"

end
