(* ===== verification/CacheKit.thy ===== *)
theory CacheKit
  imports Prelude
begin

text \<open>
  The cache every domain of the server uses (\<open>src/internal/cachekit/cache.go\<close>): entries with a time to
  live, and a cap kept by removing the entries that were touched longest ago.

  The entries are a list without two of the same key; its order stands for the order in which
  \<open>sync.Map\<close> enumerates them, which decides ties among equally old entries.  Cloning and
  zeroing of values are left out: values do not share.  A cache that is switched off, or whose
  configuration is not valid, is the cache that keeps nothing (\<open>nop_cache.go\<close>).
\<close>

record cache_config =
  cc_enabled :: bool
  cc_ttl :: int
  cc_cleanup :: int
  cc_max :: int

definition ValidateConfig :: "cache_config \<Rightarrow> bool" where
  "ValidateConfig cfg \<longleftrightarrow> cc_ttl cfg > 0 \<and> cc_cleanup cfg > 0 \<and> cc_cleanup cfg < cc_ttl cfg \<and> cc_max cfg \<ge> 0"

definition live_cache :: "cache_config \<Rightarrow> bool" where
  "live_cache cfg \<longleftrightarrow> cc_enabled cfg \<and> ValidateConfig cfg"

record ('k, 'v) cache_entry =
  ce_key :: 'k
  ce_value :: 'v
  ce_expires :: instant
  ce_access :: instant

type_synonym ('k, 'v) cache = "('k, 'v) cache_entry list"

definition remove_key :: "'k \<Rightarrow> ('k, 'v) cache \<Rightarrow> ('k, 'v) cache" where
  "remove_key k c = filter (\<lambda>e. ce_key e \<noteq> k) c"

definition cache_get :: "cache_config \<Rightarrow> instant \<Rightarrow> 'k \<Rightarrow> ('k, 'v) cache \<Rightarrow> 'v option \<times> ('k, 'v) cache" where
  "cache_get cfg now k c =
     (if \<not> live_cache cfg then (None, c)
      else case find (\<lambda>e. ce_key e = k) c of
        None \<Rightarrow> (None, c)
      | Some e \<Rightarrow>
          if now > ce_expires e then (None, remove_key k c)
          else (Some (ce_value e), map (\<lambda>e. if ce_key e = k then e\<lparr>ce_access := now\<rparr> else e) c))"

definition evictLRU :: "cache_config \<Rightarrow> ('k, 'v) cache \<Rightarrow> ('k, 'v) cache" where
  "evictLRU cfg c =
     (let over = int (length c) - cc_max cfg in
      if over \<le> 0 then c
      else let candidates = sort_key ce_access c;
               n = min (nat over) (length candidates) in
           fold (\<lambda>e. remove_key (ce_key e)) (take n candidates) c)"

definition cache_set :: "cache_config \<Rightarrow> instant \<Rightarrow> 'k \<Rightarrow> 'v \<Rightarrow> ('k, 'v) cache \<Rightarrow> ('k, 'v) cache" where
  "cache_set cfg now k v c =
     (if \<not> live_cache cfg then c
      else
        let e = \<lparr>ce_key = k, ce_value = v, ce_expires = now + cc_ttl cfg, ce_access = now\<rparr>;
            c' = (if k \<in> ce_key ` set c then map (\<lambda>x. if ce_key x = k then e else x) c else c @ [e]) in
        if cc_max cfg > 0 \<and> int (length c') > cc_max cfg then evictLRU cfg c' else c')"

definition cache_invalidate :: "'k \<Rightarrow> ('k, 'v) cache \<Rightarrow> ('k, 'v) cache" where
  "cache_invalidate k c = remove_key k c"

definition cache_invalidate_all :: "('k, 'v) cache \<Rightarrow> ('k, 'v) cache" where
  "cache_invalidate_all c = fold (\<lambda>e. remove_key (ce_key e)) c c"

definition expired_sweep :: "instant \<Rightarrow> ('k, 'v) cache \<Rightarrow> ('k, 'v) cache" where
  "expired_sweep now c = fold (\<lambda>e c. if now > ce_expires e then remove_key (ce_key e) c else c) c c"

definition cache_stats :: "instant \<Rightarrow> ('k, 'v) cache \<Rightarrow> nat \<times> nat" where
  "cache_stats now c = (length c, length (filter (\<lambda>e. now > ce_expires e) c))"

section \<open>What it keeps\<close>

text \<open>The abstract view of a cache: its value for a key.\<close>

definition cache_view :: "('k, 'v) cache \<Rightarrow> 'k \<Rightarrow> 'v option" where
  "cache_view c k = map_option ce_value (find (\<lambda>e. ce_key e = k) c)"

definition cache_wf :: "cache_config \<Rightarrow> ('k, 'v) cache \<Rightarrow> bool" where
  "cache_wf cfg c \<longleftrightarrow> distinct (map ce_key c) \<and> (\<not> live_cache cfg \<longrightarrow> c = [])
     \<and> (cc_max cfg > 0 \<longrightarrow> int (length c) \<le> cc_max cfg)"

lemma cache_view_Nil [simp]: "cache_view [] = Map.empty"
  by (simp add: cache_view_def fun_eq_iff)

lemma fold_remove: "fold (\<lambda>e. remove_key (ce_key e)) es c = filter (\<lambda>e. ce_key e \<notin> ce_key ` set es) c"
  by (induction es arbitrary: c) (auto simp: remove_key_def intro!: filter_cong)

lemma cache_invalidate_all_empty [simp]: "cache_invalidate_all c = []"
  by (simp add: cache_invalidate_all_def fold_remove)

lemma find_filter_key:
  "find (\<lambda>e. ce_key e = k) (filter (\<lambda>e. P (ce_key e)) c) = (if P k then find (\<lambda>e. ce_key e = k) c else None)"
  by (induction c) auto

lemma cache_view_remove: "cache_view (filter (\<lambda>e. P (ce_key e)) c) k = (if P k then cache_view c k else None)"
  by (simp add: cache_view_def find_filter_key)

lemma cache_view_invalidate [simp]: "cache_view (cache_invalidate k c) = (cache_view c)(k := None)"
  by (auto simp: cache_invalidate_def remove_key_def cache_view_remove [of "\<lambda>x. x \<noteq> k"])

lemma find_map_key:
  assumes "\<And>e. ce_key (f e) = ce_key e"
  shows "find (\<lambda>e. ce_key e = k) (map f c) = map_option f (find (\<lambda>e. ce_key e = k) c)"
  by (induction c) (auto simp: assms)

lemma map_le_remove: "cache_view (filter (\<lambda>e. P (ce_key e)) c) \<subseteq>\<^sub>m cache_view c"
  by (auto simp: map_le_def cache_view_remove split: if_splits)

lemma cache_filter_wf: "cache_wf cfg c \<Longrightarrow> cache_wf cfg (filter P c)"
  using length_filter_le [of P c] unfolding cache_wf_def by (auto simp: distinct_map_filter simp del: length_filter_le)

lemma cache_get_view:
  assumes "cache_get cfg now k c = (r, c')"
  shows "cache_view c' \<subseteq>\<^sub>m cache_view c" "r = Some v \<Longrightarrow> cache_view c k = Some v" "cache_wf cfg c \<Longrightarrow> cache_wf cfg c'"
proof -
  have touch: "cache_view (map (\<lambda>e. if ce_key e = k then e\<lparr>ce_access := now\<rparr> else e) c) = cache_view c"
    by (rule ext) (auto simp: cache_view_def find_map_key option.map_comp comp_def intro!: map_option_cong)
  have keys: "map ce_key (map (\<lambda>e. if ce_key e = k then e\<lparr>ce_access := now\<rparr> else e) c) = map ce_key c"
    by simp
  show "cache_view c' \<subseteq>\<^sub>m cache_view c"
    using assms touch map_le_remove [of "\<lambda>x. x \<noteq> k" c]
    by (auto simp: cache_get_def remove_key_def split: if_splits option.splits)
  show "r = Some v \<Longrightarrow> cache_view c k = Some v"
    using assms by (auto simp: cache_get_def cache_view_def split: if_splits option.splits)
  show "cache_wf cfg c'" if wf: "cache_wf cfg c"
  proof -
    have "cache_wf cfg (map (\<lambda>e. if ce_key e = k then e\<lparr>ce_access := now\<rparr> else e) c)"
      using wf unfolding cache_wf_def keys by simp
    moreover have "cache_wf cfg (remove_key k c)"
      unfolding remove_key_def by (rule cache_filter_wf [OF wf])
    ultimately show ?thesis
      using assms wf by (auto simp: cache_get_def split: if_splits option.splits)
  qed
qed

lemma evictLRU_filter: "\<exists>ks. evictLRU cfg c = filter (\<lambda>e. ce_key e \<notin> ks) c"
  by (auto simp: evictLRU_def Let_def fold_remove intro: exI [of _ "{}"])

lemma evictLRU_length:
  assumes "distinct (map ce_key c)" "cc_max cfg > 0"
  shows "int (length (evictLRU cfg c)) \<le> cc_max cfg"
proof (cases "int (length c) \<le> cc_max cfg")
  case True
  then show ?thesis
    by (simp add: evictLRU_def)
next
  case False
  define n where "n = nat (int (length c) - cc_max cfg)"
  define ks where "ks = ce_key ` set (take n (sort_key ce_access c))"
  have n: "n \<le> length c"
    using assms(2) by (simp add: n_def)
  have ev: "evictLRU cfg c = filter (\<lambda>e. ce_key e \<notin> ks) c"
    using False n by (simp add: evictLRU_def Let_def fold_remove ks_def n_def)
  have "distinct (map ce_key (sort_key ce_access c))"
    using assms(1) by (simp add: distinct_map)
  then have "distinct (take n (map ce_key (sort_key ce_access c)))"
    by simp
  then have card: "card ks = n"
    using n unfolding ks_def by (metis distinct_card length_map length_sort length_take list.set_map min.absorb2 take_map)
  have sub: "ks \<subseteq> set (map ce_key c)"
    using set_take_subset [of n "sort_key ce_access c"] by (auto simp: ks_def)
  have "length (filter (\<lambda>k. k \<notin> ks) (map ce_key c)) = card (set (map ce_key c) - ks)"
    using assms(1) by (subst distinct_card [symmetric]) (auto intro: arg_cong [of _ _ card])
  also have "\<dots> = length c - n"
    using card sub assms(1) distinct_card [of "map ce_key c"] by (simp add: card_Diff_subset finite_subset [OF sub])
  finally show ?thesis
    using ev False assms(2) by (simp add: filter_map comp_def n_def)
qed

text \<open>Storing replaces the value of its key and may lose others, never changes them.\<close>

lemma find_append: "find P (xs @ ys) = (case find P xs of None \<Rightarrow> find P ys | Some x \<Rightarrow> Some x)"
  by (induction xs) auto

lemma cache_set_view:
  assumes "cache_wf cfg c"
  shows "cache_view (cache_set cfg now k v c) \<subseteq>\<^sub>m (cache_view c)(k \<mapsto> v)" "cache_wf cfg (cache_set cfg now k v c)"
proof -
  define e where "e = \<lparr>ce_key = k, ce_value = v, ce_expires = now + cc_ttl cfg, ce_access = now\<rparr>"
  define c1 where "c1 = (if k \<in> ce_key ` set c then map (\<lambda>x. if ce_key x = k then e else x) c else c @ [e])"
  have e: "ce_key e = k" "ce_value e = v"
    by (simp_all add: e_def)
  have view1: "cache_view c1 = (cache_view c)(k \<mapsto> v)"
  proof (cases "k \<in> ce_key ` set c")
    case True
    then obtain x where "find (\<lambda>e. ce_key e = k) c = Some x"
      by (metis (mono_tags, lifting) find_None_iff image_iff not_None_eq)
    moreover have "find (\<lambda>e. ce_key e = k') c1 = map_option (\<lambda>x. if ce_key x = k then e else x) (find (\<lambda>e. ce_key e = k') c)" for k'
      using True unfolding c1_def by (simp add: find_map_key e)
    ultimately show ?thesis
      by (auto simp: cache_view_def fun_eq_iff e option.map_comp comp_def find_Some_iff intro!: map_option_cong)
  next
    case False
    then have "find (\<lambda>e. ce_key e = k) c = None"
      by (auto simp: find_None_iff)
    with False show ?thesis
      by (auto simp: cache_view_def c1_def find_append e fun_eq_iff split: option.splits)
  qed
  have "map ce_key c1 = (if k \<in> ce_key ` set c then map ce_key c else map ce_key c @ [k])"
    using e by (auto simp: c1_def)
  then have dist: "distinct (map ce_key c1)"
    using assms by (auto simp: cache_wf_def)
  have set_eq: "cache_set cfg now k v c =
      (if \<not> live_cache cfg then c else if cc_max cfg > 0 \<and> int (length c1) > cc_max cfg then evictLRU cfg c1 else c1)"
    unfolding cache_set_def Let_def e_def [symmetric] c1_def [symmetric] by simp
  obtain ks where ev: "evictLRU cfg c1 = filter (\<lambda>e. ce_key e \<notin> ks) c1"
    using evictLRU_filter by blast
  show "cache_view (cache_set cfg now k v c) \<subseteq>\<^sub>m (cache_view c)(k \<mapsto> v)"
    using assms view1 map_le_remove [of "\<lambda>x. x \<notin> ks" c1] by (auto simp: set_eq ev cache_wf_def)
  show "cache_wf cfg (cache_set cfg now k v c)"
    using assms dist evictLRU_length [OF dist, of cfg, unfolded ev] by (auto simp: set_eq cache_wf_def ev distinct_map_filter)
qed

section \<open>The contract\<close>

text \<open>
  What a client may rely on: a cache loses entries, it does not invent them.  A property of every entry
  is kept by reads, by storing an entry that has it, and by removal.
\<close>

locale lossy_cache =
  fixes view :: "'c \<Rightarrow> 'k \<Rightarrow> 'v option"
    and wf :: "'c \<Rightarrow> bool"
    and get :: "instant \<Rightarrow> 'k \<Rightarrow> 'c \<Rightarrow> 'v option \<times> 'c"
    and put :: "instant \<Rightarrow> 'k \<Rightarrow> 'v \<Rightarrow> 'c \<Rightarrow> 'c"
  assumes get_hit: "wf c \<Longrightarrow> get now k c = (Some v, c') \<Longrightarrow> view c k = Some v"
    and get_loses: "wf c \<Longrightarrow> get now k c = (r, c') \<Longrightarrow> wf c' \<and> view c' \<subseteq>\<^sub>m view c"
    and put_loses: "wf c \<Longrightarrow> wf (put now k v c) \<and> view (put now k v c) \<subseteq>\<^sub>m (view c)(k \<mapsto> v)"
begin

definition entries_ok :: "('k \<Rightarrow> 'v \<Rightarrow> bool) \<Rightarrow> 'c \<Rightarrow> bool" where
  "entries_ok P c \<longleftrightarrow> wf c \<and> (\<forall>k v. view c k = Some v \<longrightarrow> P k v)"

lemma entries_ok_get: "entries_ok P c \<Longrightarrow> get now k c = (r, c') \<Longrightarrow> entries_ok P c'"
  using get_loses unfolding entries_ok_def map_le_def by (metis domI)

lemma entries_ok_hit: "entries_ok P c \<Longrightarrow> get now k c = (Some v, c') \<Longrightarrow> P k v"
  using get_hit unfolding entries_ok_def by blast

lemma entries_ok_put: "entries_ok P c \<Longrightarrow> P k v \<Longrightarrow> entries_ok P (put now k v c)"
  using put_loses [of c now k v] unfolding entries_ok_def map_le_def
  by (metis domI fun_upd_apply option.inject)

end

interpretation cached: lossy_cache cache_view "cache_wf cfg" "cache_get cfg" "cache_set cfg"
  by unfold_locales (blast intro: cache_get_view(2) [OF _ refl] cache_get_view(1,3) cache_set_view)+

lemma entries_ok_filter:
  assumes "cached.entries_ok cfg P c" "\<And>k v. P k v \<Longrightarrow> R k \<Longrightarrow> Q k v"
  shows "cached.entries_ok cfg Q (filter (\<lambda>e. R (ce_key e)) c)"
  using assms unfolding cached.entries_ok_def by (auto simp: cache_filter_wf cache_view_remove split: if_splits)

end
