(* ===== verification/SecretCache.thy ===== *)
theory SecretCache
  imports SecretTables CacheKit CriticalAudit
begin

text \<open>
  The cache of decrypted secrets (\<open>src/internal/cache/secret_cache.go\<close>) over \<open>CacheKit\<close>, and the state and
  surroundings the secret services share.

  A key is made of the scope of the read and the secret's id; \<open>show\<close> is \<open>uuid.String\<close>.  The second tier
  (\<open>NewSecretCacheWithL2\<close>, an external server) is left out.
\<close>

definition scopeCacheKey :: "(uuid \<Rightarrow> go_string) \<Rightarrow> uuid \<Rightarrow> scope \<Rightarrow> go_string option" where
  "scopeCacheKey show i scope =
     (if Validate scope \<noteq> None then None
      else case sc_kind scope of
        ScopeVault \<Rightarrow> Some (''v|'' @ show (sc_vault scope) @ ''|'' @ show i)
      | ScopeOwner \<Rightarrow>
          (case OwnerID scope of None \<Rightarrow> None | Some owner \<Rightarrow> Some (''o|'' @ show owner @ ''|'' @ show i))
      | _ \<Rightarrow> None)"

type_synonym secret_cache = "(go_string, secret) cache"

definition cached_get ::
  "(uuid \<Rightarrow> go_string) \<Rightarrow> cache_config \<Rightarrow> instant \<Rightarrow> uuid \<Rightarrow> scope \<Rightarrow> secret_cache \<Rightarrow> secret option \<times> secret_cache" where
  "cached_get show cfg now i scope c =
     (case scopeCacheKey show i scope of None \<Rightarrow> (None, c) | Some k \<Rightarrow> cache_get cfg now k c)"

definition cached_set ::
  "(uuid \<Rightarrow> go_string) \<Rightarrow> cache_config \<Rightarrow> instant \<Rightarrow> secret \<Rightarrow> scope \<Rightarrow> secret_cache \<Rightarrow> secret_cache" where
  "cached_set show cfg now s scope c =
     (case scopeCacheKey show (sr_id s) scope of None \<Rightarrow> c | Some k \<Rightarrow> cache_set cfg now k s c)"

text \<open>\<open>DeleteByID\<close>: the keys of every entry whose secret has the id, then their removal.\<close>

definition DeleteByID :: "uuid \<Rightarrow> secret_cache \<Rightarrow> secret_cache" where
  "DeleteByID i c =
     (let toRemove = map ce_key (filter (\<lambda>e. sr_id (ce_value e) = i) c) in fold cache_invalidate toRemove c)"

definition Flush :: "secret_cache \<Rightarrow> secret_cache" where
  "Flush c = cache_invalidate_all c"

section \<open>The state of the secret services\<close>

text \<open>
  What one call finds around it: the clock, fresh ids, the ciphertext an encryption draws (\<open>None\<close>: it
  fails), the random numbers of the password generator, and the statements that fail.
\<close>

datatype cipher_use = EncValue | EncArchive

record secret_env =
  sn_now :: instant
  sn_id :: uuid
  sn_encrypt :: "cipher_use \<Rightarrow> go_string \<Rightarrow> go_string option"
  sn_random :: "nat list"
  sn_fails :: "secret_stmt \<Rightarrow> bool"
  sn_attempt_fails :: bool
  sn_result_fails :: bool

text \<open>
  The parts that are wired in, with \<open>common.DecryptSecret\<close> under the master key, the JSON form of an export, the
  envelope of a sealed export (\<open>common.SealExport\<close>, \<open>IsSealedExport\<close>) and the field checks of a new secret
  (\<open>ValidateSecretCreate\<close>, of the external validator package).
\<close>

record secret_system =
  sx_decrypt :: "go_string \<Rightarrow> go_string option"
  sx_show :: "uuid \<Rightarrow> go_string"
  sx_fk :: bool
  sx_has_vaults :: bool
  sx_has_audit :: bool
  sx_global_protection :: bool
  sx_cache :: cache_config
  sx_marshal :: "(go_string \<times> go_string \<times> go_string list) list \<Rightarrow> go_string"
  sx_unmarshal :: "go_string \<Rightarrow> (go_string \<times> go_string \<times> go_string list option) list option"
  sx_seal :: "go_string \<Rightarrow> go_string \<Rightarrow> go_string option"
  sx_is_sealed :: "go_string \<Rightarrow> bool"
  sx_valid :: "go_string \<Rightarrow> go_string \<Rightarrow> go_string list option \<Rightarrow> bool"

record secret_state =
  ss_db :: secret_db
  ss_cache :: secret_cache
  ss_events :: "(uuid \<times> go_string \<times> uuid \<times> CriticalAudit.audit_outcome) list"

definition put_secret_event ::
  "uuid \<Rightarrow> go_string \<Rightarrow> uuid \<Rightarrow> CriticalAudit.audit_outcome \<Rightarrow> secret_state \<Rightarrow> secret_state" where
  "put_secret_event actor action i out st = st\<lparr>ss_events := ss_events st @ [(actor, action, i, out)]\<rparr>"

section \<open>Lemmas\<close>

lemma fold_invalidate: "fold cache_invalidate ks c = filter (\<lambda>e. ce_key e \<notin> set ks) c"
  by (induction ks arbitrary: c) (auto simp: cache_invalidate_def remove_key_def intro!: filter_cong)

text \<open>After \<open>DeleteByID\<close> no entry holds the secret.\<close>

lemma DeleteByID_filter:
  "\<exists>ks. DeleteByID i c = filter (\<lambda>e. ce_key e \<notin> ks) c \<and> (\<forall>e \<in> set (DeleteByID i c). sr_id (ce_value e) \<noteq> i)"
  by (rule exI [of _ "ce_key ` set (filter (\<lambda>e. sr_id (ce_value e) = i) c)"])
    (auto simp: DeleteByID_def Let_def fold_invalidate)

lemma cache_view_in: "cache_view c k = Some v \<Longrightarrow> \<exists>e \<in> set c. ce_key e = k \<and> ce_value e = v"
  by (auto simp: cache_view_def dest: find_in_set)

lemma entries_ok_DeleteByID:
  assumes "cached.entries_ok cfg P c" "\<And>k v. P k v \<Longrightarrow> sr_id v \<noteq> i \<Longrightarrow> Q k v"
  shows "cached.entries_ok cfg Q (DeleteByID i c)"
proof -
  obtain ks where ks: "DeleteByID i c = filter (\<lambda>e. ce_key e \<notin> ks) c"
    and gone: "\<forall>e \<in> set (DeleteByID i c). sr_id (ce_value e) \<noteq> i"
    using DeleteByID_filter by blast
  have "cached.entries_ok cfg P (DeleteByID i c)"
    unfolding ks by (rule entries_ok_filter [OF assms(1)])
  with gone cache_view_in assms(2) show ?thesis
    unfolding cached.entries_ok_def by metis
qed

lemma entries_ok_Flush: "cached.entries_ok cfg P (Flush c)"
  by (simp add: Flush_def cached.entries_ok_def cache_wf_def)

text \<open>Where \<open>show\<close> tells ids apart and writes no bar, keys tell scopes and secrets apart.\<close>

definition show_ok :: "(uuid \<Rightarrow> go_string) \<Rightarrow> bool" where
  "show_ok show \<longleftrightarrow> inj show \<and> (\<forall>u. CHR ''|'' \<notin> set (show u))"

lemma bar_split: "CHR ''|'' \<notin> set a \<Longrightarrow> CHR ''|'' \<notin> set c \<Longrightarrow> a @ CHR ''|'' # b = c @ CHR ''|'' # d \<Longrightarrow> a = c \<and> b = d"
proof (induction a arbitrary: c)
  case Nil
  then show ?case
    by (cases c) auto
next
  case (Cons x a)
  then show ?case
    by (cases c) auto
qed

lemma scopeCacheKey_same:
  assumes "show_ok show" "scopeCacheKey show i s = Some k" "scopeCacheKey show j s' = Some k"
  shows "i = j \<and> scopePredicate s = scopePredicate s'"
proof -
  have "\<exists>c u. c \<in> {CHR ''v'', CHR ''o''} \<and> k = c # CHR ''|'' # show u @ CHR ''|'' # show i
      \<and> scopePredicate s = Inr (if c = CHR ''v'' then VaultIs u else OwnerIs u)"
    if "scopeCacheKey show i s = Some k" for i s
    using that by (auto simp: scopeCacheKey_def scopePredicate_def OwnerID_def split: if_splits scope_kind.splits option.splits)
  from this [OF assms(2)] this [OF assms(3)] obtain c u c' u'
    where k: "k = c # CHR ''|'' # show u @ CHR ''|'' # show i" "k = c' # CHR ''|'' # show u' @ CHR ''|'' # show j"
      and p: "scopePredicate s = Inr (if c = CHR ''v'' then VaultIs u else OwnerIs u)"
        "scopePredicate s' = Inr (if c' = CHR ''v'' then VaultIs u' else OwnerIs u')"
    by blast
  then have "c = c'" "show u = show u' \<and> show i = show j"
    using bar_split [of "show u" "show u'" "show i" "show j"] assms(1) unfolding show_ok_def by auto
  with p assms(1) show ?thesis
    unfolding show_ok_def by (auto dest: injD)
qed

end
