(* ===== verification/Csv.thy ===== *)
theory Csv
  imports NetAddr
begin

text \<open>
  The text form of exported secrets: the escapes of
  \<open>src/internal/services/secrets/secret_service.go\<close> (\<open>csvFormulaGuard\<close>, \<open>escapeCR\<close>,
  \<open>csvEncodeTags\<close> and their inverses), and what they use of Go's \<open>encoding/csv\<close>: its
  writer with the default settings, and its reader, which takes the input line by line.

  Strings are bytes.  A reader is the text it has left; the number of fields it expects is 0 until
  the first record.  Positions in error messages are left out.
\<close>

section \<open>Escapes\<close>

definition char_tab :: char where "char_tab = CHR 0x09"
definition char_lf :: char where "char_lf = CHR 0x0A"
definition char_cr :: char where "char_cr = CHR 0x0D"
definition crEscape :: char where "crEscape = CHR 0x00"

lemmas ctrl_chars = char_tab_def char_lf_def char_cr_def crEscape_def

definition csvFormulaGuard :: "go_string \<Rightarrow> go_string" where
  "csvFormulaGuard s =
     (case s of [] \<Rightarrow> s
      | c # _ \<Rightarrow> if c \<in> {CHR ''='', CHR ''+'', CHR ''-'', CHR ''@'', char_tab, CHR 0x27} then CHR 0x27 # s else s)"

definition csvFormulaUnguard :: "go_string \<Rightarrow> go_string" where
  "csvFormulaUnguard s = trim_prefix s [CHR 0x27]"

fun escape_bytes :: "go_string \<Rightarrow> go_string" where
  "escape_bytes [] = []"
| "escape_bytes (c # s) =
     (if c = crEscape then crEscape # crEscape # escape_bytes s
      else if c = char_cr then crEscape # CHR ''r'' # escape_bytes s
      else c # escape_bytes s)"

definition escapeCR :: "go_string \<Rightarrow> go_string" where
  "escapeCR s = (if list_ex (\<lambda>c. c = char_cr \<or> c = crEscape) s then escape_bytes s else s)"

fun unescape_bytes :: "go_string \<Rightarrow> go_string" where
  "unescape_bytes [] = []"
| "unescape_bytes [c] = [c]"
| "unescape_bytes (c # d # s) =
     (if c = crEscape then
        (if d = crEscape then crEscape # unescape_bytes s
         else if d = CHR ''r'' then char_cr # unescape_bytes s
         else crEscape # d # unescape_bytes s)
      else c # unescape_bytes (d # s))"

definition unescapeCR :: "go_string \<Rightarrow> go_string" where
  "unescapeCR s = (if list_ex (\<lambda>c. c = crEscape) s then unescape_bytes s else s)"

section \<open>The writer\<close>

definition starts_with_space :: "go_string \<Rightarrow> bool" where
  "starts_with_space s = list_ex (has_prefix s) space_seqs"

definition fieldNeedsQuotes :: "go_string \<Rightarrow> bool" where
  "fieldNeedsQuotes f \<longleftrightarrow>
     f \<noteq> [] \<and> (f = [CHR 0x5C, CHR ''.''] \<or> list_ex (\<lambda>c. c \<in> {char_lf, char_cr, CHR 0x22, CHR '',''}) f
       \<or> starts_with_space f)"

fun quote_bytes :: "go_string \<Rightarrow> go_string" where
  "quote_bytes [] = [CHR 0x22]"
| "quote_bytes (c # f) = (if c = CHR 0x22 then [c, c] else [c]) @ quote_bytes f"

definition csv_field :: "go_string \<Rightarrow> go_string" where
  "csv_field f = (if fieldNeedsQuotes f then CHR 0x22 # quote_bytes f else f)"

definition csv_write :: "go_string list \<Rightarrow> go_string" where
  "csv_write fs = join_str '','' (map csv_field fs) @ [char_lf]"

section \<open>The reader\<close>

datatype csv_error = ErrBareQuote | ErrQuote | ErrFieldCount

text \<open>\<open>readLine\<close>: a line with its newline, \<open>\r\n\<close> made \<open>\n\<close>; \<open>None\<close> is \<open>io.EOF\<close>.\<close>

definition drop_cr :: "go_string \<Rightarrow> go_string" where
  "drop_cr l = (if l \<noteq> [] \<and> last l = char_cr then butlast l else l)"

definition readLine :: "go_string \<Rightarrow> (go_string \<times> go_string) option" where
  "readLine s =
     (if s = [] then None
      else case dropWhile (\<lambda>c. c \<noteq> char_lf) s of
        [] \<Rightarrow> Some (drop_cr s, [])
      | c # r \<Rightarrow> Some (drop_cr (takeWhile (\<lambda>c. c \<noteq> char_lf) s) @ [c], r))"

lemma drop_cr_length: "length (drop_cr l) \<le> length l"
  by (simp add: drop_cr_def)

lemma readLine_length:
  assumes "readLine s = Some (l, r)"
  shows "length l + length r \<le> length s" "length r < length s"
proof -
  have s: "length s = length (takeWhile (\<lambda>c. c \<noteq> char_lf) s) + length (dropWhile (\<lambda>c. c \<noteq> char_lf) s)"
    by (metis length_append takeWhile_dropWhile_id)
  show "length l + length r \<le> length s"
    using assms s drop_cr_length [of s] drop_cr_length [of "takeWhile (\<lambda>c. c \<noteq> char_lf) s"]
    by (auto simp: readLine_def split: if_splits list.splits)
  show "length r < length s"
    using assms s by (auto simp: readLine_def split: if_splits list.splits)
qed

text \<open>
  \<open>csv_fields line rest fs\<close> parses the fields that start at \<open>line\<close>, \<open>csv_quoted\<close> the inside of a quoted
  one, which goes on over the following lines.  The result is the record with the text left.
\<close>

function (sequential) csv_fields :: "go_string \<Rightarrow> go_string \<Rightarrow> go_string list \<Rightarrow> (csv_error + go_string list) \<times> go_string"
  and csv_quoted :: "go_string \<Rightarrow> go_string \<Rightarrow> go_string \<Rightarrow> go_string list \<Rightarrow> (csv_error + go_string list) \<times> go_string" where
  "csv_fields line rest fs =
     (if line \<noteq> [] \<and> hd line = CHR 0x22 then csv_quoted (tl line) rest [] fs
      else
        let fd = takeWhile (\<lambda>c. c \<noteq> CHR '','') line in
        case dropWhile (\<lambda>c. c \<noteq> CHR '','') line of
          [] \<Rightarrow>
            let fd = (if fd \<noteq> [] \<and> last fd = char_lf then butlast fd else fd) in
            (if CHR 0x22 \<in> set fd then Inl ErrBareQuote else Inr (fs @ [fd]), rest)
        | _ # line' \<Rightarrow>
            if CHR 0x22 \<in> set fd then (Inl ErrBareQuote, rest) else csv_fields line' rest (fs @ [fd]))"
| "csv_quoted [] rest buf fs = (Inl ErrQuote, rest)"
| "csv_quoted (c # line) rest buf fs =
     (if c = CHR 0x22 then
        (case line of
           [] \<Rightarrow> (Inr (fs @ [buf]), rest)
         | d # line' \<Rightarrow>
             if d = CHR 0x22 then csv_quoted line' rest (buf @ [d]) fs
             else if d = CHR '','' then csv_fields line' rest (fs @ [buf])
             else if line = [char_lf] then (Inr (fs @ [buf]), rest)
             else (Inl ErrQuote, rest))
      else if line = [] then
        (case readLine rest of
           None \<Rightarrow> (Inl ErrQuote, rest)
         | Some (line', rest') \<Rightarrow> csv_quoted line' rest' (buf @ [c]) fs)
      else csv_quoted line rest (buf @ [c]) fs)"
  by pat_completeness auto
termination
proof (relation "measure (\<lambda>x. case x of Inl (l, r, _) \<Rightarrow> length l + length r | Inr (l, r, _) \<Rightarrow> length l + length r)", goal_cases)
  case (3 line rest fs fd c line')
  then have "length line = length fd + length (c # line')"
    by (metis length_append takeWhile_dropWhile_id)
  then show ?case
    by simp
qed (auto dest: readLine_length(1))

declare csv_fields.simps [simp del] csv_quoted.simps [simp del]

text \<open>The first line that is not empty.\<close>

function first_line :: "go_string \<Rightarrow> (go_string \<times> go_string) option" where
  "first_line s =
     (case readLine s of
        None \<Rightarrow> None
      | Some (l, r) \<Rightarrow> if l = [] \<or> l = [char_lf] then first_line r else Some (l, r))"
  by auto
termination
  by (relation "measure length") (auto dest: readLine_length(2))

declare first_line.simps [simp del]

text \<open>
  \<open>Read\<close> with \<open>FieldsPerRecord\<close> as it stands, 0 before the first record: \<open>None\<close> at the end of the
  text, else the record or its error with the number of fields from now on and the text left.
\<close>

definition csv_read :: "nat \<Rightarrow> go_string \<Rightarrow> ((csv_error + go_string list) \<times> nat \<times> go_string) option" where
  "csv_read n s =
     (case first_line s of
        None \<Rightarrow> None
      | Some (line, rest) \<Rightarrow>
          (case csv_fields line rest [] of
             (Inl e, rest') \<Rightarrow> Some (Inl e, n, rest')
           | (Inr fs, rest') \<Rightarrow>
               if n = 0 then Some (Inr fs, length fs, rest')
               else if length fs \<noteq> n then Some (Inl ErrFieldCount, n, rest')
               else Some (Inr fs, n, rest')))"

section \<open>Export and import\<close>

text \<open>\<open>exportSecret\<close> and \<open>importSecret\<close>; \<open>tr_tags\<close> is \<open>None\<close> where the slice is nil.\<close>

record transfer =
  tr_name :: go_string
  tr_value :: go_string
  tr_tags :: "go_string list option"

definition csvEncodeTags :: "go_string list \<Rightarrow> go_string" where
  "csvEncodeTags tags =
     (if tags = [] then []
      else let buf = csv_write (map escapeCR tags) in
           if has_suffix buf [char_lf] then butlast buf else buf)"

datatype tags_error = TagsEOF | TagsCsv csv_error

definition csvDecodeTags :: "go_string \<Rightarrow> tags_error + go_string list option" where
  "csvDecodeTags fd =
     (if fd = [] then Inr None
      else case csv_read 0 fd of
        None \<Rightarrow> Inl TagsEOF
      | Some (Inl e, _) \<Rightarrow> Inl (TagsCsv e)
      | Some (Inr tags, _) \<Rightarrow> Inr (Some (map unescapeCR tags)))"

definition csv_row :: "bool \<Rightarrow> go_string \<times> go_string \<times> go_string list \<Rightarrow> go_string list" where
  "csv_row includeTags s =
     (case s of (name, value, tags) \<Rightarrow>
        [csvFormulaGuard (escapeCR name), csvFormulaGuard (escapeCR value)]
        @ (if includeTags then [csvFormulaGuard (csvEncodeTags tags)] else []))"

definition export_csv :: "bool \<Rightarrow> (go_string \<times> go_string \<times> go_string list) list \<Rightarrow> go_string" where
  "export_csv includeTags secrets =
     csv_write ([''name'', ''value''] @ (if includeTags then [''tags''] else []))
     @ concat (map (csv_write \<circ> csv_row includeTags) secrets)"

datatype record_error = InvalidCSV csv_error | InvalidFormat nat | InvalidTags nat tags_error

definition import_record :: "bool \<Rightarrow> nat \<Rightarrow> go_string list \<Rightarrow> record_error + transfer" where
  "import_record hasTags lineNum rec =
     (if length rec < 2 then Inl (InvalidFormat lineNum)
      else
        let s = \<lparr>tr_name = unescapeCR (csvFormulaUnguard (rec ! 0)),
                 tr_value = unescapeCR (csvFormulaUnguard (rec ! 1)), tr_tags = None\<rparr> in
        if hasTags \<and> length rec > 2 \<and> rec ! 2 \<noteq> [] then
          (case csvDecodeTags (csvFormulaUnguard (rec ! 2)) of
             Inl e \<Rightarrow> Inl (InvalidTags lineNum e)
           | Inr tags \<Rightarrow> Inr (s\<lparr>tr_tags := tags\<rparr>))
        else Inr s)"

lemma csv_fields_rest:
  "length (snd (csv_fields line rest fs)) \<le> length rest"
  "length (snd (csv_quoted line rest buf fs)) \<le> length rest"
proof (induction line rest fs and line rest buf fs rule: csv_fields_csv_quoted.induct)
  case (1 line rest fs)
  then show ?case
    by (subst csv_fields.simps) (auto simp: Let_def split: list.splits if_splits)
next
  case (2 rest buf fs)
  then show ?case
    by (simp add: csv_quoted.simps)
next
  case (3 c line rest buf fs)
  then show ?case
    by (subst csv_quoted.simps)
      (fastforce split: list.splits if_splits option.splits dest: readLine_length(2))
qed

lemma first_line_length: "first_line s = Some (l, r) \<Longrightarrow> length r < length s"
proof (induction s rule: first_line.induct)
  case (1 s)
  show ?case
  proof (cases "readLine s")
    case None
    with "1.prems" show ?thesis
      by (simp add: first_line.simps)
  next
    case (Some p)
    obtain l' r' where p: "p = (l', r')"
      by (cases p)
    have len: "length r' < length s"
      using Some p readLine_length(2) by blast
    show ?thesis
    proof (cases "l' = [] \<or> l' = [char_lf]")
      case True
      with "1.prems" Some p have "first_line r' = Some (l, r)"
        by (simp add: first_line.simps [of s])
      from "1.IH" [OF Some p [symmetric] True this] len show ?thesis
        by simp
    next
      case False
      with "1.prems" Some p len show ?thesis
        by (simp add: first_line.simps [of s])
    qed
  qed
qed

lemma csv_read_length:
  assumes "csv_read n s = Some (r, n', rest)"
  shows "length rest < length s"
proof -
  from assms obtain line r0 where fl: "first_line s = Some (line, r0)"
    by (auto simp: csv_read_def split: option.splits)
  have "rest = snd (csv_fields line r0 [])"
    using assms fl by (auto simp: csv_read_def split: prod.splits sum.splits if_splits)
  then show ?thesis
    using first_line_length [OF fl] csv_fields_rest(1) [of line r0 "[]"] by simp
qed

text \<open>The loop over the records after the header: the errors and the records, in their order.\<close>

function import_records :: "bool \<Rightarrow> nat \<Rightarrow> nat \<Rightarrow> go_string \<Rightarrow> record_error list \<times> transfer list" where
  "import_records hasTags n lineNum s =
     (case csv_read n s of
        None \<Rightarrow> ([], [])
      | Some (Inl e, n', rest) \<Rightarrow>
          (case import_records hasTags n' (lineNum + 1) rest of (es, ts) \<Rightarrow> (InvalidCSV e # es, ts))
      | Some (Inr rec, n', rest) \<Rightarrow>
          (case import_records hasTags n' (lineNum + 1) rest of (es, ts) \<Rightarrow>
             (case import_record hasTags (lineNum + 1) rec of
                Inl e \<Rightarrow> (e # es, ts)
              | Inr t \<Rightarrow> (es, t # ts))))"
  by auto
termination
  by (relation "measure (\<lambda>(_, _, _, s). length s)") (auto dest: csv_read_length)

declare import_records.simps [simp del]

definition import_csv :: "go_string \<Rightarrow> csv_error + record_error list \<times> transfer list" where
  "import_csv s =
     (case csv_read 0 s of
        None \<Rightarrow> Inr ([], [])
      | Some (Inl e, _) \<Rightarrow> Inl e
      | Some (Inr header, n, rest) \<Rightarrow> Inr (import_records (length header > 2) n 1 rest))"

section \<open>Escapes are undone\<close>

lemma unguard_guard [simp]: "csvFormulaUnguard (csvFormulaGuard s) = s"
  by (cases s) (auto simp: csvFormulaGuard_def csvFormulaUnguard_def trim_prefix_def has_prefix_def)

lemma unescape_plain: "crEscape \<notin> set s \<Longrightarrow> unescape_bytes s = s"
  by (induction s rule: unescape_bytes.induct) auto

lemma escape_bytes_hd: "escape_bytes s = [] \<longleftrightarrow> s = []"
  by (cases s) auto

lemma unescape_escape_bytes: "unescape_bytes (escape_bytes s) = s"
proof (induction s)
  case (Cons c s)
  show ?case
  proof (cases "c = crEscape \<or> c = char_cr")
    case True
    with Cons show ?thesis
      by (auto simp: ctrl_chars)
  next
    case False
    with Cons show ?thesis
      by (cases "escape_bytes s") (auto simp: escape_bytes_hd)
  qed
qed simp

lemma escape_bytes_no_cr: "char_cr \<notin> set (escape_bytes s)"
  by (induction s) (auto simp: ctrl_chars)

lemma escapeCR_no_cr: "char_cr \<notin> set (escapeCR s)"
  by (auto simp: escapeCR_def escape_bytes_no_cr list_ex_iff)

lemma escape_bytes_marks: "list_ex (\<lambda>c. c = char_cr \<or> c = crEscape) s \<Longrightarrow> crEscape \<in> set (escape_bytes s)"
  by (induction s) auto

lemma unescapeCR_escapeCR [simp]: "unescapeCR (escapeCR s) = s"
proof (cases "list_ex (\<lambda>c. c = char_cr \<or> c = crEscape) s")
  case True
  then show ?thesis
    using escape_bytes_marks [OF True] by (auto simp: escapeCR_def unescapeCR_def unescape_escape_bytes list_ex_iff)
next
  case False
  then show ?thesis
    by (auto simp: escapeCR_def unescapeCR_def list_ex_iff)
qed

section \<open>The text of a line and the text after it\<close>

lemma ctrl_distinct [simp]:
  "char_lf \<noteq> char_cr" "char_cr \<noteq> char_lf" "char_lf \<noteq> CHR 0x22" "CHR 0x22 \<noteq> char_lf" "char_cr \<noteq> CHR 0x22"
  "CHR 0x22 \<noteq> char_cr" "char_lf \<noteq> CHR '',''" "CHR '','' \<noteq> char_lf" "char_cr \<noteq> CHR '',''" "CHR '','' \<noteq> char_cr"
  by (simp_all add: ctrl_chars)

fun line_of :: "go_string \<Rightarrow> go_string" where
  "line_of [] = []"
| "line_of (c # s) = (if c = char_lf then [c] else c # line_of s)"

fun after_line :: "go_string \<Rightarrow> go_string" where
  "after_line [] = []"
| "after_line (c # s) = (if c = char_lf then s else after_line s)"

lemma line_of_while:
  "line_of s = takeWhile (\<lambda>c. c \<noteq> char_lf) s @ (if char_lf \<in> set s then [char_lf] else [])"
  "after_line s = tl (dropWhile (\<lambda>c. c \<noteq> char_lf) s)"
  by (induction s) auto

lemma drop_cr_id: "char_cr \<notin> set l \<Longrightarrow> drop_cr l = l"
  by (auto simp: drop_cr_def dest: last_in_set)

lemma readLine_cut:
  assumes "char_cr \<notin> set s" "s \<noteq> []"
  shows "readLine s = Some (line_of s, after_line s)"
proof (cases "dropWhile (\<lambda>c. c \<noteq> char_lf) s")
  case Nil
  then have all: "\<forall>c\<in>set s. c \<noteq> char_lf"
    by simp
  then have tw: "takeWhile (\<lambda>c. c \<noteq> char_lf) s = s" and "char_lf \<notin> set s"
    by (simp_all only: takeWhile_eq_all_conv) blast
  then show ?thesis
    using assms unfolding readLine_def line_of_while Nil tw by (simp add: drop_cr_id)
next
  case (Cons c r)
  then have c: "c = char_lf"
    using hd_dropWhile [of "\<lambda>c. c \<noteq> char_lf" s] by simp
  with Cons have "char_lf \<in> set s"
    by (metis list.set_intros(1) set_dropWhileD)
  moreover have "char_cr \<notin> set (takeWhile (\<lambda>c. c \<noteq> char_lf) s)"
    using assms(1) by (meson set_takeWhileD)
  ultimately show ?thesis
    using Cons assms c by (simp add: readLine_def line_of_while drop_cr_id)
qed

lemma line_of_append: "char_lf \<notin> set f \<Longrightarrow> line_of (f @ t) = f @ line_of t"
  "char_lf \<notin> set f \<Longrightarrow> after_line (f @ t) = after_line t"
  by (induction f) auto

lemma quote_bytes_not_Nil: "quote_bytes b @ t \<noteq> []"
  by (cases b) auto

lemma quote_bytes_cr: "char_cr \<in> set (quote_bytes b) \<longleftrightarrow> char_cr \<in> set b"
  by (induction b) auto

text \<open>What follows a field: nothing, a comma and the next field, or the end of the record.\<close>

definition after_field :: "go_string \<Rightarrow> go_string list \<Rightarrow> (csv_error + go_string list) \<times> go_string" where
  "after_field t fs =
     (case t of [] \<Rightarrow> (Inr fs, [])
      | c # t' \<Rightarrow> if c = CHR '','' then csv_fields (line_of t') (after_line t') fs else (Inr fs, t'))"

lemma csv_quoted_field:
  assumes "char_cr \<notin> set (b @ t)" "t = [] \<or> hd t = CHR '','' \<or> hd t = char_lf"
  shows "csv_quoted (line_of (quote_bytes b @ t)) (after_line (quote_bytes b @ t)) buf fs = after_field t (fs @ [buf @ b])"
  using assms
proof (induction b arbitrary: buf)
  case Nil
  then show ?case
    by (cases t) (auto simp: csv_quoted.simps after_field_def)
next
  case (Cons c b)
  have IH: "csv_quoted (line_of (quote_bytes b @ t)) (after_line (quote_bytes b @ t)) (buf @ [c]) fs
      = after_field t (fs @ [buf @ c # b])"
    using Cons.IH [of "buf @ [c]"] Cons.prems by simp
  show ?case
  proof (cases "c = CHR 0x22")
    case True
    with IH show ?thesis
      by (simp add: csv_quoted.simps(2))
  next
    case nq: False
    show ?thesis
    proof (cases "c = char_lf")
      case True
      have "char_cr \<notin> set (quote_bytes b @ t)"
        using Cons.prems by (simp add: quote_bytes_cr)
      then have "readLine (quote_bytes b @ t) = Some (line_of (quote_bytes b @ t), after_line (quote_bytes b @ t))"
        by (rule readLine_cut) (rule quote_bytes_not_Nil)
      with IH True nq show ?thesis
        by (simp add: csv_quoted.simps(2))
    next
      case False
      moreover have "line_of (quote_bytes b @ t) \<noteq> []"
        using quote_bytes_not_Nil [of b t] by (cases "quote_bytes b @ t") auto
      ultimately show ?thesis
        using IH nq by (simp add: csv_quoted.simps(2))
    qed
  qed
qed

lemma csv_plain_field:
  assumes "CHR 0x22 \<notin> set f" "CHR '','' \<notin> set f" "char_lf \<notin> set f" "t = [] \<or> hd t = CHR '','' \<or> hd t = char_lf"
  shows "csv_fields (line_of (f @ t)) (after_line (f @ t)) fs = after_field t (fs @ [f])"
proof -
  have not_q: "\<not> (f @ u \<noteq> [] \<and> hd (f @ u) = CHR 0x22)" if "u = [] \<or> hd u \<noteq> CHR 0x22" for u
    using assms(1) that by (cases f) auto
  have tw: "takeWhile (\<lambda>c. c \<noteq> CHR '','') (f @ u) = f @ takeWhile (\<lambda>c. c \<noteq> CHR '','') u"
    "dropWhile (\<lambda>c. c \<noteq> CHR '','') (f @ u) = dropWhile (\<lambda>c. c \<noteq> CHR '','') u" for u
    using assms(2) by (induction f) auto
  have step: "csv_fields (f @ u) rest fs =
      (case dropWhile (\<lambda>c. c \<noteq> CHR '','') u of
         [] \<Rightarrow> (let fd = f @ takeWhile (\<lambda>c. c \<noteq> CHR '','') u;
                   fd = (if fd \<noteq> [] \<and> last fd = char_lf then butlast fd else fd) in
            (if CHR 0x22 \<in> set fd then Inl ErrBareQuote else Inr (fs @ [fd]), rest))
       | _ # line' \<Rightarrow> csv_fields line' rest (fs @ [f @ takeWhile (\<lambda>c. c \<noteq> CHR '','') u]))"
    if "u = [] \<or> hd u \<noteq> CHR 0x22" "CHR 0x22 \<notin> set (takeWhile (\<lambda>c. c \<noteq> CHR '','') u)" for u rest
    using not_q [OF that(1)] that(2) assms(1)
    by (subst csv_fields.simps) (auto simp only: tw Let_def if_False set_append Un_iff simp_thms split: list.split)
  have last_f: "\<not> (f \<noteq> [] \<and> last f = char_lf)"
    using assms(3) by (metis last_in_set)
  consider "t = []" | t' where "t = CHR '','' # t'" | t' where "t = char_lf # t'"
    using assms(4) by (cases t) auto
  then show ?thesis
  proof cases
    case 1
    then show ?thesis
      using step [of "[]"] last_f assms line_of_append [OF assms(3), of "[]"] by (auto simp: after_field_def Let_def)
  next
    case 2
    then show ?thesis
      using step [of "CHR '','' # line_of t'"] assms(3) by (simp add: line_of_append after_field_def)
  next
    case 3
    then show ?thesis
      using step [of "[char_lf]"] assms by (simp add: line_of_append after_field_def Let_def)
  qed
qed

lemma csv_field_read:
  assumes "char_cr \<notin> set (f @ t)" "t = [] \<or> hd t = CHR '','' \<or> hd t = char_lf"
  shows "csv_fields (line_of (csv_field f @ t)) (after_line (csv_field f @ t)) fs = after_field t (fs @ [f])"
proof (cases "fieldNeedsQuotes f")
  case True
  have "csv_fields (line_of (csv_field f @ t)) (after_line (csv_field f @ t)) fs
      = csv_quoted (line_of (quote_bytes f @ t)) (after_line (quote_bytes f @ t)) [] fs"
    using True by (subst csv_fields.simps) (simp add: csv_field_def)
  then show ?thesis
    using csv_quoted_field [OF assms, of "[]" fs] by simp
next
  case False
  then have "CHR 0x22 \<notin> set f" "CHR '','' \<notin> set f" "char_lf \<notin> set f"
    by (auto simp: fieldNeedsQuotes_def list_ex_iff)
  then show ?thesis
    using False csv_plain_field [OF _ _ _ assms(2)] by (simp add: csv_field_def)
qed

lemma csv_field_cr: "char_cr \<in> set (csv_field f) \<longleftrightarrow> char_cr \<in> set f"
  by (auto simp: csv_field_def quote_bytes_cr)

text \<open>A record, at the end of the text or before a newline.\<close>

lemma csv_record_read:
  assumes "\<forall>x \<in> set (f # fs). char_cr \<notin> set x" "char_cr \<notin> set t" "t = [] \<or> hd t = char_lf"
  shows "csv_fields (line_of (join_str '','' (map csv_field (f # fs)) @ t))
      (after_line (join_str '','' (map csv_field (f # fs)) @ t)) acc = (Inr (acc @ f # fs), tl t)"
  using assms(1)
proof (induction fs arbitrary: f acc)
  case Nil
  then have "char_cr \<notin> set (f @ t)" "t = [] \<or> hd t = CHR '','' \<or> hd t = char_lf"
    using assms(2,3) by auto
  from csv_field_read [OF this, of acc] assms(3) show ?case
    by (cases t) (auto simp: after_field_def)
next
  case (Cons g fs)
  let ?s = "join_str '','' (map csv_field (g # fs)) @ t"
  have "char_cr \<notin> set (join_str '','' (map csv_field (g # fs)))"
    using Cons.prems by (induction fs arbitrary: g) (auto simp: csv_field_cr)
  then have "csv_fields (line_of (csv_field f @ CHR '','' # ?s)) (after_line (csv_field f @ CHR '','' # ?s)) acc
      = csv_fields (line_of ?s) (after_line ?s) (acc @ [f])"
    using Cons.prems assms(2) by (subst csv_field_read) (auto simp: after_field_def)
  with Cons show ?case
    by simp
qed

section \<open>The round trip\<close>

lemma join_fields_cr:
  "\<forall>x \<in> set fs. char_cr \<notin> set x \<Longrightarrow> char_cr \<notin> set (join_str '','' (map csv_field fs))"
proof (induction fs)
  case (Cons f fs)
  then show ?case
    by (cases fs) (auto simp: csv_field_cr)
qed simp

lemma join_fields_hd:
  assumes "fs \<noteq> []" "fs \<noteq> [[]]"
  shows "join_str '','' (map csv_field fs) \<noteq> [] \<and> hd (join_str '','' (map csv_field fs)) \<noteq> char_lf"
proof -
  obtain f gs where fs: "fs = f # gs"
    using assms(1) by (cases fs) auto
  have fq: "csv_field f \<noteq> [] \<and> hd (csv_field f) \<noteq> char_lf" if "f \<noteq> []"
    using that by (cases f) (auto simp: csv_field_def fieldNeedsQuotes_def)
  show ?thesis
  proof (cases gs)
    case Nil
    with fs fq assms(2) show ?thesis
      by auto
  next
    case (Cons g gs')
    with fs fq show ?thesis
      by (cases "f = []") (auto simp: csv_field_def fieldNeedsQuotes_def)
  qed
qed

text \<open>What is written for a record other than one empty field is read back, at the end of the text or before more.\<close>

lemma csv_read_write:
  assumes "fs \<noteq> []" "fs \<noteq> [[]]" "\<forall>x \<in> set fs. char_cr \<notin> set x" "char_cr \<notin> set t" "t = [] \<or> hd t = char_lf"
  shows "csv_read n (join_str '','' (map csv_field fs) @ t)
    = Some (if n = 0 then (Inr fs, length fs, tl t)
            else if length fs \<noteq> n then (Inl ErrFieldCount, n, tl t) else (Inr fs, n, tl t))"
proof -
  let ?s = "join_str '','' (map csv_field fs) @ t"
  obtain f gs where fs: "fs = f # gs"
    using assms(1) by (cases fs) auto
  obtain c s' where s: "?s = c # s'" and c: "c \<noteq> char_lf"
    using join_fields_hd [OF assms(1,2)] by (cases "join_str '','' (map csv_field fs)") auto
  have "char_cr \<notin> set ?s"
    using join_fields_cr [OF assms(3)] assms(4) by simp
  then have "readLine ?s = Some (line_of ?s, after_line ?s)"
    by (rule readLine_cut) (simp add: s)
  moreover have "line_of ?s \<noteq> []" "line_of ?s \<noteq> [char_lf]"
    using c by (simp_all add: s)
  ultimately have "first_line ?s = Some (line_of ?s, after_line ?s)"
    by (simp add: first_line.simps)
  moreover have "csv_fields (line_of ?s) (after_line ?s) [] = (Inr fs, tl t)"
    using csv_record_read [of f gs t "[]"] assms fs by simp
  ultimately show ?thesis
    by (simp add: csv_read_def)
qed

lemma escapeCR_Nil [simp]: "escapeCR s = [] \<longleftrightarrow> s = []"
  by (simp add: escapeCR_def escape_bytes_hd)

lemma map_escape_eq: "map escapeCR tags = [[]] \<longleftrightarrow> tags = [[]]"
  by (cases tags) auto

lemma csvEncodeTags_text: "csvEncodeTags tags = (if tags = [] then [] else join_str '','' (map csv_field (map escapeCR tags)))"
  by (auto simp: csvEncodeTags_def csv_write_def has_suffix_def has_prefix_def Let_def)

lemma csvDecodeTags_encode:
  assumes "tags \<noteq> [[]]"
  shows "csvDecodeTags (csvEncodeTags tags) = Inr (if tags = [] then None else Some tags)"
proof (cases "tags = []")
  case False
  let ?fs = "map escapeCR tags"
  have ok: "?fs \<noteq> []" "?fs \<noteq> [[]]" "\<forall>x \<in> set ?fs. char_cr \<notin> set x"
    using False assms map_escape_eq by (auto simp: escapeCR_no_cr)
  have "csv_read 0 (csvEncodeTags tags) = Some (Inr ?fs, length ?fs, [])"
    using csv_read_write [OF ok, of "[]" 0] False by (simp add: csvEncodeTags_text)
  moreover have "csvEncodeTags tags \<noteq> []"
    using join_fields_hd [OF ok(1,2)] False by (simp add: csvEncodeTags_text)
  ultimately show ?thesis
    using False by (simp add: csvDecodeTags_def comp_def)
qed (simp add: csvEncodeTags_def csvDecodeTags_def)

lemma guard_no_cr: "char_cr \<in> set (csvFormulaGuard s) \<longleftrightarrow> char_cr \<in> set s"
  by (auto simp: csvFormulaGuard_def char_cr_def split: list.splits)

lemma guard_Nil [simp]: "csvFormulaGuard s = [] \<longleftrightarrow> s = []"
  by (auto simp: csvFormulaGuard_def split: list.splits)

lemma encode_no_cr: "char_cr \<notin> set (csvEncodeTags tags)"
  using join_fields_cr [of "map escapeCR tags"] by (simp add: csvEncodeTags_text escapeCR_no_cr)

lemma csv_row_no_cr: "\<forall>x \<in> set (csv_row b s). char_cr \<notin> set x"
  by (auto simp: csv_row_def guard_no_cr escapeCR_no_cr encode_no_cr split: prod.splits)

lemma import_csv_row:
  assumes "tags \<noteq> [[]]"
  shows "import_record b k (csv_row b (name, value, tags))
    = Inr \<lparr>tr_name = name, tr_value = value, tr_tags = (if b \<and> tags \<noteq> [] then Some tags else None)\<rparr>"
proof (cases "b \<and> csvEncodeTags tags \<noteq> []")
  case True
  then have "tags \<noteq> []"
    by (auto simp: csvEncodeTags_def)
  with True show ?thesis
    using csvDecodeTags_encode [OF assms] by (simp add: import_record_def csv_row_def)
next
  case False
  moreover have "csvEncodeTags tags = [] \<longleftrightarrow> tags = []"
    using csvDecodeTags_encode [OF assms] by (auto simp: csvEncodeTags_def csvDecodeTags_def split: if_splits)
  ultimately show ?thesis
    by (auto simp: import_record_def csv_row_def)
qed

definition reimported :: "bool \<Rightarrow> go_string \<times> go_string \<times> go_string list \<Rightarrow> transfer" where
  "reimported b s =
     (case s of (name, value, tags) \<Rightarrow>
        \<lparr>tr_name = name, tr_value = value, tr_tags = (if b \<and> tags \<noteq> [] then Some tags else None)\<rparr>)"

lemma import_records_rows:
  assumes "\<forall>s \<in> set secrets. snd (snd s) \<noteq> [[]]" "n = (if b then 3 else 2)"
  shows "import_records b n k (concat (map (csv_write \<circ> csv_row b) secrets)) = ([], map (reimported b) secrets)"
  using assms(1)
proof (induction secrets arbitrary: k)
  case Nil
  then show ?case
    by (simp add: import_records.simps csv_read_def first_line.simps readLine_def)
next
  case (Cons s secrets)
  obtain nm vl tags where s: "s = (nm, vl, tags)"
    by (cases s)
  let ?more = "concat (map (csv_write \<circ> csv_row b) secrets)"
  have cr: "char_cr \<notin> set ?more"
    using join_fields_cr [OF csv_row_no_cr] by (auto simp: csv_write_def)
  have "length (csv_row b s) = n" "csv_row b s \<noteq> []" "csv_row b s \<noteq> [[]]"
    using assms(2) by (auto simp: csv_row_def s)
  then have "csv_read n (csv_write (csv_row b s) @ ?more) = Some (Inr (csv_row b s), n, ?more)"
    using csv_read_write [OF _ _ csv_row_no_cr, of b s "char_lf # ?more" n] cr by (simp add: csv_write_def)
  moreover have "import_record b (k + 1) (csv_row b s) = Inr (reimported b s)"
    using Cons.prems import_csv_row [of tags b "k + 1" nm vl] by (simp add: s reimported_def)
  moreover have "import_records b n (k + 1) ?more = ([], map (reimported b) secrets)"
    using Cons.prems by (intro Cons.IH) simp
  moreover have "concat (map (csv_write \<circ> csv_row b) (s # secrets)) = csv_write (csv_row b s) @ ?more"
    by simp
  ultimately show ?case
    unfolding import_records.simps [of b n k] by (simp only: option.case sum.case prod.case list.map)
qed

text \<open>C40: an exported file is read back.  The records of a CSV export, imported, are the exported ones, whatever
  bytes names, values and tags hold: quotes, commas, line breaks, carriage returns, formula signs.  A list
  of tags that is a single empty tag is the one exception.\<close>

theorem csv_roundtrip:
  assumes "\<forall>s \<in> set secrets. snd (snd s) \<noteq> [[]]"
  shows "import_csv (export_csv includeTags secrets) = Inr ([], map (reimported includeTags) secrets)"
proof -
  let ?more = "concat (map (csv_write \<circ> csv_row includeTags) secrets)"
  define header where "header = [''name'', ''value''] @ (if includeTags then [''tags''] else [])"
  have header: "header \<noteq> []" "header \<noteq> [[]]" "\<forall>x \<in> set header. char_cr \<notin> set x"
      "length header = (if includeTags then 3 else 2)"
    by (auto simp: header_def char_cr_def)
  have "char_cr \<notin> set (char_lf # ?more)"
    using join_fields_cr [OF csv_row_no_cr] by (auto simp: csv_write_def)
  from csv_read_write [OF header(1-3) this, of 0]
  have "csv_read 0 (csv_write header @ ?more) = Some (Inr header, length header, ?more)"
    by (simp add: csv_write_def)
  moreover have "export_csv includeTags secrets = csv_write header @ ?more"
    by (simp add: export_csv_def header_def)
  moreover have "(length header > 2) = includeTags"
    using header(4) by simp
  ultimately show ?thesis
    using import_records_rows [OF assms header(4)] by (simp add: import_csv_def)
qed

lemma csv_roundtrip_witness:
  "import_csv (export_csv True [(''=a'', CHR 0x0D # ''x'' @ [CHR 0x0A, CHR 0x22], ['','', []])])
   = Inr ([], [reimported True (''=a'', CHR 0x0D # ''x'' @ [CHR 0x0A, CHR 0x22], ['','', []])])"
  using csv_roundtrip [of "[(''=a'', CHR 0x0D # ''x'' @ [CHR 0x0A, CHR 0x22], ['','', []])]" True] by simp

end
