(* ===== verification/Secrets.thy ===== *)
theory Secrets
  imports SecretCache Pwgen Csv
begin

text \<open>
  The secret services (\<open>src/internal/services/secrets\<close>): \<open>versioning_service.go\<close>, \<open>secret_service.go\<close>
  with \<open>secret_update.go\<close>, and the cached service that callers get
  (\<open>src/internal/cache/cache_integration.go\<close>).

  An operation takes the surroundings of the call and the state, and returns its result with the
  state it leaves; nothing is undone when a later statement fails, as in the code.
\<close>

datatype secret_error =
    ErrSecretNotFound | ErrInvalidContentType | ErrLifecycleDenied | ErrEncrypt | ErrDecrypt
  | ErrStore secret_repo_error | ErrItem item_error | ErrTags secret_repo_error | ErrArchive secret_error
  | ErrOwnerMissing | ErrNotOwner | ErrVersion secret_repo_error | ErrLength | ErrNoCharacters | ErrGenerate pw_error
  | ErrGlobalProtection | ErrVaultProtection | ErrVaultCheck repo_error | ErrSecretAudit
  | ErrExportFormat | ErrEncodeTags | ErrExportPassphraseRequired | ErrSeal | ErrImportDataIsSealed | ErrImportParse

type_synonym 'a secret_result = "(secret_error + 'a) \<times> secret_state"

definition with_db :: "(secret_db \<Rightarrow> 'e option \<times> secret_db) \<Rightarrow> secret_state \<Rightarrow> 'e option \<times> secret_state" where
  "with_db f st = (case f (ss_db st) of (e, db) \<Rightarrow> (e, st\<lparr>ss_db := db\<rparr>))"

section \<open>Versions\<close>

definition CreateVersion ::
  "secret_env \<Rightarrow> uuid \<Rightarrow> uuid \<Rightarrow> go_string \<Rightarrow> go_string \<Rightarrow> int \<Rightarrow> secret_state \<Rightarrow> secret_version secret_result" where
  "CreateVersion env i user n plain version st =
     (if sn_fails env SxUser \<or> user \<notin> set (sd_users (ss_db st)) then (Inl ErrOwnerMissing, st)
      else case secret_read (sn_fails env) SxParent i (NewAdminScope user) (ss_db st) of
        Inl e \<Rightarrow> (Inl (ErrStore e), st)
      | Inr s \<Rightarrow>
          if sr_user s \<noteq> user then (Inl ErrNotOwner, st)
          else case sn_encrypt env EncArchive plain of
            None \<Rightarrow> (Inl ErrEncrypt, st)
          | Some c \<Rightarrow>
              let v = \<lparr>sv_secret = i, sv_user = user, sv_name = n, sv_value = c, sv_version = version,
                        sv_created = sn_now env\<rparr> in
              case with_db (createVersion (sn_fails env) v) st of
                (Some e, st') \<Rightarrow> (Inl (ErrStore e), st')
              | (None, st') \<Rightarrow> (Inr (v\<lparr>sv_value := plain\<rparr>), st'))"

definition readAccessibleParent :: "secret_env \<Rightarrow> uuid \<Rightarrow> scope \<Rightarrow> secret_state \<Rightarrow> secret_error option" where
  "readAccessibleParent env i scope st =
     (case secret_read (sn_fails env) SxRead i scope (ss_db st) of
        Inl _ \<Rightarrow> Some ErrSecretNotFound
      | Inr s \<Rightarrow> if IsAccessible (sn_now env) s then None else Some ErrLifecycleDenied)"

fun decrypt_versions :: "(go_string \<Rightarrow> go_string option) \<Rightarrow> secret_version list \<Rightarrow> secret_version list option" where
  "decrypt_versions dec [] = Some []"
| "decrypt_versions dec (v # vs) =
     (case dec (sv_value v) of
        None \<Rightarrow> None
      | Some p \<Rightarrow> map_option (\<lambda>ws. v\<lparr>sv_value := p\<rparr> # ws) (decrypt_versions dec vs))"

definition GetVersions ::
  "secret_system \<Rightarrow> secret_env \<Rightarrow> uuid \<Rightarrow> scope \<Rightarrow> secret_state \<Rightarrow> secret_error + secret_version list" where
  "GetVersions sys env i scope st =
     (case readAccessibleParent env i scope st of
        Some e \<Rightarrow> Inl e
      | None \<Rightarrow>
          (case repo_GetVersions (sn_fails env) i (ss_db st) of
             Inl e \<Rightarrow> Inl (ErrVersion e)
           | Inr vs \<Rightarrow> (case decrypt_versions (sx_decrypt sys) vs of None \<Rightarrow> Inl ErrDecrypt | Some ws \<Rightarrow> Inr ws)))"

text \<open>The listing without values needs no decryption and no access window.\<close>

record version_metadata =
  vm_secret :: uuid
  vm_name :: go_string
  vm_version :: int
  vm_created :: instant

definition GetVersionsMetadata ::
  "secret_env \<Rightarrow> uuid \<Rightarrow> scope \<Rightarrow> secret_state \<Rightarrow> secret_error + version_metadata list" where
  "GetVersionsMetadata env i scope st =
     (case secret_read (sn_fails env) SxRead i scope (ss_db st) of
        Inl _ \<Rightarrow> Inl ErrSecretNotFound
      | Inr _ \<Rightarrow>
          (case repo_GetVersions (sn_fails env) i (ss_db st) of
             Inl e \<Rightarrow> Inl (ErrVersion e)
           | Inr vs \<Rightarrow> Inr (map (\<lambda>v. \<lparr>vm_secret = sv_secret v, vm_name = sv_name v, vm_version = sv_version v,
                                 vm_created = sv_created v\<rparr>) vs)))"

definition open_version ::
  "secret_system \<Rightarrow> secret_repo_error + secret_version \<Rightarrow> secret_error + secret_version" where
  "open_version sys r =
     (case r of
        Inl RowNotFound \<Rightarrow> Inl ErrSecretNotFound
      | Inl e \<Rightarrow> Inl (ErrVersion e)
      | Inr v \<Rightarrow> (case sx_decrypt sys (sv_value v) of None \<Rightarrow> Inl ErrDecrypt | Some p \<Rightarrow> Inr (v\<lparr>sv_value := p\<rparr>)))"

definition GetVersion ::
  "secret_system \<Rightarrow> secret_env \<Rightarrow> uuid \<Rightarrow> int \<Rightarrow> scope \<Rightarrow> secret_state \<Rightarrow> secret_error + secret_version" where
  "GetVersion sys env i n scope st =
     (case readAccessibleParent env i scope st of
        Some e \<Rightarrow> Inl e
      | None \<Rightarrow> open_version sys (repo_GetVersion (sn_fails env) i n (ss_db st)))"

definition GetLatestVersion ::
  "secret_system \<Rightarrow> secret_env \<Rightarrow> uuid \<Rightarrow> scope \<Rightarrow> secret_state \<Rightarrow> secret_error + secret_version" where
  "GetLatestVersion sys env i scope st =
     (case readAccessibleParent env i scope st of
        Some e \<Rightarrow> Inl e
      | None \<Rightarrow> open_version sys (repo_GetLatestVersion (sn_fails env) i (ss_db st)))"

definition owned_secret :: "secret_env \<Rightarrow> uuid \<Rightarrow> uuid \<Rightarrow> secret_state \<Rightarrow> secret_error + secret" where
  "owned_secret env i user st =
     (case secret_read (sn_fails env) SxRead i (NewAdminScope user) (ss_db st) of
        Inl e \<Rightarrow> Inl (ErrStore e)
      | Inr s \<Rightarrow> if sr_user s \<noteq> user then Inl ErrNotOwner else Inr s)"

definition DeleteVersions :: "secret_env \<Rightarrow> uuid \<Rightarrow> uuid \<Rightarrow> secret_state \<Rightarrow> secret_error option \<times> secret_state" where
  "DeleteVersions env i user st =
     (case owned_secret env i user st of
        Inl e \<Rightarrow> (Some e, st)
      | Inr _ \<Rightarrow>
          (case with_db (repo_DeleteVersions (sn_fails env) i) st of (e, st') \<Rightarrow> (map_option ErrVersion e, st')))"

definition DeleteSpecificVersion ::
  "secret_env \<Rightarrow> uuid \<Rightarrow> int \<Rightarrow> uuid \<Rightarrow> secret_state \<Rightarrow> secret_error option \<times> secret_state" where
  "DeleteSpecificVersion env i n user st =
     (case owned_secret env i user st of
        Inl e \<Rightarrow> (Some e, st)
      | Inr _ \<Rightarrow>
          (case with_db (repo_DeleteSpecificVersion (sn_fails env) i n) st of
             (e, st') \<Rightarrow> (map_option ErrVersion e, st')))"

definition RollbackToVersion ::
  "secret_system \<Rightarrow> secret_env \<Rightarrow> uuid \<Rightarrow> int \<Rightarrow> uuid \<Rightarrow> secret_state \<Rightarrow> secret secret_result" where
  "RollbackToVersion sys env i target user st =
     (case owned_secret env i user st of
        Inl e \<Rightarrow> (Inl e, st)
      | Inr s \<Rightarrow>
     (case repo_GetVersion (sn_fails env) i target (ss_db st) of
        Inl e \<Rightarrow> (Inl (ErrVersion e), st)
      | Inr tv \<Rightarrow>
     (case sx_decrypt sys (sv_value tv) of
        None \<Rightarrow> (Inl ErrDecrypt, st)
      | Some plain \<Rightarrow>
     (case sx_decrypt sys (sr_value s) of
        None \<Rightarrow> (Inl ErrDecrypt, st)
      | Some current \<Rightarrow>
     (case CreateVersion env i user (sr_name s) current (sr_version s + 1) st of
        (Inl e, st1) \<Rightarrow> (Inl (ErrArchive e), st1)
      | (Inr _, st1) \<Rightarrow>
     (case sn_encrypt env EncValue plain of
        None \<Rightarrow> (Inl ErrEncrypt, st1)
      | Some c \<Rightarrow>
          let s' = s\<lparr>sr_value := c, sr_version := sr_version s + 2\<rparr> in
          case with_db (secret_update (sn_fails env) s' (NewOwnerScope (sr_vault s) (sr_user s))) st1 of
            (Some e, st2) \<Rightarrow> (Inl (ErrStore e), st2)
          | (None, st2) \<Rightarrow>
              (Inr (s'\<lparr>sr_value := plain\<rparr>), st2\<lparr>ss_cache := DeleteByID i (ss_cache st2)\<rparr>)))))))"

section \<open>Secrets\<close>

record create_secret_request =
  cq_user :: uuid
  cq_vault :: uuid
  cq_name :: go_string
  cq_value :: go_string
  cq_tags :: "go_string list"
  cq_type :: go_string
  cq_enabled :: "bool option"
  cq_expires :: "instant option"
  cq_not_before :: "instant option"
  cq_protection :: "bool option"

record update_secret_request =
  uq_id :: uuid
  uq_scope :: scope
  uq_name :: "go_string option"
  uq_value :: "go_string option"
  uq_tags :: "go_string list option"
  uq_type :: "go_string option"
  uq_enabled :: "bool option"
  uq_expires :: "instant option"
  uq_not_before :: "instant option"
  uq_protection :: "bool option"

definition validContentTypes :: "go_string list" where
  "validContentTypes =
     ['''', ''text/plain'', ''application/json'', ''application/xml'', ''application/x-pem-file'',
      ''application/x-pkcs12'', ''application/octet-stream'']"

definition CreateSecret :: "secret_env \<Rightarrow> create_secret_request \<Rightarrow> secret_state \<Rightarrow> secret secret_result" where
  "CreateSecret env req st =
     (if cq_type req \<notin> set validContentTypes then (Inl ErrInvalidContentType, st)
      else case sn_encrypt env EncValue (cq_value req) of
        None \<Rightarrow> (Inl ErrEncrypt, st)
      | Some c \<Rightarrow>
          let s = \<lparr>sr_id = sn_id env, sr_user = cq_user req,
                    sr_vault = (if cq_vault req = uuid_nil then DefaultVaultID else cq_vault req),
                    sr_name = cq_name req, sr_value = c, sr_version = 1, sr_tags = cq_tags req,
                    sr_created = sn_now env, sr_deleted = None, sr_protected = False, sr_expires = cq_expires req,
                    sr_not_before = cq_not_before req,
                    sr_enabled = (case cq_enabled req of None \<Rightarrow> True | Some b \<Rightarrow> b), sr_type = cq_type req\<rparr> in
          case with_db (secret_create (sn_fails env) s) st of
            (Some e, st1) \<Rightarrow> (Inl (ErrStore e), st1)
          | (None, st1) \<Rightarrow>
              (case cq_protection req of
                 None \<Rightarrow> (Inr (s\<lparr>sr_value := cq_value req\<rparr>), st1)
               | Some b \<Rightarrow>
                   (case with_db (secret_protect (sn_fails env) (sn_id env) b) st1 of
                      (Some e, st2) \<Rightarrow> (Inl (ErrItem e), st2)
                    | (None, st2) \<Rightarrow> (Inr (s\<lparr>sr_value := cq_value req\<rparr>), st2))))"

definition applySecretUpdate ::
  "secret \<Rightarrow> update_secret_request \<Rightarrow> (go_string \<Rightarrow> go_string option) \<Rightarrow> secret_error + secret" where
  "applySecretUpdate current req encrypt =
     (if (case uq_type req of None \<Rightarrow> False | Some t \<Rightarrow> t \<notin> set validContentTypes) then Inl ErrInvalidContentType
      else
        let u = current\<lparr>sr_version := sr_version current + 1,
                  sr_type := (case uq_type req of None \<Rightarrow> sr_type current | Some t \<Rightarrow> t),
                  sr_name := (case uq_name req of None \<Rightarrow> sr_name current | Some n \<Rightarrow> n),
                  sr_enabled := (case uq_enabled req of None \<Rightarrow> sr_enabled current | Some b \<Rightarrow> b),
                  sr_expires := (case uq_expires req of None \<Rightarrow> sr_expires current | Some t \<Rightarrow> Some t),
                  sr_not_before := (case uq_not_before req of None \<Rightarrow> sr_not_before current | Some t \<Rightarrow> Some t)\<rparr> in
        case uq_value req of
          None \<Rightarrow> Inr u
        | Some p \<Rightarrow> (case encrypt p of None \<Rightarrow> Inl ErrEncrypt | Some c \<Rightarrow> Inr (u\<lparr>sr_value := c\<rparr>)))"

text \<open>The writes after the row: purge protection and the tags.\<close>

definition update_extras ::
  "secret_env \<Rightarrow> update_secret_request \<Rightarrow> secret_state \<Rightarrow> secret_error option \<times> secret_state" where
  "update_extras env req st =
     (case (case uq_protection req of
              None \<Rightarrow> (None, st)
            | Some b \<Rightarrow> with_db (secret_protect (sn_fails env) (uq_id req) b) st) of
        (Some e, st1) \<Rightarrow> (Some (ErrItem e), st1)
      | (None, st1) \<Rightarrow>
          (case uq_tags req of
             None \<Rightarrow> (None, st1)
           | Some tags \<Rightarrow>
               (case with_db (RemoveAllTags (sn_fails env) (uq_id req)) st1 of
                  (Some e, st2) \<Rightarrow> (Some (ErrTags e), st2)
                | (None, st2) \<Rightarrow>
                    if tags = [] then (None, st2)
                    else (case with_db (AddTags (sn_fails env) (uq_id req) tags) st2 of
                        (e, st3) \<Rightarrow> (map_option ErrTags e, st3)))))"

definition UpdateSecret ::
  "secret_system \<Rightarrow> secret_env \<Rightarrow> update_secret_request \<Rightarrow> secret_state \<Rightarrow> secret_error option \<times> secret_state" where
  "UpdateSecret sys env req st =
     (case secret_read (sn_fails env) SxRead (uq_id req) (uq_scope req) (ss_db st) of
        Inl _ \<Rightarrow> (Some ErrSecretNotFound, st)
      | Inr s \<Rightarrow>
     (case sx_decrypt sys (sr_value s) of
        None \<Rightarrow> (Some ErrDecrypt, st)
      | Some current \<Rightarrow>
     (case CreateVersion env (sr_id s) (sr_user s) (sr_name s) current (sr_version s) st of
        (Inl e, st1) \<Rightarrow> (Some (ErrArchive e), st1)
      | (Inr _, st1) \<Rightarrow>
     (case applySecretUpdate s req (sn_encrypt env EncValue) of
        Inl e \<Rightarrow> (Some e, st1)
      | Inr s' \<Rightarrow>
     (case with_db (secret_update (sn_fails env) s' (uq_scope req)) st1 of
        (Some e, st2) \<Rightarrow> (Some (ErrStore e), st2)
      | (None, st2) \<Rightarrow> update_extras env req st2)))))"

definition GetSecret ::
  "secret_system \<Rightarrow> secret_env \<Rightarrow> uuid \<Rightarrow> scope \<Rightarrow> secret_state \<Rightarrow> secret_error + secret" where
  "GetSecret sys env i scope st =
     (case secret_read (sn_fails env) SxRead i scope (ss_db st) of
        Inl _ \<Rightarrow> Inl ErrSecretNotFound
      | Inr s \<Rightarrow>
     (case sx_decrypt sys (sr_value s) of
        None \<Rightarrow> Inl ErrDecrypt
      | Some p \<Rightarrow>
     (case GetTags (sn_fails env) i (ss_db st) of
        Inl e \<Rightarrow> Inl (ErrTags e)
      | Inr tags \<Rightarrow>
          let s' = s\<lparr>sr_value := p, sr_tags := tags\<rparr> in
          if IsAccessible (sn_now env) s' then Inr s' else Inl ErrLifecycleDenied)))"

fun open_secrets ::
  "(go_string \<Rightarrow> go_string option) \<Rightarrow> (uuid \<Rightarrow> secret_repo_error + go_string list) \<Rightarrow> secret list \<Rightarrow> secret_error + secret list" where
  "open_secrets dec tags [] = Inr []"
| "open_secrets dec tags (s # ss) =
     (case dec (sr_value s) of
        None \<Rightarrow> Inl ErrDecrypt
      | Some p \<Rightarrow>
          (case tags (sr_id s) of
             Inl e \<Rightarrow> Inl (ErrTags e)
           | Inr ts \<Rightarrow>
               (case open_secrets dec tags ss of
                  Inl e \<Rightarrow> Inl e
                | Inr rest \<Rightarrow> Inr (s\<lparr>sr_value := p, sr_tags := ts\<rparr> # rest))))"

definition list_filter :: "go_string list \<Rightarrow> bool \<Rightarrow> int \<Rightarrow> int \<Rightarrow> secret_filter" where
  "list_filter tags del limit offset =
     \<lparr>sf_tags = tags, sf_include_deleted = False, sf_only_deleted = del, sf_limit = limit, sf_offset = offset\<rparr>"

definition ListSecrets ::
  "secret_system \<Rightarrow> secret_env \<Rightarrow> scope \<Rightarrow> go_string list \<Rightarrow> int \<Rightarrow> int \<Rightarrow> secret_state \<Rightarrow> secret_error + secret list" where
  "ListSecrets sys env scope tags limit offset st =
     (case secret_list (sn_fails env) scope (list_filter tags False limit offset) (ss_db st) of
        Inl e \<Rightarrow> Inl (ErrStore e)
      | Inr ss \<Rightarrow> open_secrets (sx_decrypt sys) (\<lambda>i. GetTags (sn_fails env) i (ss_db st)) ss)"

definition DeleteSecret ::
  "secret_env \<Rightarrow> uuid \<Rightarrow> scope \<Rightarrow> secret_state \<Rightarrow> secret_error option \<times> secret_state" where
  "DeleteSecret env i scope st =
     (case secret_read (sn_fails env) SxRead i scope (ss_db st) of
        Inl _ \<Rightarrow> (Some ErrSecretNotFound, st)
      | Inr _ \<Rightarrow>
          (case with_db (RemoveAllTags (sn_fails env) i) st of
             (Some e, st1) \<Rightarrow> (Some (ErrTags e), st1)
           | (None, st1) \<Rightarrow>
               (case with_db (secret_soft_delete (sn_fails env) (sn_now env) i) st1 of
                  (e, st2) \<Rightarrow> (map_option ErrItem e, st2))))"

definition ListDeletedSecrets :: "secret_env \<Rightarrow> scope \<Rightarrow> secret_state \<Rightarrow> secret_error + secret list" where
  "ListDeletedSecrets env scope st =
     (case secret_list (sn_fails env) scope (list_filter [] True 0 0) (ss_db st) of
        Inl e \<Rightarrow> Inl (ErrStore e) | Inr ss \<Rightarrow> Inr ss)"

definition softDeletedInScope :: "secret_env \<Rightarrow> uuid \<Rightarrow> scope \<Rightarrow> secret_state \<Rightarrow> secret_error + bool" where
  "softDeletedInScope env i scope st =
     (case ListDeletedSecrets env scope st of
        Inl e \<Rightarrow> Inl e | Inr ss \<Rightarrow> Inr (list_ex (\<lambda>s. sr_id s = i) ss))"

definition RecoverSecret ::
  "secret_env \<Rightarrow> uuid \<Rightarrow> scope \<Rightarrow> secret_state \<Rightarrow> secret_error option \<times> secret_state" where
  "RecoverSecret env i scope st =
     (case softDeletedInScope env i scope st of
        Inl e \<Rightarrow> (Some e, st)
      | Inr False \<Rightarrow> (Some ErrSecretNotFound, st)
      | Inr True \<Rightarrow>
          (case with_db (secret_recover (sn_fails env) i) st of (e, st') \<Rightarrow> (map_option ErrItem e, st')))"

text \<open>The protection of the vault blocks the purge of its secrets; a vault that cannot be read blocks it too.\<close>

definition vault_blocks :: "secret_system \<Rightarrow> secret_env \<Rightarrow> scope \<Rightarrow> secret_state \<Rightarrow> secret_error option" where
  "vault_blocks sys env scope st =
     (if sx_has_vaults sys \<and> sc_vault scope \<noteq> uuid_nil then
        (case ReadByID (sn_fails env \<circ> SxVault) (sc_vault scope) (sd_vaults (ss_db st)) of
           Inl e \<Rightarrow> Some (ErrVaultCheck e)
         | Inr v \<Rightarrow> if v_purge_protection v then Some ErrVaultProtection else None)
      else None)"

definition purge_op ::
  "secret_system \<Rightarrow> secret_env \<Rightarrow> uuid \<Rightarrow> secret_state \<Rightarrow> secret_error option \<times> secret_state" where
  "purge_op sys env i st =
     (case with_db (secret_purge (sx_fk sys) (sn_fails env) i) st of (e, st') \<Rightarrow> (map_option ErrItem e, st'))"

definition critical_secret ::
  "secret_system \<Rightarrow> secret_env \<Rightarrow> uuid \<Rightarrow> go_string \<Rightarrow> uuid \<Rightarrow> (secret_state \<Rightarrow> secret_error option \<times> secret_state)
     \<Rightarrow> secret_state \<Rightarrow> secret_error option \<times> secret_state" where
  "critical_secret sys env actor action i op st =
     (if \<not> sx_has_audit sys then op st
      else case WithCritical (sn_attempt_fails env) (sn_result_fails env) (put_secret_event actor action i) op st of
        (None, st') \<Rightarrow> (None, st')
      | (Some ErrAuditUnavailable, st') \<Rightarrow> (Some ErrSecretAudit, st')
      | (Some (OpError e), st') \<Rightarrow> (Some e, st'))"

definition PurgeSecret ::
  "secret_system \<Rightarrow> secret_env \<Rightarrow> uuid \<Rightarrow> scope \<Rightarrow> secret_state \<Rightarrow> secret_error option \<times> secret_state" where
  "PurgeSecret sys env i scope st =
     (if sx_global_protection sys then (Some ErrGlobalProtection, st)
      else case softDeletedInScope env i scope st of
        Inl e \<Rightarrow> (Some e, st)
      | Inr False \<Rightarrow> (Some ErrSecretNotFound, st)
      | Inr True \<Rightarrow>
          (case vault_blocks sys env scope st of
             Some e \<Rightarrow> (Some e, st)
           | None \<Rightarrow> critical_secret sys env (sc_actor scope) ''purge_secret'' i (purge_op sys env i) st))"

end
