(* ===== verification/SecretTransfer.thy ===== *)
theory SecretTransfer
  imports Secrets
begin

text \<open>
  Generated secrets, export and import (\<open>src/internal/services/secrets/secret_service.go\<close>), and the cached
  service in front of all of it (\<open>src/internal/cache/cache_integration.go\<close>).
\<close>

section \<open>Generated secrets\<close>

record generate_request =
  gq_user :: uuid
  gq_vault :: uuid
  gq_name :: go_string
  gq_length :: int
  gq_symbols :: bool
  gq_numbers :: bool
  gq_upper :: bool
  gq_lower :: bool

definition GenerateSecret :: "secret_env \<Rightarrow> generate_request \<Rightarrow> secret_state \<Rightarrow> secret secret_result" where
  "GenerateSecret env req st =
     (if gq_length req < 8 \<or> gq_length req > 128 then (Inl ErrLength, st)
      else if \<not> gq_symbols req \<and> \<not> gq_numbers req \<and> \<not> gq_upper req \<and> \<not> gq_lower req then (Inl ErrNoCharacters, st)
      else case Generate \<lparr>po_length = gq_length req, po_upper = gq_upper req, po_lower = gq_lower req,
                po_numbers = gq_numbers req, po_special = gq_symbols req\<rparr> (sn_random env) of
        Inl e \<Rightarrow> (Inl (ErrGenerate e), st)
      | Inr pw \<Rightarrow>
          CreateSecret env \<lparr>cq_user = gq_user req, cq_vault = gq_vault req, cq_name = gq_name req, cq_value = pw,
            cq_tags = [''generated''], cq_type = [], cq_enabled = None, cq_expires = None, cq_not_before = None,
            cq_protection = None\<rparr> st)"

section \<open>Export\<close>

record export_request =
  xq_scope :: scope
  xq_format :: go_string
  xq_filter_tags :: "go_string list"
  xq_include_tags :: bool
  xq_encrypt :: bool
  xq_passphrase :: go_string

definition accessibleOnly :: "instant \<Rightarrow> secret list \<Rightarrow> secret list" where
  "accessibleOnly now ss = filter (IsAccessible now) ss"

definition export_row :: "secret \<Rightarrow> go_string \<times> go_string \<times> go_string list" where
  "export_row s = (sr_name s, sr_value s, sr_tags s)"

definition seal_export :: "secret_system \<Rightarrow> export_request \<Rightarrow> go_string \<Rightarrow> secret_error + go_string" where
  "seal_export sys req data =
     (if xq_encrypt req \<or> xq_passphrase req \<noteq> [] then
        if xq_passphrase req = [] then Inl ErrExportPassphraseRequired
        else (case sx_seal sys data (xq_passphrase req) of None \<Rightarrow> Inl ErrSeal | Some d \<Rightarrow> Inr d)
      else Inr data)"

definition ExportSecrets :: "secret_system \<Rightarrow> secret_env \<Rightarrow> export_request \<Rightarrow> secret_state \<Rightarrow> secret_error + go_string" where
  "ExportSecrets sys env req st =
     (if xq_format req \<noteq> ''json'' \<and> xq_format req \<noteq> ''csv'' then Inl ErrExportFormat
      else case ListSecrets sys env (xq_scope req) (xq_filter_tags req) 0 0 st of
        Inl e \<Rightarrow> Inl e
      | Inr ss \<Rightarrow>
          let rows = map export_row (accessibleOnly (sn_now env) ss) in
          seal_export sys req
            (if xq_format req = ''json''
             then sx_marshal sys (if xq_include_tags req then rows else map (\<lambda>(n, v, _). (n, v, [])) rows)
             else export_csv (xq_include_tags req) rows))"

section \<open>Import\<close>

record import_request =
  mq_scope :: scope
  mq_data :: go_string
  mq_format :: go_string
  mq_overwrite :: bool

datatype import_problem =
    ParseProblem record_error | MissingField | InvalidItem go_string | NameExists go_string | ItemFailed go_string

record import_result =
  mr_imported :: nat
  mr_skipped :: nat
  mr_failed :: nat
  mr_total :: nat
  mr_errors :: "import_problem list"

definition import_item_error :: "go_string \<Rightarrow> secret_error \<Rightarrow> import_problem" where
  "import_item_error n e = (if e = ErrStore NameTaken then NameExists n else ItemFailed n)"

definition failed_item :: "import_problem \<Rightarrow> import_result \<Rightarrow> import_result" where
  "failed_item p r = r\<lparr>mr_failed := mr_failed r + 1, mr_errors := mr_errors r @ [p]\<rparr>"

definition import_item ::
  "secret_system \<Rightarrow> secret_env \<Rightarrow> import_request \<Rightarrow> transfer \<Rightarrow> import_result \<times> secret_state \<Rightarrow> import_result \<times> secret_state" where
  "import_item sys env req t rs =
     (case rs of (r, st) \<Rightarrow>
      if tr_name t = [] \<or> tr_value t = []
      then (r\<lparr>mr_skipped := mr_skipped r + 1, mr_errors := mr_errors r @ [MissingField]\<rparr>, st)
      else if \<not> sx_valid sys (tr_name t) (tr_value t) (tr_tags t) then (failed_item (InvalidItem (tr_name t)) r, st)
      else case secret_find_by_name (sn_fails env) (tr_name t) (mq_scope req) (ss_db st) of
        Inl RowNotFound \<Rightarrow>
          (case CreateSecret env \<lparr>cq_user = sc_actor (mq_scope req), cq_vault = ResolvedVaultID (mq_scope req),
                cq_name = tr_name t, cq_value = tr_value t,
                cq_tags = (case tr_tags t of None \<Rightarrow> [] | Some ts \<Rightarrow> ts), cq_type = [], cq_enabled = None,
                cq_expires = None, cq_not_before = None, cq_protection = None\<rparr> st of
             (Inl e, st') \<Rightarrow> (failed_item (import_item_error (tr_name t) e) r, st')
           | (Inr _, st') \<Rightarrow> (r\<lparr>mr_imported := mr_imported r + 1\<rparr>, st'))
      | Inl e \<Rightarrow> (failed_item (import_item_error (tr_name t) (ErrStore e)) r, st)
      | Inr s \<Rightarrow>
          if \<not> mq_overwrite req then (r\<lparr>mr_skipped := mr_skipped r + 1\<rparr>, st)
          else (case UpdateSecret sys env \<lparr>uq_id = sr_id s, uq_scope = mq_scope req, uq_name = None,
                uq_value = Some (tr_value t), uq_tags = tr_tags t, uq_type = None, uq_enabled = None,
                uq_expires = None, uq_not_before = None, uq_protection = None\<rparr> st of
             (Some e, st') \<Rightarrow> (failed_item (import_item_error (tr_name t) e) r, st')
           | (None, st') \<Rightarrow> (r\<lparr>mr_imported := mr_imported r + 1\<rparr>, st')))"

text \<open>Every item finds surroundings of its own.\<close>

fun import_items ::
  "secret_system \<Rightarrow> (nat \<Rightarrow> secret_env) \<Rightarrow> import_request \<Rightarrow> nat \<Rightarrow> transfer list \<Rightarrow> import_result \<times> secret_state
     \<Rightarrow> import_result \<times> secret_state" where
  "import_items sys envs req k [] rs = rs"
| "import_items sys envs req k (t # ts) rs = import_items sys envs req (k + 1) ts (import_item sys (envs k) req t rs)"

definition parse_import ::
  "secret_system \<Rightarrow> import_request \<Rightarrow> secret_error + record_error list \<times> transfer list" where
  "parse_import sys req =
     (if mq_format req = ''json'' then
        (case sx_unmarshal sys (mq_data req) of
           None \<Rightarrow> Inl ErrImportParse
         | Some ts \<Rightarrow> Inr ([], map (\<lambda>(n, v, tags). \<lparr>tr_name = n, tr_value = v, tr_tags = tags\<rparr>) ts))
      else (case import_csv (mq_data req) of Inl _ \<Rightarrow> Inl ErrImportParse | Inr r \<Rightarrow> Inr r))"

definition ImportSecrets ::
  "secret_system \<Rightarrow> (nat \<Rightarrow> secret_env) \<Rightarrow> import_request \<Rightarrow> secret_state \<Rightarrow> import_result secret_result" where
  "ImportSecrets sys envs req st =
     (if mq_format req \<noteq> ''json'' \<and> mq_format req \<noteq> ''csv'' then (Inl ErrExportFormat, st)
      else if sx_is_sealed sys (mq_data req) then (Inl ErrImportDataIsSealed, st)
      else case parse_import sys req of
        Inl e \<Rightarrow> (Inl e, st)
      | Inr (errs, ts) \<Rightarrow>
          (case import_items sys envs req 0 ts
               (\<lparr>mr_imported = 0, mr_skipped = 0, mr_failed = 0, mr_total = length ts, mr_errors = map ParseProblem errs\<rparr>, st) of
             (r, st') \<Rightarrow> (Inr r, st')))"

section \<open>The cached service\<close>

definition evict_after ::
  "uuid \<Rightarrow> secret_error option \<times> secret_state \<Rightarrow> secret_error option \<times> secret_state" where
  "evict_after i r =
     (case r of
        (Some e, st) \<Rightarrow> (Some e, st)
      | (None, st) \<Rightarrow> (None, st\<lparr>ss_cache := DeleteByID i (ss_cache st)\<rparr>))"

definition cached_GetSecret ::
  "secret_system \<Rightarrow> secret_env \<Rightarrow> uuid \<Rightarrow> scope \<Rightarrow> secret_state \<Rightarrow> secret secret_result" where
  "cached_GetSecret sys env i scope st =
     (case cached_get (sx_show sys) (sx_cache sys) (sn_now env) i scope (ss_cache st) of
        (hit, c) \<Rightarrow>
      if (case hit of None \<Rightarrow> False | Some s \<Rightarrow> IsAccessible (sn_now env) s) then (Inr (the hit), st\<lparr>ss_cache := c\<rparr>)
      else
        let st1 = st\<lparr>ss_cache := (if hit = None then c else DeleteByID i c)\<rparr> in
        case GetSecret sys env i scope st1 of
          Inl e \<Rightarrow> (Inl e, st1)
        | Inr s \<Rightarrow>
            (Inr s, st1\<lparr>ss_cache := cached_set (sx_show sys) (sx_cache sys) (sn_now env) s scope (ss_cache st1)\<rparr>))"

definition cached_UpdateSecret ::
  "secret_system \<Rightarrow> secret_env \<Rightarrow> update_secret_request \<Rightarrow> secret_state \<Rightarrow> secret_error option \<times> secret_state" where
  "cached_UpdateSecret sys env req st = evict_after (uq_id req) (UpdateSecret sys env req st)"

definition cached_DeleteSecret ::
  "secret_env \<Rightarrow> uuid \<Rightarrow> scope \<Rightarrow> secret_state \<Rightarrow> secret_error option \<times> secret_state" where
  "cached_DeleteSecret env i scope st = evict_after i (DeleteSecret env i scope st)"

definition cached_RecoverSecret ::
  "secret_env \<Rightarrow> uuid \<Rightarrow> scope \<Rightarrow> secret_state \<Rightarrow> secret_error option \<times> secret_state" where
  "cached_RecoverSecret env i scope st = evict_after i (RecoverSecret env i scope st)"

definition cached_PurgeSecret ::
  "secret_system \<Rightarrow> secret_env \<Rightarrow> uuid \<Rightarrow> scope \<Rightarrow> secret_state \<Rightarrow> secret_error option \<times> secret_state" where
  "cached_PurgeSecret sys env i scope st = evict_after i (PurgeSecret sys env i scope st)"

definition cached_ImportSecrets ::
  "secret_system \<Rightarrow> (nat \<Rightarrow> secret_env) \<Rightarrow> import_request \<Rightarrow> secret_state \<Rightarrow> import_result secret_result" where
  "cached_ImportSecrets sys envs req st =
     (case ImportSecrets sys envs req st of
        (Inl e, st') \<Rightarrow> (Inl e, st')
      | (Inr r, st') \<Rightarrow> (Inr r, st'\<lparr>ss_cache := Flush (ss_cache st')\<rparr>))"

end
