(* ===== verification/Rotation.thy ===== *)
theory Rotation
  imports SecretTransfer
begin

text \<open>
  Rotation policies, their assignment to secrets, rotation and reminders:
  \<open>src/internal/repositories/rotation_repository.go\<close>, \<open>src/internal/services/secrets/rotation_service.go\<close>
  and the scheduler (\<open>scheduler_service.go\<close>).

  The tables are those of SQLite, which runs without foreign keys: no row goes with another one.
  \<open>AddDate\<close> adds days of 24 hours (UTC).  Reminder times are stored to the second.  The history of a
  secret and the reminders that a failed write leaves out are only logged by the code.
\<close>

section \<open>Tables\<close>

record rotation_policy =
  rp_id :: uuid
  rp_user :: uuid
  rp_vault :: uuid
  rp_name :: go_string
  rp_description :: go_string
  rp_interval :: int
  rp_enabled :: bool
  rp_reminder :: int
  rp_auto :: bool
  rp_created :: instant
  rp_updated :: instant

record secret_policy =
  sp_secret :: uuid
  sp_policy :: uuid
  sp_assigned :: instant
  sp_last :: "instant option"
  sp_next :: "instant option"

record rotation_history =
  rh_secret :: uuid
  rh_policy :: "uuid option"
  rh_at :: instant
  rh_previous :: int
  rh_new :: int
  rh_trigger :: go_string
  rh_notes :: go_string

datatype reminder_type = ReminderUpcoming | ReminderOverdue

record rotation_reminder =
  rr_id :: uuid
  rr_secret :: uuid
  rr_policy :: uuid
  rr_type :: reminder_type
  rr_sent :: instant
  rr_next :: "instant option"
  rr_acknowledged :: bool

definition TriggerManual :: go_string where "TriggerManual = ''manual''"

record rotation_state =
  rt_secrets :: secret_state
  rt_policies :: "rotation_policy list"
  rt_assigned :: "secret_policy list"
  rt_history :: "rotation_history list"
  rt_reminders :: "rotation_reminder list"

datatype rotation_stmt =
    RxCreate | RxRead | RxUpdate | RxDelete | RxList | RxAssign | RxRemove | RxSecretPolicies | RxPolicies
  | RxNextRotation | RxRecord | RxHistory | RxDue | RxUpcoming | RxCreateReminder | RxUpdateReminder | RxReminder

record rotation_env =
  rn_secret :: secret_env
  rn_policy_id :: uuid
  rn_reminder_id :: uuid
  rn_fails :: "rotation_stmt \<Rightarrow> bool"

datatype rotation_error =
    ErrActorMissing | ErrReminderDays | ErrPolicyStore secret_repo_error | ErrRotationSecret secret_repo_error
  | ErrReminderStore secret_repo_error | ErrRotationValueRequired | ErrRotationValueConflict
  | ErrRotationGenerate pw_error | ErrRotationFailed secret_error

section \<open>The repository\<close>

definition as_policy_row :: "rotation_policy \<Rightarrow> rotation_policy scoped_row" where
  "as_policy_row p = \<lparr>row_vault = rp_vault p, row_user = rp_user p, row_data = p\<rparr>"

definition rotation_scope_error :: "unit scoped_error \<Rightarrow> secret_repo_error" where
  "rotation_scope_error e = (case e of ErrInvalidScope _ \<Rightarrow> ScopeInvalid | ErrNoRows \<Rightarrow> RowNotFound | _ \<Rightarrow> StmtFailed)"

definition policy_create ::
  "(rotation_stmt \<Rightarrow> bool) \<Rightarrow> rotation_policy \<Rightarrow> rotation_state \<Rightarrow> secret_repo_error option \<times> rotation_state" where
  "policy_create fails p st =
     (if fails RxCreate \<or> list_ex (\<lambda>q. rp_id q = rp_id p) (rt_policies st) then (Some StmtFailed, st)
      else (None, st\<lparr>rt_policies := rt_policies st @ [p]\<rparr>))"

definition policy_read ::
  "(rotation_stmt \<Rightarrow> bool) \<Rightarrow> uuid \<Rightarrow> scope \<Rightarrow> rotation_state \<Rightarrow> secret_repo_error + rotation_policy" where
  "policy_read fails i scope st =
     (case ScopedGet (fails RxRead) (\<lambda>x. rp_id (row_data x) = i) scope (\<lambda>x. Inr (row_data x))
         (map as_policy_row (rt_policies st)) of
        Inl e \<Rightarrow> Inl (rotation_scope_error e) | Inr p \<Rightarrow> Inr p)"

definition policy_exec ::
  "bool \<Rightarrow> uuid \<Rightarrow> (rotation_policy \<Rightarrow> rotation_policy option) \<Rightarrow> scope \<Rightarrow> rotation_state
     \<Rightarrow> secret_repo_error option \<times> rotation_state" where
  "policy_exec fails i effect scope st =
     (case ScopedExec fails (\<lambda>x. rp_id (row_data x) = i)
         (\<lambda>x. map_option (\<lambda>p. x\<lparr>row_data := p\<rparr>) (effect (row_data x))) scope (map as_policy_row (rt_policies st)) of
        (Inl e, _) \<Rightarrow> (Some (rotation_scope_error e), st)
      | (Inr n, rows) \<Rightarrow>
          let st' = st\<lparr>rt_policies := map row_data rows\<rparr> in if n = 0 then (Some RowNotFound, st') else (None, st'))"

definition policy_update ::
  "(rotation_stmt \<Rightarrow> bool) \<Rightarrow> rotation_policy \<Rightarrow> scope \<Rightarrow> rotation_state \<Rightarrow> secret_repo_error option \<times> rotation_state" where
  "policy_update fails p = policy_exec (fails RxUpdate) (rp_id p) (\<lambda>q. Some (q\<lparr>rp_name := rp_name p,
     rp_description := rp_description p, rp_interval := rp_interval p, rp_enabled := rp_enabled p,
     rp_reminder := rp_reminder p, rp_auto := rp_auto p, rp_updated := rp_updated p\<rparr>))"

definition policy_delete ::
  "(rotation_stmt \<Rightarrow> bool) \<Rightarrow> uuid \<Rightarrow> scope \<Rightarrow> rotation_state \<Rightarrow> secret_repo_error option \<times> rotation_state" where
  "policy_delete fails i = policy_exec (fails RxDelete) i (\<lambda>_. None)"

definition policy_list ::
  "(rotation_stmt \<Rightarrow> bool) \<Rightarrow> scope \<Rightarrow> rotation_state \<Rightarrow> secret_repo_error + rotation_policy list" where
  "policy_list fails scope st =
     (case ScopedList (fails RxList) (\<lambda>_. True) scope (\<lambda>x. x) (\<lambda>x. Inr (row_data x)) (map as_policy_row (rt_policies st)) of
        Inl e \<Rightarrow> Inl (rotation_scope_error e) | Inr ps \<Rightarrow> Inr ps)"

definition AssignToSecret ::
  "(rotation_stmt \<Rightarrow> bool) \<Rightarrow> uuid \<Rightarrow> uuid \<Rightarrow> instant \<Rightarrow> instant \<Rightarrow> rotation_state \<Rightarrow> secret_repo_error option \<times> rotation_state" where
  "AssignToSecret fails i p at1 next st =
     (if fails RxAssign \<or> list_ex (\<lambda>a. sp_secret a = i \<and> sp_policy a = p) (rt_assigned st) then (Some StmtFailed, st)
      else (None, st\<lparr>rt_assigned := rt_assigned st
        @ [\<lparr>sp_secret = i, sp_policy = p, sp_assigned = at1, sp_last = None, sp_next = Some next\<rparr>]\<rparr>))"

definition RemoveFromSecret ::
  "(rotation_stmt \<Rightarrow> bool) \<Rightarrow> uuid \<Rightarrow> uuid \<Rightarrow> rotation_state \<Rightarrow> secret_repo_error option \<times> rotation_state" where
  "RemoveFromSecret fails i p st =
     (if fails RxRemove then (Some StmtFailed, st)
      else if \<not> list_ex (\<lambda>a. sp_secret a = i \<and> sp_policy a = p) (rt_assigned st) then (Some RowNotFound, st)
      else (None, st\<lparr>rt_assigned := filter (\<lambda>a. \<not> (sp_secret a = i \<and> sp_policy a = p)) (rt_assigned st)\<rparr>))"

definition GetPoliciesForSecret ::
  "(rotation_stmt \<Rightarrow> bool) \<Rightarrow> uuid \<Rightarrow> rotation_state \<Rightarrow> secret_repo_error + rotation_policy list" where
  "GetPoliciesForSecret fails i st =
     (if fails RxPolicies then Inl StmtFailed
      else Inr (concat (map (\<lambda>p. map (\<lambda>_. p\<lparr>rp_vault := uuid_nil\<rparr>)
        (filter (\<lambda>a. sp_policy a = rp_id p \<and> sp_secret a = i) (rt_assigned st))) (rt_policies st))))"

definition UpdateSecretPolicyRotation ::
  "(rotation_stmt \<Rightarrow> bool) \<Rightarrow> uuid \<Rightarrow> uuid \<Rightarrow> instant \<Rightarrow> instant \<Rightarrow> rotation_state \<Rightarrow> secret_repo_error option \<times> rotation_state" where
  "UpdateSecretPolicyRotation fails i p last_at next st =
     (if fails RxNextRotation then (Some StmtFailed, st)
      else if \<not> list_ex (\<lambda>a. sp_secret a = i \<and> sp_policy a = p) (rt_assigned st) then (Some RowNotFound, st)
      else (None, st\<lparr>rt_assigned := map (\<lambda>a. if sp_secret a = i \<and> sp_policy a = p
        then a\<lparr>sp_last := Some last_at, sp_next := Some next\<rparr> else a) (rt_assigned st)\<rparr>))"

definition RecordRotation ::
  "(rotation_stmt \<Rightarrow> bool) \<Rightarrow> rotation_history \<Rightarrow> rotation_state \<Rightarrow> secret_repo_error option \<times> rotation_state" where
  "RecordRotation fails h st =
     (if fails RxRecord then (Some StmtFailed, st) else (None, st\<lparr>rt_history := rt_history st @ [h]\<rparr>))"

definition repo_GetRotationHistory ::
  "(rotation_stmt \<Rightarrow> bool) \<Rightarrow> uuid \<Rightarrow> rotation_state \<Rightarrow> secret_repo_error + rotation_history list" where
  "repo_GetRotationHistory fails i st =
     (if fails RxHistory then Inl StmtFailed
      else Inr (sort_key (\<lambda>h. - rh_at h) (filter (\<lambda>h. rh_secret h = i) (rt_history st))))"

text \<open>The joins with \<open>rotation_policies\<close>, whose columns the scope reads.\<close>

definition joined :: "('a \<Rightarrow> uuid) \<Rightarrow> 'a list \<Rightarrow> rotation_policy list \<Rightarrow> ('a \<times> rotation_policy) scoped_row list" where
  "joined key xs ps = concat (map (\<lambda>x. map (\<lambda>p. \<lparr>row_vault = rp_vault p, row_user = rp_user p, row_data = (x, p)\<rparr>)
     (filter (\<lambda>p. rp_id p = key x) ps)) xs)"

definition repo_GetDueRotations ::
  "(rotation_stmt \<Rightarrow> bool) \<Rightarrow> instant \<Rightarrow> scope \<Rightarrow> rotation_state \<Rightarrow> secret_repo_error + secret_policy list" where
  "repo_GetDueRotations fails now scope st =
     (case ScopedList (fails RxDue)
         (\<lambda>x. case row_data x of (a, p) \<Rightarrow> rp_enabled p \<and> (case sp_next a of None \<Rightarrow> False | Some t \<Rightarrow> t \<le> now))
         scope (\<lambda>x. x) (\<lambda>x. Inr (fst (row_data x))) (joined sp_policy (rt_assigned st) (rt_policies st)) of
        Inl e \<Rightarrow> Inl (rotation_scope_error e) | Inr as \<Rightarrow> Inr as)"

definition second :: int where "second = 1000000000"

definition repo_GetUpcomingReminders ::
  "(rotation_stmt \<Rightarrow> bool) \<Rightarrow> instant \<Rightarrow> scope \<Rightarrow> rotation_state \<Rightarrow> secret_repo_error + rotation_reminder list" where
  "repo_GetUpcomingReminders fails now scope st =
     (case ScopedList (fails RxUpcoming)
         (\<lambda>x. case row_data x of (r, p) \<Rightarrow> \<not> rr_acknowledged r
            \<and> (case rr_next r of None \<Rightarrow> False | Some t \<Rightarrow> t div second \<le> now div second))
         scope (\<lambda>x. x) (\<lambda>x. Inr (fst (row_data x))) (joined rr_policy (rt_reminders st) (rt_policies st)) of
        Inl e \<Rightarrow> Inl (rotation_scope_error e) | Inr rs \<Rightarrow> Inr rs)"

definition CreateReminder ::
  "(rotation_stmt \<Rightarrow> bool) \<Rightarrow> rotation_reminder \<Rightarrow> rotation_state \<Rightarrow> secret_repo_error option \<times> rotation_state" where
  "CreateReminder fails r st =
     (if fails RxCreateReminder \<or> list_ex (\<lambda>x. rr_id x = rr_id r) (rt_reminders st) then (Some StmtFailed, st)
      else (None, st\<lparr>rt_reminders := rt_reminders st @ [r]\<rparr>))"

definition UpdateReminder ::
  "(rotation_stmt \<Rightarrow> bool) \<Rightarrow> uuid \<Rightarrow> bool \<Rightarrow> instant option \<Rightarrow> rotation_state \<Rightarrow> secret_repo_error option \<times> rotation_state" where
  "UpdateReminder fails i ack next st =
     (if fails RxUpdateReminder then (Some StmtFailed, st)
      else if \<not> list_ex (\<lambda>r. rr_id r = i) (rt_reminders st) then (Some RowNotFound, st)
      else (None, st\<lparr>rt_reminders := map (\<lambda>r. if rr_id r = i then r\<lparr>rr_acknowledged := ack, rr_next := next\<rparr> else r)
        (rt_reminders st)\<rparr>))"

definition GetReminderBySecret ::
  "(rotation_stmt \<Rightarrow> bool) \<Rightarrow> uuid \<Rightarrow> uuid \<Rightarrow> reminder_type \<Rightarrow> rotation_state \<Rightarrow> secret_repo_error + rotation_reminder option" where
  "GetReminderBySecret fails i p ty st =
     (if fails RxReminder then Inl StmtFailed
      else Inr (find (\<lambda>r. rr_secret r = i \<and> rr_policy r = p \<and> rr_type r = ty \<and> \<not> rr_acknowledged r) (rt_reminders st)))"

definition GetSecretPolicies ::
  "(rotation_stmt \<Rightarrow> bool) \<Rightarrow> uuid \<Rightarrow> rotation_state \<Rightarrow> secret_repo_error + secret_policy list" where
  "GetSecretPolicies fails i st =
     (if fails RxSecretPolicies then Inl StmtFailed else Inr (filter (\<lambda>a. sp_secret a = i) (rt_assigned st)))"

section \<open>The service\<close>

definition day :: int where "day = 24 * 60 * 60 * second"

definition add_days :: "instant \<Rightarrow> int \<Rightarrow> instant" where
  "add_days t n = t + n * day"

record policy_request =
  pq_scope :: scope
  pq_name :: go_string
  pq_description :: go_string
  pq_interval :: int
  pq_enabled :: bool
  pq_reminder :: int
  pq_auto :: bool

type_synonym 'a rotation_result = "(rotation_error + 'a) \<times> rotation_state"

definition CreateRotationPolicy :: "rotation_env \<Rightarrow> policy_request \<Rightarrow> rotation_state \<Rightarrow> rotation_policy rotation_result" where
  "CreateRotationPolicy env req st =
     (let actor = sc_actor (pq_scope req); now = sn_now (rn_secret env) in
      if sn_fails (rn_secret env) SxUser \<or> actor \<notin> set (sd_users (ss_db (rt_secrets st))) then (Inl ErrActorMissing, st)
      else if pq_reminder req \<ge> pq_interval req then (Inl ErrReminderDays, st)
      else
        let p = \<lparr>rp_id = rn_policy_id env, rp_user = actor, rp_vault = ResolvedVaultID (pq_scope req), rp_name = pq_name req,
                  rp_description = pq_description req, rp_interval = pq_interval req, rp_enabled = pq_enabled req,
                  rp_reminder = pq_reminder req, rp_auto = pq_auto req, rp_created = now, rp_updated = now\<rparr> in
        case policy_create (rn_fails env) p st of
          (Some e, st') \<Rightarrow> (Inl (ErrPolicyStore e), st')
        | (None, st') \<Rightarrow> (Inr p, st'))"

definition GetPolicy :: "rotation_env \<Rightarrow> uuid \<Rightarrow> scope \<Rightarrow> rotation_state \<Rightarrow> rotation_error + rotation_policy" where
  "GetPolicy env i scope st =
     (case policy_read (rn_fails env) i scope st of Inl e \<Rightarrow> Inl (ErrPolicyStore e) | Inr p \<Rightarrow> Inr p)"

definition UpdateRotationPolicy ::
  "rotation_env \<Rightarrow> uuid \<Rightarrow> policy_request \<Rightarrow> rotation_state \<Rightarrow> rotation_policy rotation_result" where
  "UpdateRotationPolicy env i req st =
     (case policy_read (rn_fails env) i (pq_scope req) st of
        Inl e \<Rightarrow> (Inl (ErrPolicyStore e), st)
      | Inr old \<Rightarrow>
          if pq_reminder req \<ge> pq_interval req then (Inl ErrReminderDays, st)
          else
            let p = \<lparr>rp_id = i, rp_user = rp_user old, rp_vault = rp_vault old, rp_name = pq_name req,
                      rp_description = pq_description req, rp_interval = pq_interval req, rp_enabled = pq_enabled req,
                      rp_reminder = pq_reminder req, rp_auto = pq_auto req, rp_created = rp_created old,
                      rp_updated = sn_now (rn_secret env)\<rparr> in
            case policy_update (rn_fails env) p (pq_scope req) st of
              (Some e, st') \<Rightarrow> (Inl (ErrPolicyStore e), st')
            | (None, st') \<Rightarrow> (Inr p, st'))"

definition DeleteRotationPolicy :: "rotation_env \<Rightarrow> uuid \<Rightarrow> scope \<Rightarrow> rotation_state \<Rightarrow> rotation_error option \<times> rotation_state" where
  "DeleteRotationPolicy env i scope st =
     (case policy_delete (rn_fails env) i scope st of (e, st') \<Rightarrow> (map_option ErrPolicyStore e, st'))"

definition ListPolicies :: "rotation_env \<Rightarrow> scope \<Rightarrow> rotation_state \<Rightarrow> rotation_error + rotation_policy list" where
  "ListPolicies env scope st =
     (case policy_list (rn_fails env) scope st of Inl e \<Rightarrow> Inl (ErrPolicyStore e) | Inr ps \<Rightarrow> Inr ps)"

definition read_for_rotation :: "rotation_env \<Rightarrow> uuid \<Rightarrow> scope \<Rightarrow> rotation_state \<Rightarrow> rotation_error + secret" where
  "read_for_rotation env i scope st =
     (case secret_read (sn_fails (rn_secret env)) SxRead i scope (ss_db (rt_secrets st)) of
        Inl e \<Rightarrow> Inl (ErrRotationSecret e) | Inr s \<Rightarrow> Inr s)"

definition CreateRotationReminder ::
  "rotation_env \<Rightarrow> uuid \<Rightarrow> uuid \<Rightarrow> reminder_type \<Rightarrow> instant option \<Rightarrow> rotation_state
     \<Rightarrow> rotation_error option \<times> rotation_state" where
  "CreateRotationReminder env i p ty next st =
     (case CreateReminder (rn_fails env) \<lparr>rr_id = rn_reminder_id env, rr_secret = i, rr_policy = p, rr_type = ty,
          rr_sent = sn_now (rn_secret env), rr_next = next, rr_acknowledged = False\<rparr> st of
        (e, st') \<Rightarrow> (map_option ErrReminderStore e, st'))"

definition AssignPolicyToSecret ::
  "rotation_env \<Rightarrow> uuid \<Rightarrow> uuid \<Rightarrow> scope \<Rightarrow> rotation_state \<Rightarrow> rotation_error option \<times> rotation_state" where
  "AssignPolicyToSecret env i p scope st =
     (case read_for_rotation env i scope st of
        Inl e \<Rightarrow> (Some e, st)
      | Inr _ \<Rightarrow>
     (case policy_read (rn_fails env) p scope st of
        Inl e \<Rightarrow> (Some (ErrPolicyStore e), st)
      | Inr pol \<Rightarrow>
          let now = sn_now (rn_secret env); next = add_days now (rp_interval pol) in
          case AssignToSecret (rn_fails env) i p now next st of
            (Some e, st1) \<Rightarrow> (Some (ErrPolicyStore e), st1)
          | (None, st1) \<Rightarrow>
              if rp_reminder pol > 0
              then (None, snd (CreateRotationReminder env i p ReminderUpcoming (Some (add_days next (- rp_reminder pol))) st1))
              else (None, st1)))"

definition RemovePolicyFromSecret ::
  "rotation_env \<Rightarrow> uuid \<Rightarrow> uuid \<Rightarrow> scope \<Rightarrow> rotation_state \<Rightarrow> rotation_error option \<times> rotation_state" where
  "RemovePolicyFromSecret env i p scope st =
     (case read_for_rotation env i scope st of
        Inl e \<Rightarrow> (Some e, st)
      | Inr _ \<Rightarrow> (case RemoveFromSecret (rn_fails env) i p st of (e, st') \<Rightarrow> (map_option ErrPolicyStore e, st')))"

definition svc_GetSecretPolicies ::
  "rotation_env \<Rightarrow> uuid \<Rightarrow> scope \<Rightarrow> rotation_state \<Rightarrow> rotation_error + rotation_policy list" where
  "svc_GetSecretPolicies env i scope st =
     (case read_for_rotation env i scope st of
        Inl e \<Rightarrow> Inl e
      | Inr _ \<Rightarrow>
          (case GetPoliciesForSecret (rn_fails env) i st of Inl e \<Rightarrow> Inl (ErrPolicyStore e) | Inr ps \<Rightarrow> Inr ps))"

record rotation_request =
  rq_secret :: uuid
  rq_policy :: uuid
  rq_scope :: scope
  rq_notes :: go_string
  rq_value :: go_string
  rq_generate :: bool
  rq_options :: pw_options
  rq_automatic :: bool

definition zero_options :: pw_options where
  "zero_options = \<lparr>po_length = 0, po_upper = False, po_lower = False, po_numbers = False, po_special = False\<rparr>"

definition resolveRotationValue :: "rotation_request \<Rightarrow> nat list \<Rightarrow> rotation_error + go_string" where
  "resolveRotationValue req random =
     (if rq_value req \<noteq> [] \<and> rq_generate req then Inl ErrRotationValueConflict
      else if rq_value req \<noteq> [] then Inr (rq_value req)
      else if rq_generate req then
        (case Generate (if rq_options req = zero_options then DefaultOptions else rq_options req) random of
           Inl e \<Rightarrow> Inl (ErrRotationGenerate e) | Inr v \<Rightarrow> Inr v)
      else Inl ErrRotationValueRequired)"

definition replaceSecretValue ::
  "secret_system \<Rightarrow> secret_env \<Rightarrow> secret \<Rightarrow> go_string \<Rightarrow> secret_state \<Rightarrow> secret_error option \<times> secret_state" where
  "replaceSecretValue sys env s plain st =
     (case sx_decrypt sys (sr_value s) of
        None \<Rightarrow> (Some ErrDecrypt, st)
      | Some current \<Rightarrow>
     (case CreateVersion env (sr_id s) (sr_user s) (sr_name s) current (sr_version s) st of
        (Inl e, st1) \<Rightarrow> (Some (ErrArchive e), st1)
      | (Inr _, st1) \<Rightarrow>
     (case sn_encrypt env EncValue plain of
        None \<Rightarrow> (Some ErrEncrypt, st1)
      | Some c \<Rightarrow>
          (case with_db (secret_update (sn_fails env) (s\<lparr>sr_value := c, sr_version := sr_version s + 1\<rparr>)
              (NewOwnerScope (sr_vault s) (sr_user s))) st1 of
             (e, st2) \<Rightarrow> (map_option ErrStore e, st2)))))"

text \<open>Who the audit rows of a rotation name: nobody (the nil id, written \<open>system\<close>) for the scheduler.\<close>

definition rotation_actor :: "rotation_request \<Rightarrow> uuid" where
  "rotation_actor req = (if rq_automatic req then uuid_nil else sc_actor (rq_scope req))"

definition PerformManualRotation ::
  "secret_system \<Rightarrow> rotation_env \<Rightarrow> rotation_request \<Rightarrow> rotation_state \<Rightarrow> rotation_error option \<times> rotation_state" where
  "PerformManualRotation sys env req st =
     (let se = rn_secret env; i = rq_secret req in
      case resolveRotationValue req (sn_random se) of
        Inl e \<Rightarrow> (Some e, st)
      | Inr plain \<Rightarrow>
     (case read_for_rotation env i (rq_scope req) st of
        Inl e \<Rightarrow> (Some e, st)
      | Inr s \<Rightarrow>
     (case policy_read (rn_fails env) (rq_policy req) (rq_scope req) st of
        Inl e \<Rightarrow> (Some (ErrPolicyStore e), st)
      | Inr pol \<Rightarrow>
     (case critical_secret sys se (rotation_actor req) ''rotate_secret'' (sr_id s) (replaceSecretValue sys se s plain)
          (rt_secrets st) of
        (Some e, ss) \<Rightarrow> (Some (ErrRotationFailed e), st\<lparr>rt_secrets := ss\<rparr>)
      | (None, ss) \<Rightarrow>
          let now = sn_now se;
              st1 = st\<lparr>rt_secrets := ss\<lparr>ss_cache := DeleteByID i (ss_cache ss)\<rparr>\<rparr>;
              st2 = snd (RecordRotation (rn_fails env) \<lparr>rh_secret = i, rh_policy = Some (rq_policy req), rh_at = now,
                rh_previous = sr_version s, rh_new = sr_version s + 1, rh_trigger = TriggerManual,
                rh_notes = rq_notes req\<rparr> st1);
              st3 = snd (UpdateSecretPolicyRotation (rn_fails env) i (rq_policy req) now
                (add_days now (rp_interval pol)) st2) in
          (None, st3)))))"

definition GetRotationHistory ::
  "rotation_env \<Rightarrow> uuid \<Rightarrow> scope \<Rightarrow> rotation_state \<Rightarrow> rotation_error + rotation_history list" where
  "GetRotationHistory env i scope st =
     (case read_for_rotation env i scope st of
        Inl e \<Rightarrow> Inl e
      | Inr _ \<Rightarrow>
          (case repo_GetRotationHistory (rn_fails env) i st of Inl e \<Rightarrow> Inl (ErrPolicyStore e) | Inr hs \<Rightarrow> Inr hs))"

definition GetDueRotations :: "rotation_env \<Rightarrow> scope \<Rightarrow> rotation_state \<Rightarrow> rotation_error + secret_policy list" where
  "GetDueRotations env scope st =
     (case repo_GetDueRotations (rn_fails env) (sn_now (rn_secret env)) scope st of
        Inl e \<Rightarrow> Inl (ErrPolicyStore e) | Inr as \<Rightarrow> Inr as)"

definition GetUpcomingReminders :: "rotation_env \<Rightarrow> scope \<Rightarrow> rotation_state \<Rightarrow> rotation_error + rotation_reminder list" where
  "GetUpcomingReminders env scope st =
     (case repo_GetUpcomingReminders (rn_fails env) (sn_now (rn_secret env)) scope st of
        Inl e \<Rightarrow> Inl (ErrReminderStore e) | Inr rs \<Rightarrow> Inr rs)"

definition AcknowledgeReminder ::
  "rotation_env \<Rightarrow> uuid \<Rightarrow> uuid \<Rightarrow> scope \<Rightarrow> rotation_state \<Rightarrow> rotation_error option \<times> rotation_state" where
  "AcknowledgeReminder env reminder i scope st =
     (case read_for_rotation env i scope st of
        Inl e \<Rightarrow> (Some e, st)
      | Inr _ \<Rightarrow>
          (case UpdateReminder (rn_fails env) reminder True None st of (e, st') \<Rightarrow> (map_option ErrReminderStore e, st')))"

section \<open>The scheduler\<close>

text \<open>Each operation of one tick finds surroundings of its own, numbered in the order of the calls.\<close>

definition performAutomaticRotation ::
  "secret_system \<Rightarrow> rotation_env \<Rightarrow> secret_policy \<Rightarrow> rotation_state \<Rightarrow> rotation_error option \<times> rotation_state" where
  "performAutomaticRotation sys env a st =
     (case GetPolicy env (sp_policy a) (NewAdminScope uuid_nil) st of
        Inl e \<Rightarrow> (Some e, st)
      | Inr pol \<Rightarrow>
          if \<not> rp_auto pol then (None, st)
          else case read_for_rotation env (sp_secret a) (NewAdminScope uuid_nil) st of
            Inl e \<Rightarrow> (Some e, st)
          | Inr s \<Rightarrow>
              PerformManualRotation sys env \<lparr>rq_secret = sp_secret a, rq_policy = sp_policy a,
                rq_scope = NewAdminScope (sr_user s), rq_notes = ''Automatic rotation by scheduler'', rq_value = [],
                rq_generate = True, rq_options = DefaultOptions, rq_automatic = True\<rparr> st)"

fun rotate_due ::
  "secret_system \<Rightarrow> (nat \<Rightarrow> rotation_env) \<Rightarrow> nat \<Rightarrow> secret_policy list \<Rightarrow> rotation_state \<Rightarrow> rotation_state" where
  "rotate_due sys envs k [] st = st"
| "rotate_due sys envs k (a # as) st = rotate_due sys envs (k + 1) as (snd (performAutomaticRotation sys (envs k) a st))"

definition ProcessUserRotations ::
  "secret_system \<Rightarrow> (nat \<Rightarrow> rotation_env) \<Rightarrow> uuid \<Rightarrow> rotation_state \<Rightarrow> rotation_error option \<times> rotation_state" where
  "ProcessUserRotations sys envs user st =
     (case GetDueRotations (envs 0) (NewOwnerScope uuid_nil user) st of
        Inl e \<Rightarrow> (Some e, st)
      | Inr due \<Rightarrow> (None, rotate_due sys envs 1 due st))"

text \<open>\<open>PerformManualRotation\<close> of the scheduler: the rotation of the service, with no predicate on the caller.\<close>

definition scheduler_PerformManualRotation ::
  "secret_system \<Rightarrow> rotation_env \<Rightarrow> rotation_request \<Rightarrow> rotation_state \<Rightarrow> rotation_error option \<times> rotation_state" where
  "scheduler_PerformManualRotation sys env req st =
     PerformManualRotation sys env (req\<lparr>rq_scope := NewAdminScope (sc_actor (rq_scope req)), rq_automatic := False\<rparr>) st"

definition sendReminder ::
  "rotation_env \<Rightarrow> rotation_reminder \<Rightarrow> rotation_state \<Rightarrow> rotation_error option \<times> rotation_state" where
  "sendReminder env r st = AcknowledgeReminder env (rr_id r) (rr_secret r) (NewAdminScope uuid_nil) st"

fun send_reminders ::
  "(nat \<Rightarrow> rotation_env) \<Rightarrow> nat \<Rightarrow> rotation_reminder list \<Rightarrow> rotation_state \<Rightarrow> rotation_state" where
  "send_reminders envs k [] st = st"
| "send_reminders envs k (r # rs) st = send_reminders envs (k + 1) rs (snd (sendReminder (envs k) r st))"

definition ProcessUserReminders ::
  "(nat \<Rightarrow> rotation_env) \<Rightarrow> uuid \<Rightarrow> rotation_state \<Rightarrow> rotation_error option \<times> rotation_state" where
  "ProcessUserReminders envs user st =
     (case GetUpcomingReminders (envs 0) (NewOwnerScope uuid_nil user) st of
        Inl e \<Rightarrow> (Some e, st)
      | Inr rs \<Rightarrow> (None, send_reminders envs 1 rs st))"

text \<open>A failure for one user is logged, and the next user follows.\<close>

fun processAllUserOperations ::
  "secret_system \<Rightarrow> (nat \<Rightarrow> nat \<Rightarrow> rotation_env) \<Rightarrow> nat \<Rightarrow> uuid list \<Rightarrow> rotation_state \<Rightarrow> rotation_state" where
  "processAllUserOperations sys envs k [] st = st"
| "processAllUserOperations sys envs k (u # us) st =
     processAllUserOperations sys envs (k + 2) us
       (snd (ProcessUserReminders (envs (k + 1)) u (snd (ProcessUserRotations sys (envs k) u st))))"

end
