(* ===== verification/Spec2Isabelle.thy ===== *)
theory Spec2Isabelle
  imports Prelude AzureRoles RouteMap Scope PolicyMiddleware Retry LoginThrottle ClientIP VaultRuns AuditRuns
    AuditReports BackupRestore Pwgen AccountRuns Rotation
begin

text \<open>
  RocketVault, a vault server for secrets, keys and certificates, written in Go.

  \<^bold>\<open>The program.\<close>  A request passes the middleware (\<open>src/internal/middleware\<close>): the client address and its rate
  limit, the login throttle on the login routes, then the authorization of the route.  A data-plane route is
  mapped to a data action and allowed by an explicit policy or by a role of the caller in the vault; a
  route of the control plane is allowed by a global role.  The handlers call services, which keep their
  rows through repositories and write critical changes to the audit trail before they make them.

  \<^bold>\<open>Conventions.\<close>  A Go struct is a record, an enumeration a datatype, a table the list of its rows, a Go map
  that is a table a function to options.  An operation takes the state and returns it updated with its result; an
  error is a value of a datatype of the component, \<open>None\<close> or \<open>Inl\<close> beside \<open>Inr\<close>.  What the outside decides is an
  argument: the clock, fresh ids, random numbers, and a predicate that says which database statements
  fail, so that every theorem holds for every pattern of failures unless it says otherwise.  A transaction that fails
  leaves the state as it was.  Log lines, metrics and contexts are left out everywhere.

  \<^bold>\<open>The theories.\<close>
  \<^item> \<open>Prelude\<close>: types, Go's string functions, a keyed store and a step system as locales, lemmas on lists.
    \<open>Digits\<close>: numbers and times as text.  \<open>Float64\<close>: Go's \<open>float64\<close> and \<open>math.Pow\<close>.  \<open>Sha256\<close>: the hash, its constants computed from roots of primes.  \<open>NetAddr\<close>: Go's \<open>net\<close> package, with the round trip
    of printing and parsing addresses.
  \<^item> Authorization.  \<open>AzureRoles\<close>: data actions and built-in roles (\<open>src/model/azure_roles.go\<close>).  \<open>RouteMap\<close>: routes to data
    actions (\<open>src/internal/services/authorization/data_actions.go\<close>).  \<open>Scope\<close>: scopes and scoped queries
    (\<open>src/model/scope.go\<close>, \<open>src/internal/repositories/scoped_crud.go\<close>, \<open>scope_predicate.go\<close>).  \<open>AccessPolicies\<close>: policies and their decisions.
    \<open>RoleAssignments\<close>: assigning and revoking roles.  \<open>VaultAuthz\<close>: decisions on vaults.  \<open>RBAC\<close>: global roles.
    \<open>PolicyMiddleware\<close>: the middleware that composes them, and the same check for the command line.
  \<^item> \<open>CriticalAudit\<close>: an attempt row before, a result row after (\<open>src/internal/services/audit/critical.go\<close>).
  \<^item> Guards of the service.  \<open>LoginThrottle\<close>, \<open>RateLimiter\<close> with \<open>ClientIP\<close>, and \<open>CircuitBreaker\<close> with \<open>Retry\<close>
    (\<open>src/internal/retry\<close>).
  \<^item> Vaults.  \<open>ItemLifecycle\<close>: soft delete, recovery and purge of items
    (\<open>src/internal/repositories/item_lifecycle.go\<close>).  \<open>VaultRepository\<close>: the rows of vaults and provisioning grants.
    \<open>Vaults\<close>: the vault service with cascade, cache, quota and the creator's rights
    (\<open>src/internal/services/vaults\<close>).  \<open>VaultRuns\<close>: runs of vault operations.
  \<^item> The audit trail.  \<open>AuditChain\<close>: hash-chained rows, chain head, queries, verification and retention
    (\<open>src/internal/services/audit\<close>, \<open>src/internal/repositories/audit_repository.go\<close>,
    \<open>src/internal/db/audit_chain_head.go\<close>).  \<open>AuditRuns\<close>: runs of it.  \<open>AuditReports\<close>: the two reports.
  \<^item> \<open>TableOrder\<close> and \<open>BackupRestore\<close>: the order of a restore and the restore over enforced foreign keys
    (\<open>src/internal/backup\<close>).  \<open>Pwgen\<close>: the password generator.
  \<^item> Accounts.  \<open>Totp\<close>: one-time codes and the window of steps (\<open>src/internal/services/auth/totp_service.go\<close>).
    \<open>Accounts\<close>: the tables of users, roles, sessions, service accounts and bootstrap tokens
    (\<open>src/internal/repositories/user_repository.go\<close>, \<open>session_repository.go\<close>, \<open>oauth2_client_repository.go\<close>).
    \<open>Auth\<close>: login, tokens, refresh and revocation (\<open>src/internal/services/auth\<close>).  \<open>Users\<close>: accounts, external
    users with their policy, service accounts (\<open>src/internal/services/users\<close>, \<open>src/internal/services/oauth2\<close>).
    \<open>AccountRuns\<close>: runs of all of these, in which a new id is one not used before.
  \<^item> Secrets.  \<open>SecretTables\<close>: secrets, tags and archived versions in the database
    (\<open>src/internal/repositories/secret_repository.go\<close>, \<open>tag_repository.go\<close>, \<open>versioning_repository.go\<close>).  \<open>CacheKit\<close>:
    the cache of one domain (\<open>src/internal/cachekit/cache.go\<close>); \<open>SecretCache\<close>: the cache of decrypted secrets.
    \<open>Secrets\<close>: the secret service and its versions, \<open>SecretTransfer\<close>: generation, export, import and the cached
    service (\<open>src/internal/services/secrets\<close>, \<open>src/internal/cache\<close>).  \<open>Csv\<close>: the text form of exports, with Go's
    \<open>encoding/csv\<close>.  \<open>Rotation\<close>: rotation policies, rotations, reminders and the scheduler.

  \<^bold>\<open>What is shown.\<close>  Authorization: every data-plane request served was allowed by a policy or a role, the
  command line decides as the middleware does, a principal who is not an administrator grants nothing reserved,
  scoped queries do not reach other vaults, and every change is audited.  Guards: the limiter refines a
  bounded recency list, forged forwarding headers change nothing, the throttle delays but never locks out, the breaker keeps
  its invariant and recovers, retries are explained by the policy and their delays bounded in
  \<open>float64\<close>, for policies within stated limits.  Vaults: over
  any run the cache agrees with the table, quotas hold and protected contents stay; delete and recover are inverse; a purge
  removes exactly one vault, but for the archived versions of its secrets and keys; a failed operation changes no row.
  Audit: over any run a query for a period verifies; two pages of chained rows that verify and end in the same
  hash agree on what is hashed or exhibit a collision; a purge keeps ninety days, unless the stored retention is so long that
  the date wraps.  Restore: foreign keys are never violated and the audit chain head follows the restored rows.  Accounts: a login needs both factors and uses a code once, its
  refusals do not tell which accounts exist, and over any run whose revocations succeed an accepted user token carries
  the present roles of an account that exists.  Secrets: a CSV export is read back as it was, whatever bytes
  it holds.  Several theorems are about what the code does not do
  as meant: a filtered query reports tampering over intact rows, a failed purge of a vault cannot be
  repeated, a trial closes an open breaker, the password generator can drop a character set.

  \<^bold>\<open>Termination and bounds.\<close>  Loops are structural recursions or \<open>function\<close>s with a measure.  The counter
  of \<open>Retry\<close> is the number of attempts the policy leaves, the bound of the code's own loop; no other fuel is used.
  The retry loops of the password generator recur on the list of random numbers they are given.  Integers
  that the code compares only are \<open>int\<close>; the login delay is computed on 64-bit words, retry delays in \<open>float64\<close>,
  and the cutoff of a retention purge modulo \<open>2 ^ 64\<close> seconds.  The
  sequence number of the audit chain is \<open>int\<close>: it would take \<open>2 ^ 63\<close> rows to wrap.

  \<^bold>\<open>Interfaces.\<close>  \<open>Prelude\<close> states a keyed store and a step system as locales.  The store is interpreted on the
  login counters (\<open>counters\<close>); the step system on the limiter (\<open>limiter_run\<close>), role assignments (\<open>roles_run\<close>),
  the vault service (\<open>vault_run\<close>) and the audit trail (\<open>audit_run\<close>), whose invariants over runs come from it.
  \<open>PolicyMiddleware\<close> states the contract of a data-plane check, interpreted on the middleware (\<open>http\<close>) and on the
  command line (\<open>cli\<close>).  \<open>CacheKit\<close> states what a client may rely on of a cache that loses entries, interpreted on
  the cache (\<open>cached\<close>).  The breaker is an inductive step relation with reachability by rule induction.

  \<^bold>\<open>Not modelled.\<close>  The HTTP handlers, the command line, wiring and configuration: decoding, calls of
  the services, encoding.  The SQL text, which the database executes.  Ciphers, signatures and X.509, which
  are calls of Go's crypto packages and of PKCS#11 tokens.  The exchange with an identity provider, which is I/O.
  The versions and rotation of keys and certificates, rekeying, item backups, input validation, the second tier of
  the caches and the ticker of the scheduler are outside this development.  Concurrency inside one operation is modelled where the code
  has it between critical sections (\<open>CircuitBreaker\<close>, the race of \<open>purgeItem\<close>); elsewhere operations are atomic.
\<close>

end
